(* ===== verification/Prelude.thy ===== *)
theory Prelude
  imports Main
begin

text \<open>
  Shared vocabulary of the development.

  \<^item> Strings. A JavaScript string is a sequence of UTF-16 code units; the model keeps the
    code units U+0000 to U+00FF, one \<open>char\<close> each (\<open>of_char\<close> is the code unit). The methods
    of \<open>String.prototype\<close> the source calls (\<open>trim\<close>, \<open>toLowerCase\<close>, \<open>split\<close>, \<open>includes\<close>, \<open>join\<close>,
    template interpolation of numbers) are defined here with their ECMAScript meaning on that
    range.
  \<^item> Effects. A call that may throw is a value of \<open>'e + 'a\<close> (\<open>Inl\<close> the thrown value); an
    \<open>async\<close> method that also works on outside state is a \<open>proc\<close>: it takes the state and returns
    the outcome with the state it leaves, so a throw keeps the writes made before it, as in the
    source.
  \<^item> Clock and identifiers. \<open>new Date()\<close>, \<open>Date.now()\<close> and UUID generation read the
    outside world: an operation takes the readings it makes as arguments. Instants are
    milliseconds since the epoch (\<open>int\<close>).
  \<^item> JSON values: the data that serialisation and redaction work on.
\<close>

named_theorems proc_simps "evaluation of effectful procedures"
named_theorems str_simps "evaluation of the string library"

section \<open>Outcomes: values and thrown exceptions\<close>

definition bindE :: "'e + 'a \<Rightarrow> ('a \<Rightarrow> 'e + 'b) \<Rightarrow> 'e + 'b" where
  "bindE r f = (case r of Inl e \<Rightarrow> Inl e | Inr a \<Rightarrow> f a)"

lemma bindE_simps [simp]:
  "bindE (Inl e) f = Inl e"
  "bindE (Inr a) f = f a"
  by (simp_all add: bindE_def)

lemma bindE_eq_Inr: "bindE r f = Inr b \<longleftrightarrow> (\<exists>a. r = Inr a \<and> f a = Inr b)"
  by (cases r) auto

lemma bindE_eq_Inl: "bindE r f = Inl e \<longleftrightarrow> r = Inl e \<or> (\<exists>a. r = Inr a \<and> f a = Inl e)"
  by (cases r) auto

fun is_ok :: "'e + 'a \<Rightarrow> bool" where
  "is_ok (Inl e) = False"
| "is_ok (Inr a) = True"

lemma is_ok_iff: "is_ok r \<longleftrightarrow> (\<exists>a. r = Inr a)"
  by (cases r) auto

section \<open>Procedures over outside state\<close>

type_synonym ('s, 'e, 'a) proc = "'s \<Rightarrow> ('e + 'a) \<times> 's"

definition returnP :: "'a \<Rightarrow> ('s, 'e, 'a) proc" where
  "returnP a = (\<lambda>s. (Inr a, s))"

definition throwP :: "'e \<Rightarrow> ('s, 'e, 'a) proc" where
  "throwP e = (\<lambda>s. (Inl e, s))"

definition liftP :: "'e + 'a \<Rightarrow> ('s, 'e, 'a) proc" where
  "liftP r = (\<lambda>s. (r, s))"

definition bindP :: "('s, 'e, 'a) proc \<Rightarrow> ('a \<Rightarrow> ('s, 'e, 'b) proc) \<Rightarrow> ('s, 'e, 'b) proc" where
  "bindP m f = (\<lambda>s. case m s of (Inl e, s') \<Rightarrow> (Inl e, s') | (Inr a, s') \<Rightarrow> f a s')"

text \<open>A reading of the outside state (a clock, a configuration value).\<close>

definition getsP :: "('s \<Rightarrow> 'a) \<Rightarrow> ('s, 'e, 'a) proc" where
  "getsP f = (\<lambda>s. (Inr (f s), s))"

lemma getsP_apply [simp, proc_simps]: "getsP f s = (Inr (f s), s)"
  by (simp add: getsP_def)

text \<open>\<open>try { m } catch (e) { h(e) }\<close>: the handler runs in the state the throw left.\<close>

definition catchP :: "('s, 'e, 'a) proc \<Rightarrow> ('e \<Rightarrow> ('s, 'f, 'a) proc) \<Rightarrow> ('s, 'f, 'a) proc" where
  "catchP m h = (\<lambda>s. case m s of (Inl e, s') \<Rightarrow> h e s' | (Inr a, s') \<Rightarrow> (Inr a, s'))"

lemma returnP_apply [simp, proc_simps]: "returnP a s = (Inr a, s)"
  by (simp add: returnP_def)

lemma throwP_apply [simp, proc_simps]: "throwP e s = (Inl e, s)"
  by (simp add: throwP_def)

lemma liftP_apply [simp, proc_simps]: "liftP r s = (r, s)"
  by (simp add: liftP_def)

lemma bindP_Inr [simp, proc_simps]: "m s = (Inr a, s') \<Longrightarrow> bindP m f s = f a s'"
  by (simp add: bindP_def)

lemma bindP_Inl [simp, proc_simps]: "m s = (Inl e, s') \<Longrightarrow> bindP m f s = (Inl e, s')"
  by (simp add: bindP_def)

lemma catchP_Inr [simp, proc_simps]: "m s = (Inr a, s') \<Longrightarrow> catchP m h s = (Inr a, s')"
  by (simp add: catchP_def)

lemma catchP_Inl [simp, proc_simps]: "m s = (Inl e, s') \<Longrightarrow> catchP m h s = h e s'"
  by (simp add: catchP_def)

lemma bindP_cases:
  assumes "bindP m f s = (r, t)"
  obtains (thrown) e where "m s = (Inl e, t)" and "r = Inl e"
    | (cont) a s' where "m s = (Inr a, s')" and "f a s' = (r, t)"
proof (cases "m s")
  case (Pair r0 s')
  then show ?thesis
    using assms that by (cases r0) (auto simp: bindP_def)
qed

lemma bindP_assoc: "bindP (bindP m f) g = bindP m (\<lambda>a. bindP (f a) g)"
  by (rule ext) (simp add: bindP_def split: prod.split sum.split)

section \<open>Strings\<close>

definition js_white :: "char \<Rightarrow> bool" where
  "js_white c \<longleftrightarrow> (let k = (of_char c :: nat)
     in k = 9 \<or> k = 10 \<or> k = 11 \<or> k = 12 \<or> k = 13 \<or> k = 32 \<or> k = 160)"

definition str_trim :: "string \<Rightarrow> string" where
  "str_trim s = rev (dropWhile js_white (rev (dropWhile js_white s)))"

definition char_lower :: "char \<Rightarrow> char" where
  "char_lower c = (let k = (of_char c :: nat)
     in if 65 \<le> k \<and> k \<le> 90 \<or> 192 \<le> k \<and> k \<le> 222 \<and> k \<noteq> 215 then char_of (k + 32) else c)"

definition str_lower :: "string \<Rightarrow> string" where
  "str_lower = map char_lower"

fun str_split :: "char \<Rightarrow> string \<Rightarrow> string list" where
  "str_split d [] = [[]]"
| "str_split d (c # cs) =
     (if c = d then [] # str_split d cs
      else (case str_split d cs of [] \<Rightarrow> [[c]] | w # ws \<Rightarrow> (c # w) # ws))"

fun str_join :: "string \<Rightarrow> string list \<Rightarrow> string" where
  "str_join sep [] = []"
| "str_join sep [w] = w"
| "str_join sep (w # v # ws) = w @ sep @ str_join sep (v # ws)"

fun str_prefix :: "string \<Rightarrow> string \<Rightarrow> bool" where
  "str_prefix [] s = True"
| "str_prefix (p # ps) [] = False"
| "str_prefix (p # ps) (c # cs) = (p = c \<and> str_prefix ps cs)"

text \<open>\<open>s.includes(p)\<close>\<close>

fun str_includes :: "string \<Rightarrow> string \<Rightarrow> bool" where
  "str_includes [] p = (p = [])"
| "str_includes (c # cs) p = (str_prefix p (c # cs) \<or> str_includes cs p)"

fun show_nat :: "nat \<Rightarrow> string" where
  "show_nat n =
     (if n < 10 then [''0123456789'' ! n] else show_nat (n div 10) @ [''0123456789'' ! (n mod 10)])"

declare show_nat.simps [simp del]

definition show_int :: "int \<Rightarrow> string" where
  "show_int i = (if i < 0 then ''-'' @ show_nat (nat (- i)) else show_nat (nat i))"

definition char_between :: "nat \<Rightarrow> nat \<Rightarrow> char \<Rightarrow> bool" where
  "char_between lo hi c \<longleftrightarrow> lo \<le> (of_char c :: nat) \<and> (of_char c :: nat) \<le> hi"

definition is_upper :: "char \<Rightarrow> bool" where "is_upper = char_between 65 90"
definition is_lower :: "char \<Rightarrow> bool" where "is_lower = char_between 97 122"
definition is_digit :: "char \<Rightarrow> bool" where "is_digit = char_between 48 57"

lemmas char_class_defs = char_between_def is_upper_def is_lower_def is_digit_def

lemma dropWhile_fixed: "(xs \<noteq> [] \<longrightarrow> \<not> P (hd xs)) \<Longrightarrow> dropWhile P xs = xs"
  by (cases xs) auto

lemma hd_dropWhile_not: "dropWhile P xs \<noteq> [] \<Longrightarrow> \<not> P (hd (dropWhile P xs))"
  by (rule hd_dropWhile)

lemma last_rev_dropWhile:
  "xs \<noteq> [] \<Longrightarrow> rev (dropWhile P (rev xs)) \<noteq> [] \<Longrightarrow> hd (rev (dropWhile P (rev xs))) = hd xs"
proof -
  assume ne: "rev (dropWhile P (rev xs)) \<noteq> []"
  have "takeWhile P (rev xs) @ dropWhile P (rev xs) = rev xs"
    by simp
  then have "xs = rev (dropWhile P (rev xs)) @ rev (takeWhile P (rev xs))"
    by (metis rev_append rev_rev_ident)
  with ne show ?thesis
    by (metis hd_append2)
qed

text \<open>Trimming twice is trimming once: the result neither starts nor ends with a blank.\<close>

lemma str_trim_idem [simp]: "str_trim (str_trim s) = str_trim s"
proof -
  define a where "a = dropWhile js_white s"
  define b where "b = rev (dropWhile js_white (rev a))"
  have "dropWhile js_white b = b"
  proof (rule dropWhile_fixed, rule impI)
    assume "b \<noteq> []"
    then have "a \<noteq> []" by (auto simp: b_def)
    with \<open>b \<noteq> []\<close> have "hd b = hd a"
      unfolding b_def by (rule last_rev_dropWhile[rotated])
    moreover from \<open>a \<noteq> []\<close> have "\<not> js_white (hd a)"
      unfolding a_def by (rule hd_dropWhile_not)
    ultimately show "\<not> js_white (hd b)" by simp
  qed
  moreover have "dropWhile js_white (rev b) = rev b"
    by (simp add: b_def dropWhile_idem)
  ultimately have "str_trim b = b"
    by (simp add: str_trim_def)
  then show ?thesis
    by (simp add: str_trim_def a_def b_def)
qed

lemma length_str_trim: "length (str_trim s) \<le> length s"
  unfolding str_trim_def
  by (metis length_dropWhile_le length_rev order_trans)

lemma length_str_lower [simp]: "length (str_lower s) = length s"
  by (simp add: str_lower_def)

lemma str_split_nonempty [simp]: "str_split d s \<noteq> []"
  by (induction s) (auto split: list.split)

lemma str_split_no_sep: "d \<notin> set s \<Longrightarrow> str_split d s = [s]"
  by (induction s) auto

lemma str_split_append: "d \<notin> set a \<Longrightarrow> str_split d (a @ d # b) = a # str_split d b"
  by (induction a) auto

lemma str_split_parts: "w \<in> set (str_split d s) \<Longrightarrow> d \<notin> set w"
proof (induction s arbitrary: w)
  case (Cons c cs)
  then show ?case
    by (cases "str_split d cs") (auto split: if_splits)
qed simp

lemma str_split_join: "str_join [d] (str_split d s) = s"
proof (induction s)
  case (Cons c cs)
  obtain w ws where "str_split d cs = w # ws"
    by (cases "str_split d cs") auto
  with Cons show ?case
    by (cases ws) auto
qed simp

lemma str_join_split:
  "ws \<noteq> [] \<Longrightarrow> (\<forall>w\<in>set ws. d \<notin> set w) \<Longrightarrow> str_split d (str_join [d] ws) = ws"
proof (induction ws rule: induct_list012)
  case (3 x y zs)
  then show ?case by (simp add: str_split_append)
qed (simp_all add: str_split_no_sep)

lemma str_prefix_iff: "str_prefix p s \<longleftrightarrow> (\<exists>t. s = p @ t)"
  by (induction p s rule: str_prefix.induct) auto

lemma str_includes_iff: "str_includes s p \<longleftrightarrow> (\<exists>a b. s = a @ p @ b)"
proof (induction s)
  case Nil
  then show ?case by simp
next
  case (Cons c cs)
  show ?case
  proof
    assume "str_includes (c # cs) p"
    then consider "str_prefix p (c # cs)" | "str_includes cs p" by auto
    then show "\<exists>a b. c # cs = a @ p @ b"
    proof cases
      case 1
      then show ?thesis by (metis append_Nil str_prefix_iff)
    next
      case 2
      with Cons obtain a b where "cs = a @ p @ b" by auto
      then have "c # cs = (c # a) @ p @ b" by simp
      then show ?thesis by blast
    qed
  next
    assume "\<exists>a b. c # cs = a @ p @ b"
    then obtain a b where ab: "c # cs = a @ p @ b" by blast
    show "str_includes (c # cs) p"
    proof (cases a)
      case Nil
      with ab have "str_prefix p (c # cs)" by (auto simp: str_prefix_iff)
      then show ?thesis by simp
    next
      case (Cons x xs)
      with ab have "cs = xs @ p @ b" by simp
      with Cons.IH show ?thesis by auto
    qed
  qed
qed

lemma dropWhile_map: "dropWhile P (map f xs) = map f (dropWhile (P \<circ> f) xs)"
  by (induction xs) auto

lemma show_nat_nonempty [simp]: "show_nat n \<noteq> []"
  by (subst show_nat.simps) simp

section \<open>JSON values\<close>

text \<open>
  Numbers are integers here; \<open>JDate t\<close> is the string \<open>t.toISOString()\<close>, kept as the instant it
  denotes (\<open>new Date\<close> of it gives the instant back); \<open>JUndef\<close> is \<open>undefined\<close>. Objects keep
  their properties in insertion order.
\<close>

datatype json =
    JNull
  | JUndef
  | JBool bool
  | JNum int
  | JStr string
  | JDate int
  | JArr "json list"
  | JObj "(string \<times> json) list"

fun json_opt_str :: "string option \<Rightarrow> json" where
  "json_opt_str None = JNull"
| "json_opt_str (Some s) = JStr s"

fun json_opt_date :: "int option \<Rightarrow> json" where
  "json_opt_date None = JNull"
| "json_opt_date (Some t) = JDate t"

definition json_get :: "string \<Rightarrow> (string \<times> json) list \<Rightarrow> json" where
  "json_get k ps = (case map_of ps k of None \<Rightarrow> JUndef | Some v \<Rightarrow> v)"

text \<open>\<open>{ ...ps, k: v }\<close>: overwrite in place, or append.\<close>

fun obj_put :: "string \<Rightarrow> 'v \<Rightarrow> (string \<times> 'v) list \<Rightarrow> (string \<times> 'v) list" where
  "obj_put k v [] = [(k, v)]"
| "obj_put k v ((k', v') # ps) = (if k = k' then (k, v) # ps else (k', v') # obj_put k v ps)"

lemma map_of_obj_put: "map_of (obj_put k v ps) = (map_of ps)(k \<mapsto> v)"
  by (induction ps) auto

text \<open>\<open>{ ...a, ...b }\<close>\<close>

definition put_all :: "(string \<times> json) list \<Rightarrow> (string \<times> json) list \<Rightarrow> (string \<times> json) list" where
  "put_all a b = foldl (\<lambda>ps (k, v). obj_put k v ps) a b"

lemma map_of_put_all:
  "distinct (map fst b) \<Longrightarrow> map_of (put_all a b) k = (case map_of b k of Some v \<Rightarrow> Some v | None \<Rightarrow> map_of a k)"
proof (induction b arbitrary: a)
  case (Cons x b)
  obtain j v where x: "x = (j, v)" by (cases x)
  have "map_of b j = None" using Cons.prems by (simp add: x map_of_eq_None_iff)
  moreover have "put_all a (x # b) = put_all (obj_put j v a) b" by (simp add: put_all_def x)
  ultimately show ?case using Cons.IH [of "obj_put j v a"] Cons.prems
    by (simp add: x map_of_obj_put split: option.split)
qed (simp add: put_all_def)

lemma keys_obj_put: "fst ` set (obj_put k v ps) = insert k (fst ` set ps)"
  by (induction k v ps rule: obj_put.induct) (simp_all add: insert_commute)

lemma keys_put_all: "fst ` set (put_all a b) = fst ` set a \<union> fst ` set b"
proof (induction b arbitrary: a)
  case (Cons x b)
  obtain j v where x: "x = (j, v)" by (cases x)
  have "put_all a (x # b) = put_all (obj_put j v a) b" by (simp add: put_all_def x)
  then show ?case using Cons.IH [of "obj_put j v a"] by (simp add: x keys_obj_put)
qed (simp add: put_all_def)

lemma distinct_obj_put: "distinct (map fst ps) \<Longrightarrow> distinct (map fst (obj_put k v ps))"
  by (induction ps) (auto simp: keys_obj_put)

lemma distinct_put_all: "distinct (map fst a) \<Longrightarrow> distinct (map fst (put_all a b))"
  by (induction b arbitrary: a) (auto simp: put_all_def distinct_obj_put)

text \<open>A property that may be absent.\<close>

definition undef_or_str :: "string option \<Rightarrow> json" where
  "undef_or_str x = (case x of Some s \<Rightarrow> JStr s | None \<Rightarrow> JUndef)"

text \<open>\<open>typeof v === 'object' && v !== null\<close>\<close>

fun is_object :: "json \<Rightarrow> bool" where
  "is_object (JArr xs) = True"
| "is_object (JObj ps) = True"
| "is_object _ = False"

text \<open>The elements of an array under their indices, as \<open>Object.entries\<close> and a spread give them.\<close>

fun indexed :: "nat \<Rightarrow> json list \<Rightarrow> (string \<times> json) list" where
  "indexed i [] = []"
| "indexed i (x # xs) = (show_nat i, x) # indexed (Suc i) xs"

section \<open>Lists\<close>

text \<open>\<open>findIndex\<close>: the first index whose element satisfies the predicate; \<open>None\<close> is \<open>-1\<close>.\<close>

fun find_index :: "('a \<Rightarrow> bool) \<Rightarrow> 'a list \<Rightarrow> nat option" where
  "find_index P [] = None"
| "find_index P (x # xs) = (if P x then Some 0 else map_option Suc (find_index P xs))"

lemma find_index_None: "find_index P xs = None \<longleftrightarrow> (\<forall>x\<in>set xs. \<not> P x)"
  by (induction xs) auto

lemma find_index_Some:
  "find_index P xs = Some i \<Longrightarrow> i < length xs \<and> P (xs ! i) \<and> (\<forall>j<i. \<not> P (xs ! j))"
proof (induction xs arbitrary: i)
  case (Cons x xs)
  then show ?case
    by (auto split: if_splits simp: nth_Cons' less_Suc_eq_0_disj)
qed simp

lemma find_snoc: "find P (xs @ [x]) = (case find P xs of Some y \<Rightarrow> Some y | None \<Rightarrow> if P x then Some x else None)"
  by (induction xs) auto

lemma set_list_update_cases: "y \<in> set (xs[i := v]) \<Longrightarrow> y = v \<or> y \<in> set xs"
  using set_update_subset_insert by fastforce

end
