(* ===== verification/Errors.thy ===== *)
theory Errors
  imports Prelude
begin

text \<open>
  Error codes and exceptions: \<open>ErrorCode\<close>, \<open>DomainError\<close> and \<open>createError\<close> of
  \<open>src/domain/common/result.ts\<close>, the exception classes of
  \<open>src/domain/exceptions/domain.exception.ts\<close>, and the one type \<open>exn\<close> of values the modelled
  code throws, with the \<open>instanceof\<close> tests its handlers make.
\<close>

section \<open>Error codes\<close>

datatype ErrorCode =
    VALIDATION_ERROR | INVALID_EMAIL | INVALID_PASSWORD
  | INVALID_CREDENTIALS | TOKEN_EXPIRED | TOKEN_INVALID | FORBIDDEN | ACCOUNT_LOCKED
  | TOO_MANY_ATTEMPTS | REFRESH_TOKEN_REVOKED
  | USER_NOT_FOUND | USER_ALREADY_EXISTS | USER_SUSPENDED | USER_INACTIVE
  | INVALID_STATUS_TRANSITION
  | ROLE_NOT_FOUND | ROLE_ALREADY_ASSIGNED
  | NOT_FOUND | CONCURRENCY_CONFLICT | TRANSACTION_FAILED | EXTERNAL_SERVICE_ERROR
  | INTERNAL_ERROR

text \<open>The string value of each enum member.\<close>

fun error_code_string :: "ErrorCode \<Rightarrow> string" where
  "error_code_string VALIDATION_ERROR = ''VALIDATION_ERROR''"
| "error_code_string INVALID_EMAIL = ''INVALID_EMAIL''"
| "error_code_string INVALID_PASSWORD = ''INVALID_PASSWORD''"
| "error_code_string INVALID_CREDENTIALS = ''INVALID_CREDENTIALS''"
| "error_code_string TOKEN_EXPIRED = ''TOKEN_EXPIRED''"
| "error_code_string TOKEN_INVALID = ''TOKEN_INVALID''"
| "error_code_string FORBIDDEN = ''FORBIDDEN''"
| "error_code_string ACCOUNT_LOCKED = ''ACCOUNT_LOCKED''"
| "error_code_string TOO_MANY_ATTEMPTS = ''TOO_MANY_ATTEMPTS''"
| "error_code_string REFRESH_TOKEN_REVOKED = ''REFRESH_TOKEN_REVOKED''"
| "error_code_string USER_NOT_FOUND = ''USER_NOT_FOUND''"
| "error_code_string USER_ALREADY_EXISTS = ''USER_ALREADY_EXISTS''"
| "error_code_string USER_SUSPENDED = ''USER_SUSPENDED''"
| "error_code_string USER_INACTIVE = ''USER_INACTIVE''"
| "error_code_string INVALID_STATUS_TRANSITION = ''INVALID_STATUS_TRANSITION''"
| "error_code_string ROLE_NOT_FOUND = ''ROLE_NOT_FOUND''"
| "error_code_string ROLE_ALREADY_ASSIGNED = ''ROLE_ALREADY_ASSIGNED''"
| "error_code_string NOT_FOUND = ''NOT_FOUND''"
| "error_code_string CONCURRENCY_CONFLICT = ''CONCURRENCY_CONFLICT''"
| "error_code_string TRANSACTION_FAILED = ''TRANSACTION_FAILED''"
| "error_code_string EXTERNAL_SERVICE_ERROR = ''EXTERNAL_SERVICE_ERROR''"
| "error_code_string INTERNAL_ERROR = ''INTERNAL_ERROR''"

text \<open>The enum's members, in declaration order.\<close>

definition all_error_codes :: "ErrorCode list" where
  "all_error_codes =
     [VALIDATION_ERROR, INVALID_EMAIL, INVALID_PASSWORD, INVALID_CREDENTIALS, TOKEN_EXPIRED,
      TOKEN_INVALID, FORBIDDEN, ACCOUNT_LOCKED, TOO_MANY_ATTEMPTS, REFRESH_TOKEN_REVOKED,
      USER_NOT_FOUND, USER_ALREADY_EXISTS, USER_SUSPENDED, USER_INACTIVE,
      INVALID_STATUS_TRANSITION, ROLE_NOT_FOUND, ROLE_ALREADY_ASSIGNED, NOT_FOUND,
      CONCURRENCY_CONFLICT, TRANSACTION_FAILED, EXTERNAL_SERVICE_ERROR, INTERNAL_ERROR]"

lemma all_error_codes_complete: "c \<in> set all_error_codes"
  by (cases c) (simp_all add: all_error_codes_def)

lemma error_code_string_inj: "inj error_code_string"
proof (rule injI)
  fix c d
  assume "error_code_string c = error_code_string d"
  then show "c = d" by (cases c) (cases d, simp_all)+
qed

section \<open>HTTP problem bodies\<close>

text \<open>The object literal the guards and interceptors hand to an \<open>HttpException\<close>.\<close>

record problem =
  pb_type :: string
  pb_title :: string
  pb_status :: nat
  pb_detail :: string
  pb_code :: ErrorCode
  pb_extra :: "(string \<times> json) list"

section \<open>Thrown values\<close>

text \<open>
  \<open>JsError\<close>, \<open>JsTypeError\<close>, \<open>JsRangeError\<close> are the built-in classes; the five domain exceptions
  and the infrastructure ones follow the source's classes; \<open>PrismaKnown code target message\<close> is
  Prisma's \<open>PrismaClientKnownRequestError\<close> (its \<open>code\<close>, \<open>meta.target\<close> and \<open>message\<close>); \<open>HttpExc status body\<close> is a
  NestJS \<open>HttpException\<close>; \<open>ThrownUndefined\<close> is \<open>throw undefined\<close> (\<open>throw null\<close> alike).
\<close>

datatype exn =
    JsError string
  | JsTypeError string
  | JsRangeError string
  | UserNotFoundException string string
  | EmailAlreadyExistsException string
  | InvalidPasswordException string
  | UserSuspendedException string
  | InvariantViolationException string
  | ConcurrencyConflictError string string
  | DatabaseError string
  | PrismaKnown string "string list" string
  | CacheError string
  | ExternalServiceError string string
  | CircuitOpenError int
  | TimeoutError string int
  | HttpExc nat problem
  | ThrownUndefined

text \<open>\<open>instanceof DomainException\<close>, and the \<open>code\<close>, \<open>message\<close> and \<open>metadata\<close> of the five subclasses.\<close>

fun is_DomainException :: "exn \<Rightarrow> bool" where
  "is_DomainException (UserNotFoundException i t) = True"
| "is_DomainException (EmailAlreadyExistsException e) = True"
| "is_DomainException (InvalidPasswordException r) = True"
| "is_DomainException (UserSuspendedException u) = True"
| "is_DomainException (InvariantViolationException i) = True"
| "is_DomainException _ = False"

fun domain_exn_code :: "exn \<Rightarrow> string" where
  "domain_exn_code (UserNotFoundException i t) = ''USER_NOT_FOUND''"
| "domain_exn_code (EmailAlreadyExistsException e) = ''EMAIL_ALREADY_EXISTS''"
| "domain_exn_code (InvalidPasswordException r) = ''INVALID_PASSWORD''"
| "domain_exn_code (UserSuspendedException u) = ''USER_SUSPENDED''"
| "domain_exn_code (InvariantViolationException i) = ''INVARIANT_VIOLATION''"
| "domain_exn_code _ = ''''"

fun domain_exn_message :: "exn \<Rightarrow> string" where
  "domain_exn_message (UserNotFoundException i t) = ''User not found with '' @ t @ '': '' @ i"
| "domain_exn_message (EmailAlreadyExistsException e) =
     ''A user with email \"'' @ e @ ''\" already exists.''"
| "domain_exn_message (InvalidPasswordException r) = ''Invalid password: '' @ r"
| "domain_exn_message (UserSuspendedException u) =
     ''User \"'' @ u @ ''\" is suspended and cannot perform this action.''"
| "domain_exn_message (InvariantViolationException i) = ''Domain invariant violated: '' @ i"
| "domain_exn_message _ = ''''"

fun domain_exn_metadata :: "exn \<Rightarrow> (string \<times> json) list" where
  "domain_exn_metadata (UserNotFoundException i t) =
     [(''identifier'', JStr i), (''identifierType'', JStr t)]"
| "domain_exn_metadata (EmailAlreadyExistsException e) = [(''email'', JStr e)]"
| "domain_exn_metadata (InvalidPasswordException r) = [(''reason'', JStr r)]"
| "domain_exn_metadata (UserSuspendedException u) = [(''userId'', JStr u)]"
| "domain_exn_metadata (InvariantViolationException i) = [(''invariant'', JStr i)]"
| "domain_exn_metadata _ = []"

text \<open>
  \<open>instanceof Error\<close> (every class above extends \<open>Error\<close>) and the error's \<open>message\<close>. The text
  NestJS gives an \<open>HttpException\<close> built from an object is not modelled (empty), nor is the
  ISO instant at the end of the message of \<open>CircuitOpenError\<close>.
\<close>

fun is_Error :: "exn \<Rightarrow> bool" where
  "is_Error ThrownUndefined = False"
| "is_Error _ = True"

fun exn_message :: "exn \<Rightarrow> string" where
  "exn_message (JsError m) = m"
| "exn_message (JsTypeError m) = m"
| "exn_message (JsRangeError m) = m"
| "exn_message (ConcurrencyConflictError entity i) =
     ''Concurrent modification detected on '' @ entity @ '' ('' @ i @ ''). Please retry.''"
| "exn_message (DatabaseError m) = m"
| "exn_message (PrismaKnown c t m) = m"
| "exn_message (CacheError m) = m"
| "exn_message (ExternalServiceError sv m) = m"
| "exn_message (CircuitOpenError t) = ''Circuit breaker is open.''"
| "exn_message (TimeoutError m t) = m"
| "exn_message (HttpExc st b) = ''''"
| "exn_message ThrownUndefined = ''''"
| "exn_message e = domain_exn_message e"

lemma DomainException_is_Error: "is_DomainException e \<Longrightarrow> is_Error e"
  by (cases e) auto

section \<open>DomainError records\<close>

record DomainError =
  de_code :: ErrorCode
  de_message :: string
  de_details :: "(string \<times> json) list option"
  de_cause :: "exn option"

definition createError ::
  "ErrorCode \<Rightarrow> string \<Rightarrow> (string \<times> json) list option \<Rightarrow> exn option \<Rightarrow> DomainError" where
  "createError code message details cause =
     \<lparr>de_code = code, de_message = message, de_details = details, de_cause = cause\<rparr>"

end
