(* ===== verification/Results.thy ===== *)
theory Results
  imports Errors
begin

text \<open>
  The two \<open>Result\<close> classes: \<open>src/domain/common/result.ts\<close> (\<open>DResult_\<dots>\<close>) and
  \<open>src/application/result.ts\<close> (\<open>AResult_\<dots>\<close>). Both constructors are private, so every instance
  comes from \<open>ok\<close> or \<open>fail\<close>: the datatype below. The locale \<open>result_type\<close> states what both
  classes promise (the laws of railway-oriented chaining); each class is an interpretation of it.
\<close>

datatype ('t, 'e) Result = Ok 't | Fail 'e

section \<open>The domain class\<close>

definition DResult_ok :: "'t \<Rightarrow> ('t, 'e) Result" where
  "DResult_ok v = Ok v"

definition DResult_fail :: "'e \<Rightarrow> ('t, 'e) Result" where
  "DResult_fail e = Fail e"

definition DResult_fromNullable :: "'t option \<Rightarrow> 'e \<Rightarrow> ('t, 'e) Result" where
  "DResult_fromNullable v err = (case v of Some x \<Rightarrow> DResult_ok x | None \<Rightarrow> DResult_fail err)"

text \<open>The getters \<open>isOk\<close> and \<open>isErr\<close>: properties, not methods.\<close>

fun DResult_isOk :: "('t, 'e) Result \<Rightarrow> bool" where
  "DResult_isOk (Ok v) = True"
| "DResult_isOk (Fail e) = False"

definition DResult_isErr :: "('t, 'e) Result \<Rightarrow> bool" where
  "DResult_isErr r = (\<not> DResult_isOk r)"

fun DResult_value :: "('t, 'e) Result \<Rightarrow> exn + 't" where
  "DResult_value (Ok v) = Inr v"
| "DResult_value (Fail e) =
     Inl (JsError ''Cannot access value on a failed Result. Use error instead.'')"

fun DResult_error :: "('t, 'e) Result \<Rightarrow> exn + 'e" where
  "DResult_error (Ok v) =
     Inl (JsError ''Cannot access error on a successful Result. Use value instead.'')"
| "DResult_error (Fail e) = Inr e"

text \<open>
  \<open>Result.all\<close> calls \<open>result.isErr()\<close>. \<open>isErr\<close> is a getter, so the call applies a boolean:
  the first iteration of the loop throws a \<open>TypeError\<close>, whatever the element is.
\<close>

fun DResult_all :: "('t, 'e) Result list \<Rightarrow> exn + ('t list, 'e) Result" where
  "DResult_all [] = Inr (DResult_ok [])"
| "DResult_all (r # rs) = Inl (JsTypeError ''result.isErr is not a function'')"

text \<open>\<open>Result.try\<close>: the callback is awaited; anything it throws becomes a failure.\<close>

definition DResult_try ::
  "('s, exn, 't) proc \<Rightarrow> ErrorCode \<Rightarrow> 's \<Rightarrow> ('t, DomainError) Result \<times> 's" where
  "DResult_try fn errorCode s =
     (case fn s of
        (Inr value, s') \<Rightarrow> (DResult_ok value, s')
      | (Inl err, s') \<Rightarrow>
          (let error = (if is_Error err then err else JsError ''undefined'')
           in (DResult_fail (createError errorCode (exn_message error) None (Some error)), s')))"

fun DResult_map :: "('t \<Rightarrow> 'u) \<Rightarrow> ('t, 'e) Result \<Rightarrow> ('u, 'e) Result" where
  "DResult_map fn (Ok v) = DResult_ok (fn v)"
| "DResult_map fn (Fail e) = DResult_fail e"

fun DResult_mapError :: "('e \<Rightarrow> 'f) \<Rightarrow> ('t, 'e) Result \<Rightarrow> ('t, 'f) Result" where
  "DResult_mapError fn (Ok v) = DResult_ok v"
| "DResult_mapError fn (Fail e) = DResult_fail (fn e)"

fun DResult_flatMap :: "('t \<Rightarrow> ('u, 'e) Result) \<Rightarrow> ('t, 'e) Result \<Rightarrow> ('u, 'e) Result" where
  "DResult_flatMap fn (Ok v) = fn v"
| "DResult_flatMap fn (Fail e) = DResult_fail e"

fun DResult_match :: "('t \<Rightarrow> 'u) \<Rightarrow> ('e \<Rightarrow> 'u) \<Rightarrow> ('t, 'e) Result \<Rightarrow> 'u" where
  "DResult_match onOk onErr (Ok v) = onOk v"
| "DResult_match onOk onErr (Fail e) = onErr e"

fun DResult_unwrapOr :: "'t \<Rightarrow> ('t, 'e) Result \<Rightarrow> 't" where
  "DResult_unwrapOr d (Ok v) = v"
| "DResult_unwrapOr d (Fail e) = d"

text \<open>\<open>unwrap\<close> throws the stored error itself.\<close>

fun DResult_unwrap :: "('t, 'e) Result \<Rightarrow> 'e + 't" where
  "DResult_unwrap (Ok v) = Inr v"
| "DResult_unwrap (Fail e) = Inl e"

fun DResult_tap :: "('t \<Rightarrow> 's \<Rightarrow> 's) \<Rightarrow> ('t, 'e) Result \<Rightarrow> 's \<Rightarrow> ('t, 'e) Result \<times> 's" where
  "DResult_tap fn (Ok v) s = (Ok v, fn v s)"
| "DResult_tap fn (Fail e) s = (Fail e, s)"

fun DResult_tapError :: "('e \<Rightarrow> 's \<Rightarrow> 's) \<Rightarrow> ('t, 'e) Result \<Rightarrow> 's \<Rightarrow> ('t, 'e) Result \<times> 's" where
  "DResult_tapError fn (Ok v) s = (Ok v, s)"
| "DResult_tapError fn (Fail e) s = (Fail e, fn e s)"

fun DResult_filter :: "('t \<Rightarrow> bool) \<Rightarrow> 'e \<Rightarrow> ('t, 'e) Result \<Rightarrow> ('t, 'e) Result" where
  "DResult_filter predicate error (Ok v) =
     (if \<not> predicate v then DResult_fail error else Ok v)"
| "DResult_filter predicate error (Fail e) = Fail e"

definition DResult_matchAsync ::
  "('t \<Rightarrow> ('s, 'x, 'u) proc) \<Rightarrow> ('e \<Rightarrow> ('s, 'x, 'u) proc) \<Rightarrow> ('t, 'e) Result \<Rightarrow> ('s, 'x, 'u) proc" where
  "DResult_matchAsync onOk onErr r = (case r of Ok v \<Rightarrow> onOk v | Fail e \<Rightarrow> onErr e)"

fun DResult_toJSON :: "(json, json) Result \<Rightarrow> json" where
  "DResult_toJSON (Ok v) = JObj [(''ok'', JBool True), (''value'', v)]"
| "DResult_toJSON (Fail e) = JObj [(''ok'', JBool False), (''error'', e)]"

section \<open>The application class\<close>

definition AResult_ok :: "'t \<Rightarrow> ('t, 'e) Result" where
  "AResult_ok v = Ok v"

definition AResult_fail :: "'e \<Rightarrow> ('t, 'e) Result" where
  "AResult_fail e = Fail e"

fun AResult_isSuccess :: "('t, 'e) Result \<Rightarrow> bool" where
  "AResult_isSuccess (Ok v) = True"
| "AResult_isSuccess (Fail e) = False"

definition AResult_isFailure :: "('t, 'e) Result \<Rightarrow> bool" where
  "AResult_isFailure r = (\<not> AResult_isSuccess r)"

fun AResult_getValue :: "('t, 'e) Result \<Rightarrow> exn + 't" where
  "AResult_getValue (Ok v) = Inr v"
| "AResult_getValue (Fail e) = Inl (JsError ''Cannot retrieve value from a failed result.'')"

fun AResult_getError :: "('t, 'e) Result \<Rightarrow> exn + 'e" where
  "AResult_getError (Ok v) = Inl (JsError ''Cannot retrieve error from a successful result.'')"
| "AResult_getError (Fail e) = Inr e"

fun AResult_getOrDefault :: "'t \<Rightarrow> ('t, 'e) Result \<Rightarrow> 't" where
  "AResult_getOrDefault d (Ok v) = v"
| "AResult_getOrDefault d (Fail e) = d"

fun AResult_getOrElse :: "('e \<Rightarrow> 't) \<Rightarrow> ('t, 'e) Result \<Rightarrow> 't" where
  "AResult_getOrElse fallback (Ok v) = v"
| "AResult_getOrElse fallback (Fail e) = fallback e"

fun AResult_map :: "('t \<Rightarrow> 'u) \<Rightarrow> ('t, 'e) Result \<Rightarrow> ('u, 'e) Result" where
  "AResult_map fn (Ok v) = AResult_ok (fn v)"
| "AResult_map fn (Fail e) = AResult_fail e"

fun AResult_flatMap :: "('t \<Rightarrow> ('u, 'e) Result) \<Rightarrow> ('t, 'e) Result \<Rightarrow> ('u, 'e) Result" where
  "AResult_flatMap fn (Ok v) = fn v"
| "AResult_flatMap fn (Fail e) = AResult_fail e"

fun AResult_mapError :: "('e \<Rightarrow> 'f) \<Rightarrow> ('t, 'e) Result \<Rightarrow> ('t, 'f) Result" where
  "AResult_mapError fn (Fail e) = AResult_fail (fn e)"
| "AResult_mapError fn (Ok v) = AResult_ok v"

fun AResult_match :: "('t \<Rightarrow> 'u) \<Rightarrow> ('e \<Rightarrow> 'u) \<Rightarrow> ('t, 'e) Result \<Rightarrow> 'u" where
  "AResult_match onSuccess onFailure (Ok v) = onSuccess v"
| "AResult_match onSuccess onFailure (Fail e) = onFailure e"

text \<open>
  \<open>Result.combine\<close>: one pass looks for a failure (and re-wraps its error), a second one reads
  all values; both accessors can throw, and the throw would propagate.
\<close>

fun combine_scan :: "('t, 'e) Result list \<Rightarrow> exn + ('t list, 'e) Result option" where
  "combine_scan [] = Inr None"
| "combine_scan (r # rs) =
     (if AResult_isFailure r
      then bindE (AResult_getError r) (\<lambda>e. Inr (Some (AResult_fail e)))
      else combine_scan rs)"

fun combine_values :: "('t, 'e) Result list \<Rightarrow> exn + 't list" where
  "combine_values [] = Inr []"
| "combine_values (r # rs) =
     bindE (AResult_getValue r) (\<lambda>v. bindE (combine_values rs) (\<lambda>vs. Inr (v # vs)))"

definition AResult_combine :: "('t, 'e) Result list \<Rightarrow> exn + ('t list, 'e) Result" where
  "AResult_combine results =
     bindE (combine_scan results) (\<lambda>found.
       case found of Some r \<Rightarrow> Inr r
       | None \<Rightarrow> bindE (combine_values results) (\<lambda>vs. Inr (AResult_ok vs)))"

lemmas result_defs =
  DResult_ok_def DResult_fail_def DResult_isErr_def AResult_ok_def AResult_fail_def
  AResult_isFailure_def DResult_fromNullable_def

section \<open>The contract both classes implement\<close>

locale result_type =
  fixes ok :: "'t \<Rightarrow> ('t, 'e) Result"
    and fail :: "'e \<Rightarrow> ('t, 'e) Result"
    and chain :: "('t \<Rightarrow> ('t, 'e) Result) \<Rightarrow> ('t, 'e) Result \<Rightarrow> ('t, 'e) Result"
    and mapv :: "('t \<Rightarrow> 't) \<Rightarrow> ('t, 'e) Result \<Rightarrow> ('t, 'e) Result"
    and fold_result :: "('t \<Rightarrow> bool) \<Rightarrow> ('e \<Rightarrow> bool) \<Rightarrow> ('t, 'e) Result \<Rightarrow> bool"
  assumes chain_ok: "chain f (ok v) = f v"
    and chain_fail: "chain f (fail e) = fail e"
    and map_ok: "mapv g (ok v) = ok (g v)"
    and map_fail: "mapv g (fail e) = fail e"
    and match_ok: "fold_result p q (ok v) = p v"
    and match_fail: "fold_result p q (fail e) = q e"
    and two_track: "(\<exists>v. r = ok v) \<or> (\<exists>e. r = fail e)"
begin

lemma chain_assoc: "chain g (chain f r) = chain (\<lambda>v. chain g (f v)) r"
  using two_track [of r] by (auto simp: chain_ok chain_fail)

lemma chain_right_unit: "chain ok r = r"
  using two_track [of r] by (auto simp: chain_ok chain_fail)

lemma map_as_chain: "mapv g r = chain (\<lambda>v. ok (g v)) r"
  using two_track [of r] by (auto simp: chain_ok chain_fail map_ok map_fail)

lemma chain_short_circuit:
  "fold_result (\<lambda>_. False) (\<lambda>_. True) r \<Longrightarrow> chain f r = r"
  using two_track [of r] by (auto simp: chain_fail match_ok)

text \<open>A pipeline of steps stops at the first failing step and returns its failure.\<close>

lemma pipeline_stops:
  assumes "foldl (\<lambda>acc f. chain f acc) r fs = ok w"
  shows "\<exists>v. r = ok v"
  using assms
proof (induction fs arbitrary: r)
  case Nil
  then show ?case by auto
next
  case (Cons f fs)
  then have "\<exists>v. chain f r = ok v" by simp
  then show ?case
    using two_track [of r] by (auto simp: chain_fail)
qed

end

interpretation dres: result_type DResult_ok DResult_fail DResult_flatMap DResult_map DResult_match
  by unfold_locales (auto simp: result_defs intro: Result.exhaust)

interpretation ares: result_type AResult_ok AResult_fail AResult_flatMap AResult_map AResult_match
  by unfold_locales (auto simp: result_defs intro: Result.exhaust)

section \<open>Accessors and combinators\<close>

lemma DResult_all_ok_iff: "(\<exists>r. DResult_all rs = Inr r) \<longleftrightarrow> rs = []"
  by (cases rs) auto

lemma combine_scan_values:
  "combine_scan rs = Inr None \<longleftrightarrow> (\<exists>vs. rs = map Ok vs)"
proof (induction rs)
  case (Cons r rs)
  then show ?case
    by (cases r) (auto simp: result_defs Cons_eq_map_conv)
qed simp

lemma combine_values_Ok: "combine_values (map Ok vs) = Inr vs"
  by (induction vs) auto

lemma combine_scan_Fail: "combine_scan (map Ok vs @ Fail e # rs) = Inr (Some (Fail e))"
  by (induction vs) (auto simp: result_defs)

lemma results_split:
  obtains (all_ok) vs where "rs = map Ok vs"
    | (first_fail) vs e rs' where "rs = map Ok vs @ Fail e # rs'"
proof (induction rs arbitrary: thesis)
  case Nil
  show ?case by (rule Nil(1) [of "[]"]) simp
next
  case (Cons r rs)
  show ?case
  proof (cases r)
    case (Fail e)
    then show ?thesis using Cons.prems(2) [of "[]" e rs] by simp
  next
    case (Ok v)
    show ?thesis
    proof (rule Cons.IH)
      fix vs assume "rs = map Ok vs"
      with Ok Cons.prems(1) [of "v # vs"] show ?thesis by simp
    next
      fix vs e rs' assume "rs = map Ok vs @ Fail e # rs'"
      with Ok Cons.prems(2) [of "v # vs" e rs'] show ?thesis by simp
    qed
  qed
qed

lemma combine_scan_Ok: "combine_scan (map Ok vs) = Inr None"
  using combine_scan_values by blast

lemma combine_Ok: "AResult_combine (map Ok vs) = Inr (Ok vs)"
  by (simp add: AResult_combine_def combine_scan_Ok combine_values_Ok result_defs)

lemma combine_first_Fail: "AResult_combine (map Ok vs @ Fail e # rs) = Inr (Fail e)"
  by (simp add: AResult_combine_def combine_scan_Fail)

section \<open>Properties\<close>

text \<open>
  \<open>Result.combine\<close> of the application layer: all successes give the list of their values in order,
  otherwise the first failure is returned, whatever follows it; every list is of one of these two
  forms, so the accessors inside never throw.
\<close>
theorem combine_all_or_first_failure:
  fixes rs :: "('t, 'e) Result list"
  shows "AResult_combine (map Ok vs :: ('t, 'e) Result list) = Inr (Ok vs) \<and>
    AResult_combine (map Ok vs @ Fail e # rs) = Inr (Fail e) \<and>
    ((\<exists>ws. rs = map Ok ws) \<or> (\<exists>ws d rs'. rs = map Ok ws @ Fail d # rs'))"
proof (intro conjI)
  show "(\<exists>ws. rs = map Ok ws) \<or> (\<exists>ws d rs'. rs = map Ok ws @ Fail d # rs')"
    by (rule results_split [of rs]) auto
qed (simp_all add: combine_Ok combine_first_Fail)

text \<open>
  \<open>Result.all\<close> of the domain layer works only for the empty list: any other call throws a
  \<open>TypeError\<close>, even when every result is a success, because it calls the getter \<open>isErr\<close>.
\<close>
theorem Result_all_only_empty:
  "DResult_all rs = (if rs = [] then Inr (Ok []) else Inl (JsTypeError ''result.isErr is not a function''))"
  by (cases rs) (simp_all add: result_defs)

end
