(* ===== verification/Regex.thy ===== *)
theory Regex
  imports Prelude
begin

text \<open>
  The regular expressions of the source, as data. \<open>lang\<close> is their meaning, \<open>rx_test\<close> an
  executable matcher by derivatives for expressions anchored at both ends (\<open>/^\<dots>$/.test\<close>), and
  \<open>rx_test_iff\<close> says that the matcher decides the language. Every pattern the source tests with
  both anchors is a value of type \<open>rx\<close>, written in the order of the pattern.
\<close>

datatype rx =
    RxZero
  | RxOne
  | Cls "char \<Rightarrow> bool"
  | Seq rx rx
  | Alt rx rx
  | Star rx
  | Rep nat nat rx

abbreviation RxPlus :: "rx \<Rightarrow> rx" where
  "RxPlus r \<equiv> Seq r (Star r)"

abbreviation RxOpt :: "rx \<Rightarrow> rx" where
  "RxOpt r \<equiv> Rep 0 1 r"

definition Chr :: "char \<Rightarrow> rx" where
  "Chr c = Cls (\<lambda>d. d = c)"

primrec lang :: "rx \<Rightarrow> string set" where
  "lang RxZero = {}"
| "lang RxOne = {[]}"
| "lang (Cls P) = {[c] | c. P c}"
| "lang (Seq r s) = {u @ v | u v. u \<in> lang r \<and> v \<in> lang s}"
| "lang (Alt r s) = lang r \<union> lang s"
| "lang (Star r) = {concat ws | ws. set ws \<subseteq> lang r}"
| "lang (Rep lo hi r) = {concat ws | ws. set ws \<subseteq> lang r \<and> lo \<le> length ws \<and> length ws \<le> hi}"

section \<open>The matcher\<close>

fun nullable :: "rx \<Rightarrow> bool" where
  "nullable RxZero = False"
| "nullable RxOne = True"
| "nullable (Cls P) = False"
| "nullable (Seq r s) = (nullable r \<and> nullable s)"
| "nullable (Alt r s) = (nullable r \<or> nullable s)"
| "nullable (Star r) = True"
| "nullable (Rep lo hi r) = (lo \<le> hi \<and> (lo = 0 \<or> nullable r))"

fun mkSeq :: "rx \<Rightarrow> rx \<Rightarrow> rx" where
  "mkSeq RxZero s = RxZero"
| "mkSeq RxOne s = s"
| "mkSeq r s = Seq r s"

fun mkAlt :: "rx \<Rightarrow> rx \<Rightarrow> rx" where
  "mkAlt RxZero s = s"
| "mkAlt r RxZero = r"
| "mkAlt r s = Alt r s"

fun deriv :: "char \<Rightarrow> rx \<Rightarrow> rx" where
  "deriv c RxZero = RxZero"
| "deriv c RxOne = RxZero"
| "deriv c (Cls P) = (if P c then RxOne else RxZero)"
| "deriv c (Seq r s) =
     (if nullable r then mkAlt (mkSeq (deriv c r) s) (deriv c s) else mkSeq (deriv c r) s)"
| "deriv c (Alt r s) = mkAlt (deriv c r) (deriv c s)"
| "deriv c (Star r) = mkSeq (deriv c r) (Star r)"
| "deriv c (Rep lo hi r) =
     (if hi = 0 \<or> hi < lo then RxZero else mkSeq (deriv c r) (Rep (lo - 1) (hi - 1) r))"

fun rx_test :: "rx \<Rightarrow> string \<Rightarrow> bool" where
  "rx_test r [] = nullable r"
| "rx_test r (c # cs) = rx_test (deriv c r) cs"

section \<open>The matcher decides the language\<close>

lemma lang_mkSeq [simp]: "lang (mkSeq r s) = lang (Seq r s)"
  by (cases r) auto

lemma lang_mkAlt [simp]: "lang (mkAlt r s) = lang (Alt r s)"
  by (cases r; cases s) auto

lemma StarI: "s = concat ws \<Longrightarrow> set ws \<subseteq> lang r \<Longrightarrow> s \<in> lang (Star r)"
  by auto

lemma StarE:
  assumes "s \<in> lang (Star r)"
  obtains ws where "s = concat ws" and "set ws \<subseteq> lang r"
  using assms by auto

lemma RepI:
  "s = concat ws \<Longrightarrow> set ws \<subseteq> lang r \<Longrightarrow> lo \<le> length ws \<Longrightarrow> length ws \<le> hi \<Longrightarrow>
     s \<in> lang (Rep lo hi r)"
  by auto

lemma RepE:
  assumes "s \<in> lang (Rep lo hi r)"
  obtains ws where "s = concat ws" and "set ws \<subseteq> lang r" and "lo \<le> length ws"
    and "length ws \<le> hi"
  using assms by auto

lemma SeqI: "s = u @ v \<Longrightarrow> u \<in> lang q \<Longrightarrow> v \<in> lang r \<Longrightarrow> s \<in> lang (Seq q r)"
  by auto

lemma SeqE:
  assumes "s \<in> lang (Seq q r)"
  obtains u v where "s = u @ v" and "u \<in> lang q" and "v \<in> lang r"
  using assms by auto

lemma concat_replicate_Nil [simp]: "concat (replicate k []) = []"
  by (induction k) auto

lemma nullable_iff: "nullable r \<longleftrightarrow> [] \<in> lang r"
proof (induction r)
  case (Star r)
  show ?case by (simp del: lang.simps) (rule StarI [of _ "[]"], auto)
next
  case (Rep lo hi r)
  show ?case
  proof
    assume "nullable (Rep lo hi r)"
    then have le: "lo \<le> hi" and r: "lo = 0 \<or> [] \<in> lang r"
      using Rep by simp_all
    from r have "set (replicate lo []) \<subseteq> lang r" by (cases lo) auto
    with le show "[] \<in> lang (Rep lo hi r)"
      by (intro RepI [of _ "replicate lo []"]) (simp_all add: concat_replicate_Nil)
  next
    assume "[] \<in> lang (Rep lo hi r)"
    then obtain ws where ws: "[] = concat ws" "set ws \<subseteq> lang r" "lo \<le> length ws" "length ws \<le> hi"
      by (rule RepE)
    from ws(1,2) have "lo = 0 \<or> ws = [] \<or> [] \<in> lang r"
      by (cases ws) simp_all
    with ws(3,4) show "nullable (Rep lo hi r)"
      using Rep by (cases ws) simp_all
  qed
qed simp_all

text \<open>A concatenation that starts with \<open>c\<close>: some empty words, then one that starts with \<open>c\<close>.\<close>

lemma concat_eq_Cons:
  "concat ws = c # s \<Longrightarrow>
     \<exists>k u vs. ws = replicate k [] @ (c # u) # vs \<and> s = u @ concat vs"
proof (induction ws)
  case Nil
  then show ?case by simp
next
  case (Cons w ws)
  show ?case
  proof (cases w)
    case Nil
    with Cons.prems have "concat ws = c # s" by simp
    then obtain k u vs where "ws = replicate k [] @ (c # u) # vs" "s = u @ concat vs"
      using Cons.IH by (elim meta_impE exE conjE)
    with Nil have "w # ws = replicate (Suc k) [] @ (c # u) # vs \<and> s = u @ concat vs" by simp
    then show ?thesis by blast
  next
    case (Cons d u)
    with Cons.prems have "w # ws = replicate 0 [] @ (c # u) # ws \<and> s = u @ concat ws" by simp
    then show ?thesis by blast
  qed
qed

lemma Star_Cons:
  "c # s \<in> lang (Star r) \<longleftrightarrow> (\<exists>u v. s = u @ v \<and> c # u \<in> lang r \<and> v \<in> lang (Star r))"
proof
  assume "c # s \<in> lang (Star r)"
  then obtain ws where eq: "c # s = concat ws" and ws: "set ws \<subseteq> lang r" by (rule StarE)
  obtain k u vs where split: "ws = replicate k [] @ (c # u) # vs" "s = u @ concat vs"
    using concat_eq_Cons [OF eq [symmetric]] by (elim exE conjE)
  from split(1) ws have "c # u \<in> lang r" "set vs \<subseteq> lang r" by simp_all
  with split(2) show "\<exists>u v. s = u @ v \<and> c # u \<in> lang r \<and> v \<in> lang (Star r)"
    using StarI [OF refl] by blast
next
  assume "\<exists>u v. s = u @ v \<and> c # u \<in> lang r \<and> v \<in> lang (Star r)"
  then obtain u v where "s = u @ v" "c # u \<in> lang r" "v \<in> lang (Star r)" by blast
  moreover from this(3) obtain ws where "v = concat ws" "set ws \<subseteq> lang r" by (rule StarE)
  ultimately show "c # s \<in> lang (Star r)"
    by (intro StarI [of _ "(c # u) # ws"]) simp_all
qed

lemma Rep_Cons:
  "c # s \<in> lang (Rep lo hi r) \<longleftrightarrow>
     0 < hi \<and> lo \<le> hi \<and>
     (\<exists>u v. s = u @ v \<and> c # u \<in> lang r \<and> v \<in> lang (Rep (lo - 1) (hi - 1) r))"
proof
  assume "c # s \<in> lang (Rep lo hi r)"
  then obtain ws where eq: "c # s = concat ws" and ws: "set ws \<subseteq> lang r"
    and len: "lo \<le> length ws" "length ws \<le> hi" by (rule RepE)
  obtain k u vs where split: "ws = replicate k [] @ (c # u) # vs" "s = u @ concat vs"
    using concat_eq_Cons [OF eq [symmetric]] by (elim exE conjE)
  let ?vs = "vs @ replicate k []"
  from split(1) ws have u: "c # u \<in> lang r" and sub: "set ?vs \<subseteq> lang r" by (auto split: if_splits)
  from split(1) len have "lo - 1 \<le> length ?vs" "length ?vs \<le> hi - 1" "0 < hi" "lo \<le> hi" by auto
  moreover have "concat vs = concat ?vs" by simp
  ultimately show "0 < hi \<and> lo \<le> hi \<and>
     (\<exists>u v. s = u @ v \<and> c # u \<in> lang r \<and> v \<in> lang (Rep (lo - 1) (hi - 1) r))"
    using RepI [OF _ sub] u split(2) by blast
next
  assume h: "0 < hi \<and> lo \<le> hi \<and>
     (\<exists>u v. s = u @ v \<and> c # u \<in> lang r \<and> v \<in> lang (Rep (lo - 1) (hi - 1) r))"
  then obtain u v where uv: "s = u @ v" "c # u \<in> lang r" "v \<in> lang (Rep (lo - 1) (hi - 1) r)"
    by blast
  from uv(3) obtain ws where "v = concat ws" "set ws \<subseteq> lang r" "lo - 1 \<le> length ws"
    "length ws \<le> hi - 1" by (rule RepE)
  with uv(1,2) h show "c # s \<in> lang (Rep lo hi r)"
    by (intro RepI [of _ "(c # u) # ws"]) auto
qed

lemma lang_Seq_Cons:
  "c # s \<in> lang (Seq q r) \<longleftrightarrow>
     (\<exists>u v. s = u @ v \<and> c # u \<in> lang q \<and> v \<in> lang r) \<or> ([] \<in> lang q \<and> c # s \<in> lang r)"
proof
  assume "c # s \<in> lang (Seq q r)"
  then obtain u v where uv: "c # s = u @ v" "u \<in> lang q" "v \<in> lang r" by (rule SeqE)
  show "(\<exists>u v. s = u @ v \<and> c # u \<in> lang q \<and> v \<in> lang r) \<or> ([] \<in> lang q \<and> c # s \<in> lang r)"
  proof (cases u)
    case Nil
    with uv show ?thesis by simp
  next
    case (Cons d u')
    with uv show ?thesis by auto
  qed
next
  assume "(\<exists>u v. s = u @ v \<and> c # u \<in> lang q \<and> v \<in> lang r) \<or>
    ([] \<in> lang q \<and> c # s \<in> lang r)"
  then consider u v where "s = u @ v" "c # u \<in> lang q" "v \<in> lang r"
    | "[] \<in> lang q" "c # s \<in> lang r" by blast
  then show "c # s \<in> lang (Seq q r)"
  proof cases
    case 1
    then show ?thesis by (intro SeqI [of _ "c # u" v]) simp_all
  next
    case 2
    then show ?thesis by (intro SeqI [of _ "[]" "c # s"]) simp_all
  qed
qed

lemma lang_Seq_iff: "s \<in> lang (Seq q r) \<longleftrightarrow> (\<exists>u v. s = u @ v \<and> u \<in> lang q \<and> v \<in> lang r)"
  by auto

lemma deriv_iff: "s \<in> lang (deriv c r) \<longleftrightarrow> c # s \<in> lang r"
proof (induction r arbitrary: s)
  case (Seq q r)
  have "s \<in> lang (deriv c (Seq q r)) \<longleftrightarrow>
    s \<in> lang (Seq (deriv c q) r) \<or> (nullable q \<and> s \<in> lang (deriv c r))"
    by (simp del: lang.simps(4))
  also have "\<dots> \<longleftrightarrow> (\<exists>u v. s = u @ v \<and> c # u \<in> lang q \<and> v \<in> lang r) \<or>
      ([] \<in> lang q \<and> c # s \<in> lang r)"
    by (simp only: lang_Seq_iff Seq.IH nullable_iff)
  finally show ?case by (simp only: lang_Seq_Cons)
next
  case (Star r)
  have "s \<in> lang (deriv c (Star r)) \<longleftrightarrow> s \<in> lang (Seq (deriv c r) (Star r))"
    by (simp del: lang.simps)
  then show ?case
    unfolding Star_Cons lang_Seq_iff Star.IH .
next
  case (Rep lo hi r)
  have "s \<in> lang (deriv c (Rep lo hi r)) \<longleftrightarrow>
    0 < hi \<and> lo \<le> hi \<and> s \<in> lang (Seq (deriv c r) (Rep (lo - 1) (hi - 1) r))"
    by (simp del: lang.simps(4-7) add: not_less)
  then show ?case
    unfolding Rep_Cons lang_Seq_iff Rep.IH .
qed auto

theorem rx_test_iff: "rx_test r s \<longleftrightarrow> s \<in> lang r"
  by (induction r s rule: rx_test.induct) (simp_all add: nullable_iff deriv_iff)

section \<open>Shapes of matched strings\<close>

lemma Cls_words: "set ws \<subseteq> lang (Cls P) \<longleftrightarrow> (\<exists>cs. ws = map (\<lambda>c. [c]) cs \<and> list_all P cs)"
proof
  assume h: "set ws \<subseteq> lang (Cls P)"
  have "ws = map (\<lambda>c. [c]) (map hd ws)" and "list_all P (map hd ws)"
    using h by (induction ws) auto
  then show "\<exists>cs. ws = map (\<lambda>c. [c]) cs \<and> list_all P cs" by blast
qed (auto simp: list_all_iff)

lemma concat_singletons [simp]: "concat (map (\<lambda>c. [c]) cs) = cs"
  by (induction cs) auto

lemma singletons_in_Cls: "list_all P cs \<Longrightarrow> set (map (\<lambda>c. [c]) cs) \<subseteq> lang (Cls P)"
  by (auto simp: list_all_iff)

lemma lang_Star_Cls: "cs \<in> lang (Star (Cls P)) \<longleftrightarrow> list_all P cs"
proof
  assume "cs \<in> lang (Star (Cls P))"
  then show "list_all P cs"
    by (rule StarE) (auto simp: Cls_words simp del: lang.simps)
qed (auto intro: StarI [OF concat_singletons [symmetric] singletons_in_Cls] simp del: lang.simps)

lemma lang_Rep_Cls:
  "cs \<in> lang (Rep lo hi (Cls P)) \<longleftrightarrow> list_all P cs \<and> lo \<le> length cs \<and> length cs \<le> hi"
proof
  assume "cs \<in> lang (Rep lo hi (Cls P))"
  then show "list_all P cs \<and> lo \<le> length cs \<and> length cs \<le> hi"
    by (rule RepE) (auto simp: Cls_words simp del: lang.simps)
qed (auto intro: RepI [OF concat_singletons [symmetric] singletons_in_Cls] simp del: lang.simps)

lemma lang_Plus_Cls: "cs \<in> lang (RxPlus (Cls P)) \<longleftrightarrow> cs \<noteq> [] \<and> list_all P cs"
proof
  assume "cs \<in> lang (RxPlus (Cls P))"
  then obtain u v where "cs = u @ v" "u \<in> lang (Cls P)" "v \<in> lang (Star (Cls P))" by (rule SeqE)
  then show "cs \<noteq> [] \<and> list_all P cs" unfolding lang_Star_Cls by auto
next
  assume "cs \<noteq> [] \<and> list_all P cs"
  then obtain c v where "cs = [c] @ v" "P c" "list_all P v" by (cases cs) auto
  then show "cs \<in> lang (RxPlus (Cls P))"
    by (intro SeqI [of _ "[c]" v]) (simp_all only: lang_Star_Cls, simp)
qed

lemma lang_Opt: "s \<in> lang (RxOpt r) \<longleftrightarrow> s = [] \<or> s \<in> lang r"
proof
  assume "s \<in> lang (RxOpt r)"
  then obtain ws where ws: "s = concat ws" "set ws \<subseteq> lang r" "length ws \<le> 1" by (rule RepE)
  then show "s = [] \<or> s \<in> lang r" by (cases ws) auto
next
  assume "s = [] \<or> s \<in> lang r"
  then show "s \<in> lang (RxOpt r)"
    using RepI [of s "[]" r 0 1] RepI [of s "[s]" r 0 1] by (auto simp del: lang.simps)
qed

lemma lang_Chr [simp]: "lang (Chr c) = {[c]}"
  by (auto simp: Chr_def)

end
