(* ===== verification/ValueObjects.thy ===== *)
theory ValueObjects
  imports Errors Regex
begin

unbundle bit_operations_syntax

text \<open>
  The value objects of \<open>src/domain/value-objects\<close>: \<open>UniqueId\<close>, \<open>Email\<close>, \<open>Password\<close>. Each
  regular expression is the \<open>rx\<close> value of its pattern. The lemmas give the shape of accepted
  values, the round trips (what a factory accepts it accepts again, unchanged) and the errors.
\<close>

section \<open>UniqueId\<close>

datatype UniqueId = UniqueId (uid_value: string)

definition uuid_variant :: "char \<Rightarrow> bool" where
  "uuid_variant c \<longleftrightarrow> c \<in> set ''89abAB''"

definition hex_ci :: "char \<Rightarrow> bool" where
  "hex_ci c \<longleftrightarrow> is_digit c \<or> char_between 97 102 c \<or> char_between 65 70 c"

text \<open>
  \<^verbatim>\<open>/^[0-9a-f]{8}-[0-9a-f]{4}-4[0-9a-f]{3}-[89ab][0-9a-f]{3}-[0-9a-f]{12}$/i\<close>
\<close>

definition UUID_V4_REGEX :: rx where
  "UUID_V4_REGEX =
     Seq (Rep 8 8 (Cls hex_ci)) (Seq (Chr (CHR ''-''))
     (Seq (Rep 4 4 (Cls hex_ci)) (Seq (Chr (CHR ''-''))
     (Seq (Chr (CHR ''4'')) (Seq (Rep 3 3 (Cls hex_ci)) (Seq (Chr (CHR ''-''))
     (Seq (Cls uuid_variant) (Seq (Rep 3 3 (Cls hex_ci)) (Seq (Chr (CHR ''-''))
     (Rep 12 12 (Cls hex_ci)))))))))))"

definition UniqueId_fromString :: "string \<Rightarrow> exn + UniqueId" where
  "UniqueId_fromString value =
     (if value = [] then Inl (JsError ''UniqueId value must be a non-empty string'')
      else let trimmed = str_trim value
           in if \<not> rx_test UUID_V4_REGEX trimmed
              then Inl (JsError (''Invalid UUID v4 format: \"'' @ trimmed @ ''\"''))
              else Inr (UniqueId trimmed))"

definition UniqueId_equals :: "UniqueId \<Rightarrow> UniqueId \<Rightarrow> bool" where
  "UniqueId_equals a b \<longleftrightarrow> uid_value a = uid_value b"

definition UniqueId_toString :: "UniqueId \<Rightarrow> string" where
  "UniqueId_toString u = uid_value u"

text \<open>\<open>v.toString(16)\<close> for one hexadecimal digit.\<close>

definition hex_digit :: "nat \<Rightarrow> char" where
  "hex_digit v = ''0123456789abcdef'' ! v"

text \<open>
  The replacement of the fallback generator: every \<open>x\<close> or \<open>y\<close> of the template draws
  \<open>r = (Math.random() * 16) | 0\<close>, here the next number of the list of draws.
\<close>

fun fill_template :: "string \<Rightarrow> (nat \<Rightarrow> nat) \<Rightarrow> nat \<Rightarrow> string" where
  "fill_template [] r k = []"
| "fill_template (c # cs) r k =
     (if c = CHR ''x'' then hex_digit (r k) # fill_template cs r (Suc k)
      else if c = CHR ''y'' then hex_digit ((r k AND 3) OR 8) # fill_template cs r (Suc k)
      else c # fill_template cs r k)"

text \<open>
  \<open>generateUuidV4\<close>: \<open>rndUUID\<close> is what \<open>globalThis.crypto.randomUUID()\<close> does (\<open>None\<close> when it is
  not there, \<open>Inl\<close> when it throws); otherwise the template is filled.
\<close>

definition UniqueId_generateUuidV4 :: "(exn + string) option \<Rightarrow> (nat \<Rightarrow> nat) \<Rightarrow> string" where
  "UniqueId_generateUuidV4 rndUUID r =
     (case rndUUID of
        Some (Inr u) \<Rightarrow> u
      | _ \<Rightarrow> fill_template ''xxxxxxxx-xxxx-4xxx-yxxx-xxxxxxxxxxxx'' r 0)"

definition UniqueId_create :: "(exn + string) option \<Rightarrow> (nat \<Rightarrow> nat) \<Rightarrow> UniqueId" where
  "UniqueId_create rndUUID r = UniqueId (UniqueId_generateUuidV4 rndUUID r)"

section \<open>Email\<close>

datatype Email = Email (email_value: string)

definition alnum :: "char \<Rightarrow> bool" where
  "alnum c \<longleftrightarrow> is_lower c \<or> is_upper c \<or> is_digit c"

definition alnum_hyphen :: "char \<Rightarrow> bool" where
  "alnum_hyphen c \<longleftrightarrow> alnum c \<or> c = CHR ''-''"

text \<open>\<^verbatim>\<open>[a-zA-Z0-9.!#$%&'*+/=?^_`{|}~-]\<close>; \<open>0x27\<close> is the apostrophe, \<open>0x60\<close> the backquote.\<close>

definition atext :: "char \<Rightarrow> bool" where
  "atext c \<longleftrightarrow> alnum c \<or> c \<in> set ''.!#$%&*+/=?^_{|}~-'' \<or> c = CHR 0x27 \<or> c = CHR 0x60"

text \<open>\<^verbatim>\<open>[a-zA-Z0-9](?:[a-zA-Z0-9-]{0,61}[a-zA-Z0-9])?\<close>\<close>

definition LABEL_REGEX :: rx where
  "LABEL_REGEX =
     Seq (Cls alnum) (RxOpt (Seq (Rep 0 61 (Cls alnum_hyphen)) (Cls alnum)))"

definition EMAIL_REGEX :: rx where
  "EMAIL_REGEX =
     Seq (RxPlus (Cls atext)) (Seq (Chr (CHR ''@''))
     (Seq LABEL_REGEX (Star (Seq (Chr (CHR ''.'')) LABEL_REGEX))))"

definition Email_MAX_LENGTH :: nat where "Email_MAX_LENGTH = 320"

definition Email_create :: "string \<Rightarrow> exn + Email" where
  "Email_create raw =
     (if raw = [] then Inl (JsError ''Email must be a non-empty string'')
      else let normalized = str_lower (str_trim raw)
           in if Email_MAX_LENGTH < length normalized
              then Inl (JsError (''Email exceeds maximum length of '' @ show_nat Email_MAX_LENGTH @
                '' characters''))
              else if \<not> rx_test EMAIL_REGEX normalized
              then Inl (JsError (''Invalid email address: \"'' @ raw @ ''\"''))
              else Inr (Email normalized))"

definition Email_fromPersistence :: "string \<Rightarrow> Email" where
  "Email_fromPersistence value = Email (str_lower (str_trim value))"

definition Email_equals :: "Email \<Rightarrow> Email \<Rightarrow> bool" where
  "Email_equals a b \<longleftrightarrow> email_value a = email_value b"

text \<open>\<open>split('@')[0]\<close> is always there; \<open>split('@')[1]\<close> is \<open>undefined\<close> without an at sign.\<close>

definition Email_localPart :: "Email \<Rightarrow> string" where
  "Email_localPart e = hd (str_split (CHR ''@'') (email_value e))"

definition Email_domain :: "Email \<Rightarrow> string option" where
  "Email_domain e =
     (case str_split (CHR ''@'') (email_value e) of _ # d # _ \<Rightarrow> Some d | _ \<Rightarrow> None)"

section \<open>Password\<close>

record Password =
  pw_rawValue :: string
  pw_hashedValue :: "string option"

definition Password_MIN_LENGTH :: nat where "Password_MIN_LENGTH = 8"
definition Password_MAX_LENGTH :: nat where "Password_MAX_LENGTH = 128"

text \<open>\<^verbatim>\<open>[!@#$%^&*()_+\-=[\]{};':"\\|,.<>/?`~]\<close>\<close>

definition special_char :: "char \<Rightarrow> bool" where
  "special_char c \<longleftrightarrow> c \<in> set ''!@#$%^&*()_+-=[]{};:|,.<>/?~'' \<or>
     c = CHR 0x27 \<or> c = CHR 0x22 \<or> c = CHR 0x5C \<or> c = CHR 0x60"

text \<open>The messages \<open>validateStrength\<close> collects, in its order.\<close>

definition strength_errors :: "string \<Rightarrow> string list" where
  "strength_errors password =
     (if length password < Password_MIN_LENGTH
      then [''Password must be at least '' @ show_nat Password_MIN_LENGTH @ '' characters long''] else []) @
     (if Password_MAX_LENGTH < length password
      then [''Password must not exceed '' @ show_nat Password_MAX_LENGTH @ '' characters''] else []) @
     (if \<not> list_ex is_upper password
      then [''Password must contain at least one uppercase letter''] else []) @
     (if \<not> list_ex is_lower password
      then [''Password must contain at least one lowercase letter''] else []) @
     (if \<not> list_ex is_digit password
      then [''Password must contain at least one digit''] else []) @
     (if \<not> list_ex special_char password
      then [''Password must contain at least one special character''] else [])"

definition Password_validateStrength :: "string \<Rightarrow> exn + unit" where
  "Password_validateStrength password =
     (let errors = strength_errors password
      in if errors \<noteq> []
         then Inl (JsError (''Password validation failed: '' @ str_join ''; '' errors))
         else Inr ())"

definition Password_create :: "string \<Rightarrow> exn + Password" where
  "Password_create raw =
     (if raw = [] then Inl (JsError ''Password must be a non-empty string'')
      else bindE (Password_validateStrength raw)
             (\<lambda>_. Inr \<lparr>pw_rawValue = raw, pw_hashedValue = None\<rparr>))"

definition Password_fromHash :: "string \<Rightarrow> exn + Password" where
  "Password_fromHash hash =
     (if hash = [] then Inl (JsError ''Password hash must be a non-empty string'')
      else Inr \<lparr>pw_rawValue = [], pw_hashedValue = Some hash\<rparr>)"

definition Password_getRawValue :: "Password \<Rightarrow> string" where
  "Password_getRawValue p = pw_rawValue p"

definition Password_isHashed :: "Password \<Rightarrow> bool" where
  "Password_isHashed p \<longleftrightarrow> pw_hashedValue p \<noteq> None"

definition Password_setHash :: "string \<Rightarrow> Password \<Rightarrow> exn + Password" where
  "Password_setHash hash p =
     (if hash = [] then Inl (JsError ''Hash must be a non-empty string'')
      else Inr (p\<lparr>pw_hashedValue := Some hash\<rparr>))"

definition Password_equals :: "Password \<Rightarrow> Password \<Rightarrow> bool" where
  "Password_equals p other = False"

definition Password_toString :: "Password \<Rightarrow> string" where
  "Password_toString p = ''[PROTECTED]''"

section \<open>Characters of matched strings\<close>

primrec rx_within :: "(char \<Rightarrow> bool) \<Rightarrow> rx \<Rightarrow> bool" where
  "rx_within P RxZero \<longleftrightarrow> True"
| "rx_within P RxOne \<longleftrightarrow> True"
| "rx_within P (Cls Q) \<longleftrightarrow> (\<forall>c. Q c \<longrightarrow> P c)"
| "rx_within P (Seq r s) \<longleftrightarrow> rx_within P r \<and> rx_within P s"
| "rx_within P (Alt r s) \<longleftrightarrow> rx_within P r \<and> rx_within P s"
| "rx_within P (Star r) \<longleftrightarrow> rx_within P r"
| "rx_within P (Rep lo hi r) \<longleftrightarrow> rx_within P r"

lemma lang_within: "rx_within P r \<Longrightarrow> s \<in> lang r \<Longrightarrow> list_all P s"
proof (induction r arbitrary: s)
  case (Seq q r)
  then show ?case by (auto elim!: SeqE simp del: lang.simps)
next
  case (Star r)
  then show ?case by (fastforce elim!: StarE simp: list_all_iff simp del: lang.simps)
next
  case (Rep lo hi r)
  then show ?case by (fastforce elim!: RepE simp: list_all_iff simp del: lang.simps)
qed auto

definition not_white :: "char \<Rightarrow> bool" where
  "not_white c \<longleftrightarrow> \<not> js_white c"

lemma str_trim_no_white: "list_all not_white s \<Longrightarrow> str_trim s = s"
proof -
  assume h: "list_all not_white s"
  have "dropWhile js_white t = t" if "list_all not_white t" for t
    using that by (cases t) (auto simp: not_white_def)
  with h show ?thesis by (simp add: str_trim_def)
qed

lemma ascii_not_white: "33 \<le> (of_char c :: nat) \<Longrightarrow> (of_char c :: nat) \<le> 126 \<Longrightarrow> not_white c"
  by (auto simp: not_white_def js_white_def Let_def)

lemma alnum_not_white: "alnum c \<Longrightarrow> not_white c"
  by (auto simp: alnum_def char_class_defs intro!: ascii_not_white)

lemma atext_not_white: "atext c \<Longrightarrow> not_white c"
  by (cases "alnum c") (auto simp: atext_def alnum_not_white intro!: ascii_not_white)

lemma hex_ci_not_white: "hex_ci c \<Longrightarrow> not_white c"
  by (auto simp: hex_ci_def char_class_defs intro!: ascii_not_white)

lemma not_white_chars [simp]:
  "not_white (CHR ''-'')" "not_white (CHR ''.'')" "not_white (CHR ''@'')" "not_white (CHR ''4'')"
  by (auto intro!: ascii_not_white)

section \<open>UniqueId lemmas\<close>

lemma UUID_within: "rx_within not_white UUID_V4_REGEX"
  by (auto simp: UUID_V4_REGEX_def Chr_def hex_ci_not_white uuid_variant_def intro!: ascii_not_white)

lemma UUID_trim: "rx_test UUID_V4_REGEX s \<Longrightarrow> str_trim s = s"
  by (rule str_trim_no_white, rule lang_within [OF UUID_within]) (simp only: rx_test_iff)

lemma UUID_nonempty: "rx_test UUID_V4_REGEX s \<Longrightarrow> s \<noteq> []"
  by (auto simp: UUID_V4_REGEX_def)

lemma fromString_accepts: "rx_test UUID_V4_REGEX s \<Longrightarrow> UniqueId_fromString s = Inr (UniqueId s)"
  by (simp add: UniqueId_fromString_def UUID_trim UUID_nonempty)

lemma fromString_Inr:
  "UniqueId_fromString s = Inr u \<longleftrightarrow> s \<noteq> [] \<and> rx_test UUID_V4_REGEX (str_trim s) \<and> u = UniqueId (str_trim s)"
  by (auto simp: UniqueId_fromString_def Let_def)

lemma hex_digit_hex: "v < 16 \<Longrightarrow> hex_ci (hex_digit v)"
proof -
  assume "v < 16"
  then have "hex_digit v \<in> set ''0123456789abcdef''"
    unfolding hex_digit_def by (intro nth_mem) simp
  moreover have "list_all hex_ci ''0123456789abcdef''"
    by (simp add: hex_ci_def char_class_defs)
  ultimately show ?thesis unfolding list_all_iff by blast
qed

lemma variant_digit: "uuid_variant (hex_digit ((n AND 3) OR 8))"
proof -
  have "n AND 3 = take_bit 2 n" by (simp add: take_bit_eq_mask mask_eq_exp_minus_1)
  also have "\<dots> = n mod 4" by (simp add: take_bit_eq_mod)
  finally have "n AND 3 = n mod 4" .
  moreover have "n mod 4 = 0 \<or> n mod 4 = 1 \<or> n mod 4 = 2 \<or> n mod 4 = 3" by presburger
  ultimately show ?thesis by (auto simp: hex_digit_def uuid_variant_def)
qed

lemma fill_template_uuid:
  assumes "\<And>k. r k < 16"
  shows "rx_test UUID_V4_REGEX (fill_template ''xxxxxxxx-xxxx-4xxx-yxxx-xxxxxxxxxxxx'' r 0)"
proof -
  have hex: "hex_ci (hex_digit (r k))" for k
    using assms by (rule hex_digit_hex)
  show ?thesis
    unfolding UUID_V4_REGEX_def Chr_def by (simp add: hex variant_digit)
qed

section \<open>Email lemmas\<close>

definition is_label :: "string \<Rightarrow> bool" where
  "is_label l \<longleftrightarrow> l \<noteq> [] \<and> length l \<le> 63 \<and> alnum (hd l) \<and> alnum (last l) \<and> list_all alnum_hyphen l"

lemma alnum_hyphenI: "alnum c \<Longrightarrow> alnum_hyphen c"
  by (simp add: alnum_hyphen_def)

lemma lang_LABEL: "l \<in> lang LABEL_REGEX \<longleftrightarrow> is_label l"
proof
  assume "l \<in> lang LABEL_REGEX"
  then obtain u v where l: "l = u @ v" and u: "u \<in> lang (Cls alnum)"
    and v: "v \<in> lang (RxOpt (Seq (Rep 0 61 (Cls alnum_hyphen)) (Cls alnum)))"
    unfolding LABEL_REGEX_def by (rule SeqE)
  from u obtain c where c: "u = [c]" "alnum c" by auto
  from v show "is_label l"
    unfolding lang_Opt lang_Seq_iff lang_Rep_Cls
    using l c by (auto simp: is_label_def alnum_hyphenI)
next
  assume l: "is_label l"
  then obtain c t where ct: "l = c # t" "alnum c" by (cases l) (auto simp: is_label_def)
  show "l \<in> lang LABEL_REGEX"
  proof (cases t rule: rev_cases)
    case Nil
    with ct show ?thesis
      unfolding LABEL_REGEX_def by (intro SeqI [of _ "[c]" "[]"]) (simp_all only: lang_Opt, simp_all)
  next
    case (snoc m d)
    with l ct have "alnum d" "list_all alnum_hyphen m" "length m \<le> 61"
      by (auto simp: is_label_def)
    with snoc have "t \<in> lang (Seq (Rep 0 61 (Cls alnum_hyphen)) (Cls alnum))"
      by (intro SeqI [of _ m "[d]"]) (simp_all only: lang_Rep_Cls, simp_all)
    with ct show ?thesis
      unfolding LABEL_REGEX_def by (intro SeqI [of _ "[c]" t]) (simp_all only: lang_Opt, simp_all)
  qed
qed

lemma lang_dot_labels:
  "s \<in> lang (Star (Seq (Chr (CHR ''.'')) LABEL_REGEX)) \<longleftrightarrow>
     (\<exists>ls. s = concat (map (\<lambda>l. CHR ''.'' # l) ls) \<and> list_all is_label ls)"
proof -
  have word: "w \<in> lang (Seq (Chr (CHR ''.'')) LABEL_REGEX) \<longleftrightarrow> (\<exists>l. w = CHR ''.'' # l \<and> is_label l)" for w
    unfolding lang_Seq_iff lang_LABEL by auto
  show ?thesis
  proof
    assume "s \<in> lang (Star (Seq (Chr (CHR ''.'')) LABEL_REGEX))"
    then obtain ws where s: "s = concat ws" and ws: "set ws \<subseteq> lang (Seq (Chr (CHR ''.'')) LABEL_REGEX)"
      by (rule StarE)
    from ws have "\<exists>ls. ws = map (\<lambda>l. CHR ''.'' # l) ls \<and> list_all is_label ls"
    proof (induction ws)
      case (Cons w ws)
      then obtain ls l where "ws = map (\<lambda>l. CHR ''.'' # l) ls" "list_all is_label ls"
        "w = CHR ''.'' # l" "is_label l"
        using word by (auto simp del: lang.simps)
      then have "w # ws = map (\<lambda>l. CHR ''.'' # l) (l # ls) \<and> list_all is_label (l # ls)" by simp
      then show ?case by (rule exI)
    qed simp
    with s show "\<exists>ls. s = concat (map (\<lambda>l. CHR ''.'' # l) ls) \<and> list_all is_label ls" by blast
  next
    assume "\<exists>ls. s = concat (map (\<lambda>l. CHR ''.'' # l) ls) \<and> list_all is_label ls"
    then obtain ls where ls: "s = concat (map (\<lambda>l. CHR ''.'' # l) ls)" "list_all is_label ls" by blast
    from ls(2) have "set (map (\<lambda>l. CHR ''.'' # l) ls) \<subseteq> lang (Seq (Chr (CHR ''.'')) LABEL_REGEX)"
      using word by (auto simp: list_all_iff simp del: lang.simps)
    with ls(1) show "s \<in> lang (Star (Seq (Chr (CHR ''.'')) LABEL_REGEX))"
      by (rule StarI)
  qed
qed

lemma str_join_Cons_char: "str_join sep ((c # w) # ws) = c # str_join sep (w # ws)"
  by (cases ws) auto

lemma join_dot: "l @ concat (map (\<lambda>l. CHR ''.'' # l) ls) = str_join ''.'' (l # ls)"
  by (induction ls arbitrary: l) (auto simp: str_join_Cons_char)

definition email_shape :: "string \<Rightarrow> string \<Rightarrow> string list \<Rightarrow> bool" where
  "email_shape s localp labels \<longleftrightarrow>
     s = localp @ CHR ''@'' # str_join ''.'' labels \<and> localp \<noteq> [] \<and> list_all atext localp \<and>
     labels \<noteq> [] \<and> list_all is_label labels"

lemma email_regex_shape:
  "rx_test EMAIL_REGEX s \<longleftrightarrow> (\<exists>localp labels. email_shape s localp labels)"
proof
  assume "rx_test EMAIL_REGEX s"
  then have "s \<in> lang EMAIL_REGEX" by (simp only: rx_test_iff)
  then obtain u v where s: "s = u @ v" and u: "u \<in> lang (RxPlus (Cls atext))"
    and v: "v \<in> lang (Seq (Chr (CHR ''@'')) (Seq LABEL_REGEX (Star (Seq (Chr (CHR ''.'')) LABEL_REGEX))))"
    unfolding EMAIL_REGEX_def by (rule SeqE)
  from v obtain l t where v': "v = CHR ''@'' # l @ t" "is_label l"
    "t \<in> lang (Star (Seq (Chr (CHR ''.'')) LABEL_REGEX))"
    by (elim SeqE) (simp only: lang_Chr lang_LABEL, simp)
  from v'(3) obtain ls where "t = concat (map (\<lambda>l. CHR ''.'' # l) ls)" "list_all is_label ls"
    unfolding lang_dot_labels by (elim exE conjE)
  with s u v' have "email_shape s u (l # ls)"
    unfolding email_shape_def lang_Plus_Cls by (simp add: join_dot [symmetric])
  then show "\<exists>localp labels. email_shape s localp labels" by blast
next
  assume "\<exists>localp labels. email_shape s localp labels"
  then obtain u l ls where shape: "email_shape s u (l # ls)"
    by (metis email_shape_def neq_Nil_conv)
  let ?t = "concat (map (\<lambda>l. CHR ''.'' # l) ls)"
  from shape have "?t \<in> lang (Star (Seq (Chr (CHR ''.'')) LABEL_REGEX))"
    unfolding lang_dot_labels email_shape_def by auto
  moreover from shape have "l \<in> lang LABEL_REGEX" unfolding lang_LABEL email_shape_def by simp
  ultimately have "l @ ?t \<in> lang (Seq LABEL_REGEX (Star (Seq (Chr (CHR ''.'')) LABEL_REGEX)))"
    by (intro SeqI [OF refl])
  then have "[CHR ''@''] @ (l @ ?t) \<in>
    lang (Seq (Chr (CHR ''@'')) (Seq LABEL_REGEX (Star (Seq (Chr (CHR ''.'')) LABEL_REGEX))))"
    by (rule SeqI [OF refl, rotated]) simp
  moreover from shape have "u \<in> lang (RxPlus (Cls atext))"
    unfolding lang_Plus_Cls email_shape_def by simp
  moreover from shape have "s = u @ [CHR ''@''] @ (l @ ?t)"
    by (simp add: email_shape_def join_dot)
  ultimately have "s \<in> lang EMAIL_REGEX"
    unfolding EMAIL_REGEX_def using SeqI by blast
  then show "rx_test EMAIL_REGEX s" by (simp only: rx_test_iff)
qed

lemma char_lower_idem [simp]: "char_lower (char_lower c) = char_lower c"
proof -
  have "(of_char c :: nat) < 256" by simp
  then show ?thesis by (auto simp: char_lower_def Let_def)
qed

lemma str_lower_idem [simp]: "str_lower (str_lower s) = str_lower s"
  by (simp add: str_lower_def comp_def)

lemma EMAIL_within: "rx_within not_white EMAIL_REGEX"
  by (auto simp: EMAIL_REGEX_def LABEL_REGEX_def Chr_def atext_not_white alnum_not_white
      alnum_hyphen_def)

lemma EMAIL_trim: "rx_test EMAIL_REGEX s \<Longrightarrow> str_trim s = s"
  by (rule str_trim_no_white, rule lang_within [OF EMAIL_within]) (simp only: rx_test_iff)

lemma EMAIL_nonempty: "rx_test EMAIL_REGEX s \<Longrightarrow> s \<noteq> []"
  by (auto simp: EMAIL_REGEX_def)

lemma Email_create_Inr:
  "Email_create raw = Inr e \<longleftrightarrow>
     raw \<noteq> [] \<and> e = Email (str_lower (str_trim raw)) \<and> length (email_value e) \<le> 320 \<and>
     rx_test EMAIL_REGEX (email_value e)"
  by (auto simp: Email_create_def Let_def Email_MAX_LENGTH_def)

lemma Email_create_stored:
  assumes "Email_create raw = Inr e"
  shows "Email_fromPersistence (email_value e) = e"
proof -
  from assms have "e = Email (str_lower (str_trim raw))" and "rx_test EMAIL_REGEX (email_value e)"
    by (auto simp: Email_create_Inr)
  then show ?thesis using EMAIL_trim [of "email_value e"] by (simp add: Email_fromPersistence_def)
qed

lemma no_at_in_label: "is_label l \<Longrightarrow> CHR ''@'' \<notin> set l"
proof -
  have "\<not> alnum_hyphen (CHR ''@'')"
    by (simp add: alnum_hyphen_def alnum_def char_class_defs)
  then show "is_label l \<Longrightarrow> CHR ''@'' \<notin> set l"
    by (auto simp: is_label_def list_all_iff)
qed

lemma no_at_in_labels: "list_all is_label labels \<Longrightarrow> CHR ''@'' \<notin> set (str_join ''.'' labels)"
  by (induction labels rule: induct_list012) (simp_all add: no_at_in_label)

lemma email_shape_split:
  assumes "email_shape s localp labels"
  shows "str_split (CHR ''@'') s = [localp, str_join ''.'' labels]"
proof -
  have "CHR ''@'' \<notin> set localp"
    using assms by (auto simp: email_shape_def list_all_iff atext_def alnum_def char_class_defs)
  with assms show ?thesis
    by (simp add: email_shape_def str_split_append str_split_no_sep no_at_in_labels)
qed

text \<open>
  \<open>Email.create\<close> accepts exactly the strings that, trimmed and lower-cased, have at most 320
  code units and the form \<open>local@label.label\<dots>\<close> with a non-empty local part of the listed
  characters and labels of 1 to 63 letters, digits and inner hyphens; the value it returns is that
  normal form.
\<close>
theorem Email_create_accepts_iff:
  "Email_create raw = Inr e \<longleftrightarrow>
     raw \<noteq> [] \<and> email_value e = str_lower (str_trim raw) \<and> length (email_value e) \<le> 320 \<and>
     (\<exists>localp labels. email_shape (email_value e) localp labels)"
  unfolding Email_create_Inr email_regex_shape by (cases e) auto

text \<open>
  An accepted email is a fixed point: creating it again from its value, or loading that value
  from the database, gives the same email, and its local part and domain rejoin to the value.
\<close>
theorem Email_create_roundtrip:
  assumes "Email_create raw = Inr e"
  shows "Email_create (email_value e) = Inr e \<and> Email_fromPersistence (email_value e) = e \<and>
    (\<exists>d. Email_domain e = Some d \<and> email_value e = Email_localPart e @ ''@'' @ d)"
proof -
  from assms have v: "email_value e = str_lower (str_trim raw)" "length (email_value e) \<le> 320"
    and rx: "rx_test EMAIL_REGEX (email_value e)"
    by (auto simp: Email_create_Inr)
  have norm: "str_lower (str_trim (email_value e)) = email_value e"
    unfolding EMAIL_trim [OF rx] by (simp add: v)
  from rx obtain localp labels where shape: "email_shape (email_value e) localp labels"
    unfolding email_regex_shape by blast
  have "Email_domain e = Some (str_join ''.'' labels)" "Email_localPart e = localp"
    by (simp_all add: Email_domain_def Email_localPart_def email_shape_split [OF shape])
  moreover have "Email_create (email_value e) = Inr e"
    unfolding Email_create_Inr norm using v(2) rx EMAIL_nonempty [OF rx] by simp
  moreover have "Email_fromPersistence (email_value e) = e"
    by (simp add: Email_fromPersistence_def norm)
  moreover have "email_value e = localp @ ''@'' @ str_join ''.'' labels"
    using shape by (simp add: email_shape_def)
  ultimately show ?thesis by simp
qed

theorem Email_create_roundtrip_witness:
  "\<exists>e. Email_create '' Ann@x-1.io '' = Inr e \<and> Email_create (email_value e) = Inr e"
proof -
  have "Email_create '' Ann@x-1.io '' = Inr (Email ''ann@x-1.io'')" by code_simp
  then show ?thesis using Email_create_roundtrip by blast
qed

text \<open>
  Every identifier the fallback generator produces (whatever the random draws) is a version 4
  UUID that \<open>UniqueId.fromString\<close> reads back as the same identifier.
\<close>
theorem UniqueId_create_roundtrip:
  assumes "\<And>k. r k < 16" and "rnd = None \<or> rnd = Some (Inl ex)"
  shows "UniqueId_fromString (UniqueId_toString (UniqueId_create rnd r)) = Inr (UniqueId_create rnd r)"
proof -
  have "UniqueId_generateUuidV4 rnd r = fill_template ''xxxxxxxx-xxxx-4xxx-yxxx-xxxxxxxxxxxx'' r 0"
    using assms(2) by (auto simp: UniqueId_generateUuidV4_def)
  with fill_template_uuid [of r, OF assms(1)] show ?thesis
    by (simp add: UniqueId_create_def UniqueId_toString_def fromString_accepts)
qed

theorem UniqueId_create_roundtrip_witness:
  "UniqueId_fromString (UniqueId_toString (UniqueId_create None (\<lambda>k. k mod 16)))
     = Inr (UniqueId_create None (\<lambda>k. k mod 16))"
  by (rule UniqueId_create_roundtrip) simp_all

text \<open>
  \<open>Password.create\<close> accepts exactly the strings of 8 to 128 code units with an upper-case
  letter, a lower-case letter, a digit and a special character; it keeps the raw value and sets
  no hash.
\<close>
theorem Password_create_accepts_iff:
  "Password_create raw = Inr p \<longleftrightarrow>
     p = \<lparr>pw_rawValue = raw, pw_hashedValue = None\<rparr> \<and> 8 \<le> length raw \<and> length raw \<le> 128 \<and>
     list_ex is_upper raw \<and> list_ex is_lower raw \<and> list_ex is_digit raw \<and> list_ex special_char raw"
  by (auto simp: Password_create_def Password_validateStrength_def strength_errors_def
      Password_MIN_LENGTH_def Password_MAX_LENGTH_def bindE_eq_Inr split: if_splits)

lemma Password_fromHash_Inr:
  "Password_fromHash h = Inr p \<longleftrightarrow> h \<noteq> [] \<and> p = \<lparr>pw_rawValue = [], pw_hashedValue = Some h\<rparr>"
  by (auto simp: Password_fromHash_def)

end
