(* ===== verification/Events.thy ===== *)
theory Events
  imports ValueObjects
begin

text \<open>
  Domain events: \<open>src/domain/domain-events\<close> and the application event
  \<open>src/application/events/user-authenticated.event.ts\<close>. The fields of the abstract base class
  are the record \<open>event_base\<close>; each subclass is a constructor with its payload. The identifier
  \<open>UniqueId.create().toString()\<close> the base constructor draws is an argument.
\<close>

datatype UserStatus = ACTIVE | INACTIVE | SUSPENDED | PENDING_VERIFICATION

fun status_string :: "UserStatus \<Rightarrow> string" where
  "status_string ACTIVE = ''ACTIVE''"
| "status_string INACTIVE = ''INACTIVE''"
| "status_string SUSPENDED = ''SUSPENDED''"
| "status_string PENDING_VERIFICATION = ''PENDING_VERIFICATION''"

definition status_of_string :: "string \<Rightarrow> UserStatus option" where
  "status_of_string s =
     (if s = ''ACTIVE'' then Some ACTIVE
      else if s = ''INACTIVE'' then Some INACTIVE
      else if s = ''SUSPENDED'' then Some SUSPENDED
      else if s = ''PENDING_VERIFICATION'' then Some PENDING_VERIFICATION else None)"

lemma status_of_string_inv [simp]: "status_of_string (status_string st) = Some st"
  by (cases st) (simp_all add: status_of_string_def)

record event_base =
  ev_eventId :: string
  ev_occurredAt :: int
  ev_aggregateId :: string
  ev_eventName :: string

datatype DomainEvent =
    UserCreatedEvent event_base string
  | UserStatusChangedEvent event_base UserStatus UserStatus
  | UserAuthenticatedEvent event_base string "string option" "string option"

fun event_base_of :: "DomainEvent \<Rightarrow> event_base" where
  "event_base_of (UserCreatedEvent b e) = b"
| "event_base_of (UserStatusChangedEvent b old new) = b"
| "event_base_of (UserAuthenticatedEvent b s ip ua) = b"

text \<open>The base constructor; \<open>className\<close> is \<open>this.constructor.name\<close>.\<close>

definition new_DomainEvent ::
  "string \<Rightarrow> string \<Rightarrow> string \<Rightarrow> int \<Rightarrow> string option \<Rightarrow> event_base" where
  "new_DomainEvent eid className aggregateId occurredAt eventName =
     \<lparr>ev_eventId = eid, ev_occurredAt = occurredAt, ev_aggregateId = aggregateId,
      ev_eventName = (case eventName of Some n \<Rightarrow> n | None \<Rightarrow> className)\<rparr>"

definition DomainEvent_toPrimitives :: "event_base \<Rightarrow> (string \<times> json) list" where
  "DomainEvent_toPrimitives b =
     [(''eventId'', JStr (ev_eventId b)), (''aggregateId'', JStr (ev_aggregateId b)),
      (''occurredAt'', JDate (ev_occurredAt b)), (''eventName'', JStr (ev_eventName b))]"

definition new_UserCreatedEvent :: "string \<Rightarrow> string \<Rightarrow> string \<Rightarrow> int \<Rightarrow> DomainEvent" where
  "new_UserCreatedEvent eid aggregateId email occurredAt =
     UserCreatedEvent
       (new_DomainEvent eid ''UserCreatedEvent'' aggregateId occurredAt (Some ''UserCreated'')) email"

definition new_UserStatusChangedEvent ::
  "string \<Rightarrow> string \<Rightarrow> UserStatus \<Rightarrow> UserStatus \<Rightarrow> int \<Rightarrow> DomainEvent" where
  "new_UserStatusChangedEvent eid aggregateId oldStatus newStatus occurredAt =
     UserStatusChangedEvent
       (new_DomainEvent eid ''UserStatusChangedEvent'' aggregateId occurredAt
          (Some ''UserStatusChanged'')) oldStatus newStatus"

definition new_UserAuthenticatedEvent ::
  "string \<Rightarrow> string \<Rightarrow> string \<Rightarrow> string option \<Rightarrow> string option \<Rightarrow> int \<Rightarrow> DomainEvent" where
  "new_UserAuthenticatedEvent eid aggregateId sessionId ipAddress userAgent now =
     UserAuthenticatedEvent
       (new_DomainEvent eid ''UserAuthenticatedEvent'' aggregateId now
          (Some ''user.authenticated'')) sessionId ipAddress userAgent"

fun undef_str :: "string option \<Rightarrow> json" where
  "undef_str None = JUndef"
| "undef_str (Some s) = JStr s"

fun event_toPrimitives :: "DomainEvent \<Rightarrow> (string \<times> json) list" where
  "event_toPrimitives (UserCreatedEvent b email) =
     DomainEvent_toPrimitives b @ [(''email'', JStr email)]"
| "event_toPrimitives (UserStatusChangedEvent b old new) =
     DomainEvent_toPrimitives b @
       [(''oldStatus'', JStr (status_string old)), (''newStatus'', JStr (status_string new))]"
| "event_toPrimitives (UserAuthenticatedEvent b sid ip ua) =
     DomainEvent_toPrimitives b @
       [(''sessionId'', JStr sid), (''ipAddress'', undef_str ip), (''userAgent'', undef_str ua)]"

text \<open>
  \<open>fromPrimitives\<close> reads the fields with unchecked casts; \<open>None\<close> stands for data outside the
  types the casts claim. It runs the constructor, which draws a new identifier \<open>eid\<close>.
\<close>

definition UserCreatedEvent_fromPrimitives ::
  "string \<Rightarrow> (string \<times> json) list \<Rightarrow> DomainEvent option" where
  "UserCreatedEvent_fromPrimitives eid data =
     (case (json_get ''aggregateId'' data, json_get ''email'' data, json_get ''occurredAt'' data) of
        (JStr a, JStr e, JDate t) \<Rightarrow> Some (new_UserCreatedEvent eid a e t)
      | _ \<Rightarrow> None)"

definition UserStatusChangedEvent_fromPrimitives ::
  "string \<Rightarrow> (string \<times> json) list \<Rightarrow> DomainEvent option" where
  "UserStatusChangedEvent_fromPrimitives eid data =
     (case (json_get ''aggregateId'' data, json_get ''oldStatus'' data,
            json_get ''newStatus'' data, json_get ''occurredAt'' data) of
        (JStr a, JStr old, JStr new, JDate t) \<Rightarrow>
          (case (status_of_string old, status_of_string new) of
             (Some o', Some n') \<Rightarrow> Some (new_UserStatusChangedEvent eid a o' n' t)
           | _ \<Rightarrow> None)
      | _ \<Rightarrow> None)"

lemmas event_defs =
  new_DomainEvent_def new_UserCreatedEvent_def new_UserStatusChangedEvent_def
  new_UserAuthenticatedEvent_def DomainEvent_toPrimitives_def json_get_def

text \<open>
  Serialising an event and rebuilding it keeps its aggregate, its time and its payload, but
  the rebuilt event carries the newly drawn identifier instead of the original one.
\<close>
theorem event_roundtrip_new_id:
  "UserCreatedEvent_fromPrimitives eid' (event_toPrimitives (new_UserCreatedEvent eid a em t)) =
     Some (new_UserCreatedEvent eid' a em t) \<and>
   UserStatusChangedEvent_fromPrimitives eid'
     (event_toPrimitives (new_UserStatusChangedEvent eid a old new t)) =
     Some (new_UserStatusChangedEvent eid' a old new t) \<and>
   ev_eventId (event_base_of (new_UserStatusChangedEvent eid' a old new t)) = eid'"
  by (simp add: event_defs UserCreatedEvent_fromPrimitives_def UserStatusChangedEvent_fromPrimitives_def)

end
