(* ===== verification/UserEntity.thy ===== *)
theory UserEntity
  imports Events
begin

text \<open>
  The entity base class and the \<open>User\<close> entity: \<open>src/domain/entities/base.entity.ts\<close> and
  \<open>src/domain/entities/user.entity.ts\<close>. The class is the record \<open>User\<close> (its base class the record
  it extends); a mutating method maps the object to the exception it throws or to the object after
  the call (every method checks before it writes, so a throw leaves the object as it was).
  \<open>clk k\<close> is the \<open>k\<close>-th \<open>new Date()\<close> of the call, in the order of the source; \<open>eid\<close> the
  identifier drawn for an event. The lifecycle (status and verified flag) refines an abstract
  state machine; versions, events and well-formed names are invariants of every run.
\<close>

section \<open>The base class\<close>

record Entity =
  e_id :: UniqueId
  e_createdAt :: int
  e_updatedAt :: int

definition Entity_equals :: "('a Entity_scheme) option \<Rightarrow> 'a Entity_scheme \<Rightarrow> bool" where
  "Entity_equals other this =
     (case other of None \<Rightarrow> False | Some o' \<Rightarrow> UniqueId_equals (e_id this) (e_id o'))"

definition markModified :: "int \<Rightarrow> 'a Entity_scheme \<Rightarrow> 'a Entity_scheme" where
  "markModified now u = u\<lparr>e_updatedAt := now\<rparr>"

definition Entity_toPrimitives :: "'a Entity_scheme \<Rightarrow> (string \<times> json) list" where
  "Entity_toPrimitives u =
     [(''id'', JStr (UniqueId_toString (e_id u))), (''createdAt'', JDate (e_createdAt u)),
      (''updatedAt'', JDate (e_updatedAt u))]"

section \<open>The user\<close>

record User = Entity +
  u_email :: Email
  u_password :: Password
  u_firstName :: string
  u_lastName :: string
  u_status :: UserStatus
  u_emailVerified :: bool
  u_lastLoginAt :: "int option"
  u_version :: int
  u_domainEvents :: "DomainEvent list"

definition validateName :: "string \<Rightarrow> string \<Rightarrow> exn + unit" where
  "validateName name label =
     (if name = [] \<or> length (str_trim name) = 0
      then Inl (JsError (label @ '' must be a non-empty string.''))
      else if 100 < length (str_trim name)
      then Inl (JsError (label @ '' must not exceed 100 characters.''))
      else Inr ())"

definition addDomainEvent :: "DomainEvent \<Rightarrow> User \<Rightarrow> User" where
  "addDomainEvent event u = u\<lparr>u_domainEvents := u_domainEvents u @ [event]\<rparr>"

definition incrementVersion :: "User \<Rightarrow> User" where
  "incrementVersion u = u\<lparr>u_version := u_version u + 1\<rparr>"

text \<open>The private constructor: \<open>createdAt ?? new Date()\<close>, \<open>updatedAt ?? createdAt\<close>.\<close>

definition new_User ::
  "UniqueId \<Rightarrow> Email \<Rightarrow> Password \<Rightarrow> string \<Rightarrow> string \<Rightarrow> UserStatus \<Rightarrow> bool \<Rightarrow> int option \<Rightarrow> int \<Rightarrow>
   int option \<Rightarrow> int option \<Rightarrow> int \<Rightarrow> User" where
  "new_User i em pw fn ln st ver ll vn created updated now =
     (let c = (case created of Some t \<Rightarrow> t | None \<Rightarrow> now)
      in \<lparr>e_id = i, e_createdAt = c, e_updatedAt = (case updated of Some t \<Rightarrow> t | None \<Rightarrow> c),
          u_email = em, u_password = pw, u_firstName = fn, u_lastName = ln, u_status = st,
          u_emailVerified = ver, u_lastLoginAt = ll, u_version = vn, u_domainEvents = []\<rparr>)"

text \<open>\<open>User.create\<close>: \<open>newId\<close> is \<open>UniqueId.create()\<close>.\<close>

definition User_create ::
  "UniqueId \<Rightarrow> string \<Rightarrow> (nat \<Rightarrow> int) \<Rightarrow> Email \<Rightarrow> Password \<Rightarrow> string \<Rightarrow> string \<Rightarrow> exn + User" where
  "User_create newId eid clk email password firstName lastName =
     bindE (validateName firstName ''First name'') (\<lambda>_.
     bindE (validateName lastName ''Last name'') (\<lambda>_.
       (let user = new_User newId email password (str_trim firstName) (str_trim lastName)
                     PENDING_VERIFICATION False None 1 None None (clk 0)
        in Inr (addDomainEvent
             (new_UserCreatedEvent eid (UniqueId_toString newId) (email_value email) (clk 1)) user))))"

definition User_reconstitute ::
  "UniqueId \<Rightarrow> Email \<Rightarrow> Password \<Rightarrow> string \<Rightarrow> string \<Rightarrow> UserStatus \<Rightarrow> bool \<Rightarrow> int option \<Rightarrow> int \<Rightarrow>
   int \<Rightarrow> int \<Rightarrow> User" where
  "User_reconstitute i em pw fn ln st ver ll vn created updated =
     new_User i em pw fn ln st ver ll vn (Some created) (Some updated) 0"

section \<open>Business methods\<close>

definition User_activate :: "(nat \<Rightarrow> int) \<Rightarrow> string \<Rightarrow> User \<Rightarrow> exn + User" where
  "User_activate clk eid u =
     (if u_status u = SUSPENDED
      then Inl (JsError ''Cannot activate a suspended user. Use reactivation instead.'')
      else if u_status u = ACTIVE then Inr u
      else let previousStatus = u_status u;
               u1 = markModified (clk 0) (incrementVersion (u\<lparr>u_status := ACTIVE\<rparr>))
           in Inr (addDomainEvent (new_UserStatusChangedEvent eid (UniqueId_toString (e_id u1))
                     previousStatus ACTIVE (clk 1)) u1))"

definition User_suspend :: "(nat \<Rightarrow> int) \<Rightarrow> string \<Rightarrow> User \<Rightarrow> exn + User" where
  "User_suspend clk eid u =
     (if u_status u = SUSPENDED then Inl (JsError ''User is already suspended.'')
      else let previousStatus = u_status u;
               u1 = markModified (clk 0) (incrementVersion (u\<lparr>u_status := SUSPENDED\<rparr>))
           in Inr (addDomainEvent (new_UserStatusChangedEvent eid (UniqueId_toString (e_id u1))
                     previousStatus SUSPENDED (clk 1)) u1))"

definition User_deactivate :: "(nat \<Rightarrow> int) \<Rightarrow> string \<Rightarrow> User \<Rightarrow> exn + User" where
  "User_deactivate clk eid u =
     (if u_status u = INACTIVE then Inr u
      else let previousStatus = u_status u;
               u1 = markModified (clk 0) (incrementVersion (u\<lparr>u_status := INACTIVE\<rparr>))
           in Inr (addDomainEvent (new_UserStatusChangedEvent eid (UniqueId_toString (e_id u1))
                     previousStatus INACTIVE (clk 1)) u1))"

definition User_verifyEmail :: "(nat \<Rightarrow> int) \<Rightarrow> string \<Rightarrow> User \<Rightarrow> exn + User" where
  "User_verifyEmail clk eid u =
     (if u_emailVerified u then Inl (JsError ''Email is already verified.'')
      else let u1 = incrementVersion (u\<lparr>u_emailVerified := True\<rparr>)
           in if u_status u1 = PENDING_VERIFICATION
              then let previousStatus = u_status u1;
                       u2 = u1\<lparr>u_status := ACTIVE\<rparr>;
                       u3 = addDomainEvent (new_UserStatusChangedEvent eid
                              (UniqueId_toString (e_id u2)) previousStatus ACTIVE (clk 0)) u2
                   in Inr (markModified (clk 1) u3)
              else Inr (markModified (clk 0) u1))"

definition User_recordLogin :: "(nat \<Rightarrow> int) \<Rightarrow> User \<Rightarrow> exn + User" where
  "User_recordLogin clk u =
     (if u_status u \<noteq> ACTIVE
      then Inl (JsError (''Cannot record login for user with status \"'' @
             status_string (u_status u) @ ''\". Only ACTIVE users can log in.''))
      else Inr (markModified (clk 1) (incrementVersion (u\<lparr>u_lastLoginAt := Some (clk 0)\<rparr>))))"

definition User_changeEmail :: "(nat \<Rightarrow> int) \<Rightarrow> Email \<Rightarrow> User \<Rightarrow> User" where
  "User_changeEmail clk newEmail u =
     (if Email_equals (u_email u) newEmail then u
      else markModified (clk 0) (incrementVersion
             (u\<lparr>u_email := newEmail, u_emailVerified := False, u_status := PENDING_VERIFICATION\<rparr>)))"

definition User_changePassword :: "(nat \<Rightarrow> int) \<Rightarrow> Password \<Rightarrow> User \<Rightarrow> User" where
  "User_changePassword clk newPassword u =
     markModified (clk 0) (incrementVersion (u\<lparr>u_password := newPassword\<rparr>))"

definition User_updateProfile :: "(nat \<Rightarrow> int) \<Rightarrow> string \<Rightarrow> string \<Rightarrow> User \<Rightarrow> exn + User" where
  "User_updateProfile clk firstName lastName u =
     bindE (validateName firstName ''First name'') (\<lambda>_.
     bindE (validateName lastName ''Last name'') (\<lambda>_.
       Inr (markModified (clk 0) (incrementVersion
         (u\<lparr>u_firstName := str_trim firstName, u_lastName := str_trim lastName\<rparr>)))))"

section \<open>Queries, events, serialisation\<close>

definition User_fullName :: "User \<Rightarrow> string" where
  "User_fullName u = u_firstName u @ '' '' @ u_lastName u"

definition User_isActive :: "User \<Rightarrow> bool" where
  "User_isActive u \<longleftrightarrow> u_status u = ACTIVE"

definition User_isSuspended :: "User \<Rightarrow> bool" where
  "User_isSuspended u \<longleftrightarrow> u_status u = SUSPENDED"

definition User_canLogin :: "User \<Rightarrow> bool" where
  "User_canLogin u \<longleftrightarrow> User_isActive u \<and> u_emailVerified u"

definition User_getExpectedVersion :: "User \<Rightarrow> int" where
  "User_getExpectedVersion u = u_version u - 1"

definition User_pullDomainEvents :: "User \<Rightarrow> DomainEvent list \<times> User" where
  "User_pullDomainEvents u = (u_domainEvents u, u\<lparr>u_domainEvents := []\<rparr>)"

definition User_hasDomainEvents :: "User \<Rightarrow> bool" where
  "User_hasDomainEvents u \<longleftrightarrow> length (u_domainEvents u) > 0"

definition User_toPrimitives :: "User \<Rightarrow> (string \<times> json) list" where
  "User_toPrimitives u =
     Entity_toPrimitives u @
     [(''email'', JStr (email_value (u_email u))), (''firstName'', JStr (u_firstName u)),
      (''lastName'', JStr (u_lastName u)), (''status'', JStr (status_string (u_status u))),
      (''emailVerified'', JBool (u_emailVerified u)),
      (''lastLoginAt'', json_opt_date (u_lastLoginAt u)), (''version'', JNum (u_version u))]"

section \<open>Calls as data\<close>

datatype UserOp =
    OpActivate
  | OpSuspend
  | OpDeactivate
  | OpVerifyEmail
  | OpRecordLogin
  | OpChangeEmail Email
  | OpChangePassword Password
  | OpUpdateProfile string string

fun user_exec :: "UserOp \<Rightarrow> (nat \<Rightarrow> int) \<Rightarrow> string \<Rightarrow> User \<Rightarrow> exn + User" where
  "user_exec OpActivate clk eid u = User_activate clk eid u"
| "user_exec OpSuspend clk eid u = User_suspend clk eid u"
| "user_exec OpDeactivate clk eid u = User_deactivate clk eid u"
| "user_exec OpVerifyEmail clk eid u = User_verifyEmail clk eid u"
| "user_exec OpRecordLogin clk eid u = User_recordLogin clk u"
| "user_exec (OpChangeEmail e) clk eid u = Inr (User_changeEmail clk e u)"
| "user_exec (OpChangePassword p) clk eid u = Inr (User_changePassword clk p u)"
| "user_exec (OpUpdateProfile fn ln) clk eid u = User_updateProfile clk fn ln u"

fun user_run :: "(UserOp \<times> (nat \<Rightarrow> int) \<times> string) list \<Rightarrow> User \<Rightarrow> exn + User" where
  "user_run [] u = Inr u"
| "user_run ((op, clk, eid) # ops) u = bindE (user_exec op clk eid u) (user_run ops)"

text \<open>The calls that change the object (the others return at a guard).\<close>

fun effective :: "UserOp \<Rightarrow> User \<Rightarrow> bool" where
  "effective OpActivate u = (u_status u \<noteq> ACTIVE)"
| "effective OpDeactivate u = (u_status u \<noteq> INACTIVE)"
| "effective (OpChangeEmail e) u = (\<not> Email_equals (u_email u) e)"
| "effective _ u = True"

fun effective_count :: "(UserOp \<times> (nat \<Rightarrow> int) \<times> string) list \<Rightarrow> User \<Rightarrow> nat" where
  "effective_count [] u = 0"
| "effective_count ((op, clk, eid) # ops) u =
     (case user_exec op clk eid u of
        Inl e \<Rightarrow> 0
      | Inr u' \<Rightarrow> (if effective op u then 1 else 0) + effective_count ops u')"

inductive user_reachable :: "User \<Rightarrow> bool" where
  created: "User_create newId eid clk em pw fn ln = Inr u \<Longrightarrow> user_reachable u"
| called: "user_reachable u \<Longrightarrow> user_exec op clk eid u = Inr u' \<Longrightarrow> user_reachable u'"
| pulled: "user_reachable u \<Longrightarrow> user_reachable (snd (User_pullDomainEvents u))"

lemmas user_op_defs =
  User_activate_def User_suspend_def User_deactivate_def User_verifyEmail_def User_recordLogin_def
  User_changeEmail_def User_changePassword_def User_updateProfile_def
  addDomainEvent_def incrementVersion_def markModified_def

section \<open>The lifecycle as an abstract state machine\<close>

text \<open>
  The specification: which actions are allowed in which status, and where they lead. A state is
  the status and whether the email is verified; \<open>None\<close> is a refused action.
\<close>

type_synonym lifecycle = "UserStatus \<times> bool"

datatype lc_action = AActivate | ASuspend | ADeactivate | AVerify | ALogin | ANewEmail | ANothing

fun lc_next :: "lc_action \<Rightarrow> lifecycle \<Rightarrow> lifecycle option" where
  "lc_next AActivate (SUSPENDED, v) = None"
| "lc_next AActivate (st, v) = Some (ACTIVE, v)"
| "lc_next ASuspend (SUSPENDED, v) = None"
| "lc_next ASuspend (st, v) = Some (SUSPENDED, v)"
| "lc_next ADeactivate (st, v) = Some (INACTIVE, v)"
| "lc_next AVerify (st, True) = None"
| "lc_next AVerify (PENDING_VERIFICATION, False) = Some (ACTIVE, True)"
| "lc_next AVerify (st, False) = Some (st, True)"
| "lc_next ALogin (ACTIVE, v) = Some (ACTIVE, v)"
| "lc_next ALogin (st, v) = None"
| "lc_next ANewEmail (st, v) = Some (PENDING_VERIFICATION, False)"
| "lc_next ANothing s = Some s"

definition lifecycle_of :: "User \<Rightarrow> lifecycle" where
  "lifecycle_of u = (u_status u, u_emailVerified u)"

fun lc_action_of :: "UserOp \<Rightarrow> User \<Rightarrow> lc_action" where
  "lc_action_of OpActivate u = AActivate"
| "lc_action_of OpSuspend u = ASuspend"
| "lc_action_of OpDeactivate u = ADeactivate"
| "lc_action_of OpVerifyEmail u = AVerify"
| "lc_action_of OpRecordLogin u = ALogin"
| "lc_action_of (OpChangeEmail e) u = (if Email_equals (u_email u) e then ANothing else ANewEmail)"
| "lc_action_of (OpChangePassword p) u = ANothing"
| "lc_action_of (OpUpdateProfile fn ln) u = ANothing"

fun bad_names :: "UserOp \<Rightarrow> bool" where
  "bad_names (OpUpdateProfile fn ln) =
     (\<not> is_ok (validateName fn ''First name'') \<or> \<not> is_ok (validateName ln ''Last name''))"
| "bad_names _ = False"

lemma validateName_Inr: "validateName n l = Inr x \<longleftrightarrow> str_trim n \<noteq> [] \<and> length (str_trim n) \<le> 100"
  by (auto simp: validateName_def str_trim_def)

lemma validateName_Inl: "validateName n l = Inl e \<Longrightarrow> \<exists>m. e = JsError m"
  by (auto simp: validateName_def split: if_splits)

lemma updateProfile_Inr:
  "User_updateProfile clk fn ln u = Inr u' \<Longrightarrow>
     validateName fn ''First name'' = Inr () \<and> validateName ln ''Last name'' = Inr () \<and>
     u' = markModified (clk 0) (incrementVersion
            (u\<lparr>u_firstName := str_trim fn, u_lastName := str_trim ln\<rparr>))"
  by (auto simp: User_updateProfile_def bindE_eq_Inr)

lemma updateProfile_Inl:
  "User_updateProfile clk fn ln u = Inl e \<Longrightarrow> bad_names (OpUpdateProfile fn ln) \<and> (\<exists>m. e = JsError m)"
  by (auto simp: User_updateProfile_def bindE_eq_Inl bindE_eq_Inr dest: validateName_Inl)

section \<open>One call\<close>

text \<open>What one successful call does to the fields every call shares.\<close>

lemma user_exec_frame:
  assumes "user_exec op clk eid u = Inr u'"
  shows "e_id u' = e_id u" and "e_createdAt u' = e_createdAt u"
    and "u_version u' = u_version u + (if effective op u then 1 else 0)"
    and "\<not> effective op u \<longrightarrow> u' = u"
    and "effective op u \<longrightarrow> e_updatedAt u' \<in> {clk 0, clk 1}"
    and "\<exists>es. u_domainEvents u' = u_domainEvents u @ es \<and> length es \<le> 1"
  using assms
  by (cases op;
      auto simp: user_op_defs bindE_eq_Inr Let_def split: if_splits dest!: updateProfile_Inr)+

lemma user_exec_names:
  assumes "user_exec op clk eid u = Inr u'"
  shows "(u_firstName u' = u_firstName u \<and> u_lastName u' = u_lastName u) \<or>
    (\<exists>fn ln. op = OpUpdateProfile fn ln \<and> u_firstName u' = str_trim fn \<and> u_lastName u' = str_trim ln \<and>
       validateName fn ''First name'' = Inr () \<and> validateName ln ''Last name'' = Inr ())"
  using assms
  by (cases op) (auto simp: user_op_defs bindE_eq_Inr Let_def split: if_splits)

lemma user_exec_lifecycle:
  "case user_exec op clk eid u of
     Inr u' \<Rightarrow> lc_next (lc_action_of op u) (lifecycle_of u) = Some (lifecycle_of u')
   | Inl e \<Rightarrow> (\<exists>m. e = JsError m) \<and> (lc_next (lc_action_of op u) (lifecycle_of u) = None \<or> bad_names op)"
proof (cases op)
  case (OpUpdateProfile fn ln)
  then show ?thesis
    by (cases "User_updateProfile clk fn ln u")
      (auto simp: lifecycle_of_def markModified_def incrementVersion_def
        dest!: updateProfile_Inr updateProfile_Inl)
qed (cases "u_status u"; cases "u_emailVerified u"; simp add: lifecycle_of_def user_op_defs Let_def)+

section \<open>Runs of calls\<close>

lemma user_run_frame:
  "user_run ops u = Inr u' \<Longrightarrow>
     e_id u' = e_id u \<and> e_createdAt u' = e_createdAt u \<and>
     u_version u' = u_version u + int (effective_count ops u)"
proof (induction ops u rule: user_run.induct)
  case (2 op clk eid ops u)
  then obtain u1 where u1: "user_exec op clk eid u = Inr u1" and "user_run ops u1 = Inr u'"
    by (auto simp: bindE_eq_Inr)
  with 2 have "e_id u' = e_id u1 \<and> e_createdAt u' = e_createdAt u1 \<and>
     u_version u' = u_version u1 + int (effective_count ops u1)" by simp
  with user_exec_frame [OF u1] u1 show ?case by simp
qed simp

text \<open>Replaying status events: each event must start where the previous one ended.\<close>

fun replay :: "UserStatus \<Rightarrow> DomainEvent list \<Rightarrow> UserStatus option" where
  "replay st [] = Some st"
| "replay st (UserStatusChangedEvent b old new # es) = (if old = st then replay new es else None)"
| "replay st (e # es) = replay st es"

lemma replay_append: "replay st (es @ fs) = Option.bind (replay st es) (\<lambda>st'. replay st' fs)"
  by (induction st es rule: replay.induct) auto

fun is_email_change :: "UserOp \<Rightarrow> bool" where
  "is_email_change (OpChangeEmail e) = True"
| "is_email_change _ = False"

lemma user_exec_replay:
  assumes "user_exec op clk eid u = Inr u'" and "\<not> is_email_change op"
  shows "\<exists>es. u_domainEvents u' = u_domainEvents u @ es \<and> replay (u_status u) es = Some (u_status u')"
  using assms
  by (cases op) (auto simp: user_op_defs bindE_eq_Inr Let_def new_UserStatusChangedEvent_def
      split: if_splits)

definition name_ok :: "string \<Rightarrow> bool" where
  "name_ok n \<longleftrightarrow> n \<noteq> [] \<and> length n \<le> 100 \<and> str_trim n = n"

definition wf_user :: "User \<Rightarrow> bool" where
  "wf_user u \<longleftrightarrow> name_ok (u_firstName u) \<and> name_ok (u_lastName u) \<and> 1 \<le> u_version u"

lemma validateName_name_ok: "validateName n l = Inr x \<Longrightarrow> name_ok (str_trim n)"
  by (simp add: validateName_Inr name_ok_def)

lemma User_create_Inr:
  "User_create newId eid clk em pw fn ln = Inr u \<Longrightarrow>
     u = \<lparr>e_id = newId, e_createdAt = clk 0, e_updatedAt = clk 0, u_email = em, u_password = pw,
          u_firstName = str_trim fn, u_lastName = str_trim ln, u_status = PENDING_VERIFICATION,
          u_emailVerified = False, u_lastLoginAt = None, u_version = 1,
          u_domainEvents = [new_UserCreatedEvent eid (uid_value newId) (email_value em) (clk 1)]\<rparr> \<and>
     validateName fn ''First name'' = Inr () \<and> validateName ln ''Last name'' = Inr ()"
  by (auto simp: User_create_def bindE_eq_Inr new_User_def addDomainEvent_def
      UniqueId_toString_def Let_def)

lemma User_create_ok:
  assumes "str_trim fn \<noteq> []" "length (str_trim fn) \<le> 100" "str_trim ln \<noteq> []" "length (str_trim ln) \<le> 100"
  obtains u where "User_create newId eid clk em pw fn ln = Inr u"
proof -
  have "validateName fn ''First name'' = Inr ()" "validateName ln ''Last name'' = Inr ()"
    using assms by (simp_all add: validateName_Inr)
  then show thesis using that by (simp add: User_create_def Let_def)
qed

lemma User_create_bad:
  assumes "\<not> (str_trim fn \<noteq> [] \<and> length (str_trim fn) \<le> 100 \<and> str_trim ln \<noteq> [] \<and> length (str_trim ln) \<le> 100)"
  obtains m where "User_create newId eid clk em pw fn ln = Inl (JsError m)"
proof -
  have "\<not> (validateName fn ''First name'' = Inr () \<and> validateName ln ''Last name'' = Inr ())"
    using assms by (auto simp: validateName_Inr)
  then obtain e where e: "User_create newId eid clk em pw fn ln = Inl e"
    by (cases "User_create newId eid clk em pw fn ln") (auto dest: User_create_Inr)
  then obtain m where "e = JsError m"
    by (auto simp: User_create_def bindE_eq_Inl Let_def dest: validateName_Inl)
  with e that show thesis by blast
qed

lemma User_create_Inl: "User_create newId eid clk em pw fn ln = Inl e \<Longrightarrow> \<exists>m. e = JsError m"
  by (auto simp: User_create_def bindE_eq_Inl Let_def dest: validateName_Inl)

lemma wf_user_exec: "user_exec op clk eid u = Inr u' \<Longrightarrow> wf_user u \<Longrightarrow> wf_user u'"
  using user_exec_names [of op clk eid u u'] user_exec_frame(3) [of op clk eid u u']
  by (auto simp: wf_user_def validateName_name_ok)

lemma wf_user_reachable: "user_reachable u \<Longrightarrow> wf_user u"
proof (induction rule: user_reachable.induct)
  case (created newId eid clk em pw fn ln u)
  then show ?case
    by (auto dest!: User_create_Inr simp: wf_user_def validateName_name_ok)
next
  case (called u op clk eid u')
  then show ?case by (blast intro: wf_user_exec)
next
  case (pulled u)
  then show ?case by (simp add: wf_user_def User_pullDomainEvents_def)
qed

section \<open>Properties\<close>

text \<open>
  C1. The user entity implements the abstract lifecycle: every call of a business method leads
  exactly where the specification's action leads, and it throws (a plain \<open>Error\<close>) only when the
  specification refuses the action or the new profile names are invalid.
\<close>
theorem User_refines_lifecycle:
  "case user_exec op clk eid u of
     Inr u' \<Rightarrow> lc_next (lc_action_of op u) (lifecycle_of u) = Some (lifecycle_of u')
   | Inl e \<Rightarrow> (\<exists>m. e = JsError m) \<and> (lc_next (lc_action_of op u) (lifecycle_of u) = None \<or> bad_names op)"
  by (rule user_exec_lifecycle)

text \<open>
  A suspended user never becomes active by one call, but two permitted calls get there:
  changing the email (which resets the status) and verifying it; the user can then log in.
\<close>
theorem suspension_bypassed_by_email_change:
  assumes "u_status u = SUSPENDED" and "email_value e \<noteq> email_value (u_email u)"
  shows "(\<forall>op clk eid u'. user_exec op clk eid u = Inr u' \<longrightarrow> u_status u' \<noteq> ACTIVE) \<and>
    (\<exists>u'. user_run [(OpChangeEmail e, clk1, eid1), (OpVerifyEmail, clk2, eid2)] u = Inr u' \<and>
          u_status u' = ACTIVE \<and> User_canLogin u')"
proof -
  have "u_status u' \<noteq> ACTIVE" if "user_exec op clk eid u = Inr u'" for op clk eid u'
    using that assms(1) by (cases op) (auto simp: user_op_defs bindE_eq_Inr Let_def split: if_splits)
  moreover have "\<exists>u'. user_run [(OpChangeEmail e, clk1, eid1), (OpVerifyEmail, clk2, eid2)] u = Inr u' \<and>
      u_status u' = ACTIVE \<and> User_canLogin u'"
    using assms(2)
    by (simp add: user_op_defs Email_equals_def Let_def User_canLogin_def User_isActive_def)
  ultimately show ?thesis by blast
qed

definition sample_user :: User where
  "sample_user =
     User_reconstitute (UniqueId ''u-1'') (Email ''a@b.c'') \<lparr>pw_rawValue = [], pw_hashedValue = Some ''h''\<rparr>
       ''Ann'' ''Lee'' SUSPENDED True None 4 10 20"

theorem suspension_bypassed_by_email_change_witness:
  "\<exists>u'. user_run [(OpChangeEmail (Email ''x@y.z''), \<lambda>k. 30, ''e1''), (OpVerifyEmail, \<lambda>k. 40, ''e2'')]
          sample_user = Inr u' \<and> u_status u' = ACTIVE \<and> User_canLogin u'"
proof -
  have "u_status sample_user = SUSPENDED" "email_value (Email ''x@y.z'') \<noteq> email_value (u_email sample_user)"
    by (simp_all add: sample_user_def User_reconstitute_def new_User_def)
  from suspension_bypassed_by_email_change [OF this] show ?thesis by blast
qed

text \<open>
  C23. Over any run of successful calls the identity and creation time never change, and the version
  grows by exactly the number of calls that changed something; so the version the repository expects
  in the database is the loaded one exactly when one call was effective.
\<close>
theorem User_version_counts_changes:
  assumes "user_run ops u = Inr u'"
  shows "e_id u' = e_id u \<and> e_createdAt u' = e_createdAt u \<and>
    u_version u' = u_version u + int (effective_count ops u) \<and>
    (User_getExpectedVersion u' = u_version u \<longleftrightarrow> effective_count ops u = 1)"
  using user_run_frame [OF assms] by (auto simp: User_getExpectedVersion_def)

theorem User_version_counts_changes_witness:
  "\<exists>u'. user_run [(OpVerifyEmail, \<lambda>k. 5, ''e''), (OpActivate, \<lambda>k. 6, ''f'')]
          (sample_user\<lparr>u_status := PENDING_VERIFICATION, u_emailVerified := False\<rparr>) = Inr u' \<and> u_version u' = 5"
proof -
  let ?ops = "[(OpVerifyEmail, \<lambda>k. 5, ''e''), (OpActivate, \<lambda>k. 6, ''f'')]"
  let ?u = "sample_user\<lparr>u_status := PENDING_VERIFICATION, u_emailVerified := False\<rparr>"
  obtain u' where run: "user_run ?ops ?u = Inr u'"
    by (simp add: user_op_defs Let_def)
  have "effective_count ?ops ?u = 1" by (simp add: user_op_defs Let_def)
  moreover have "u_version ?u = 4"
    by (simp add: sample_user_def User_reconstitute_def new_User_def)
  ultimately have "u_version u' = 5"
    using User_version_counts_changes [OF run] by simp
  with run show ?thesis by blast
qed

text \<open>
  C31. Without email changes the emitted status events replay the status history: they chain from the
  initial to the final status. An effective email change emits nothing and leaves the user pending verification, so the
  replay of its (empty) event list ends in the user's status only if the user was pending verification before.
\<close>
theorem User_events_replay_status:
  assumes "user_run ops u = Inr u'" and "list_all (\<lambda>(op, clk, eid). \<not> is_email_change op) ops"
  shows "(\<exists>es. u_domainEvents u' = u_domainEvents u @ es \<and> replay (u_status u) es = Some (u_status u')) \<and>
    (\<forall>clk e. email_value e \<noteq> email_value (u_email u) \<longrightarrow>
       u_domainEvents (User_changeEmail clk e u) = u_domainEvents u \<and>
       u_status (User_changeEmail clk e u) = PENDING_VERIFICATION \<and>
       (replay (u_status u) [] = Some (u_status (User_changeEmail clk e u)) \<longleftrightarrow> u_status u = PENDING_VERIFICATION))"
proof -
  have "\<exists>es. u_domainEvents u' = u_domainEvents u @ es \<and> replay (u_status u) es = Some (u_status u')"
    using assms
  proof (induction ops u rule: user_run.induct)
    case (2 op clk eid ops u)
    from 2(2,3) obtain u1 where u1: "user_exec op clk eid u = Inr u1" "user_run ops u1 = Inr u'"
      and op: "\<not> is_email_change op"
      by (auto simp: bindE_eq_Inr)
    obtain fs where fs: "u_domainEvents u1 = u_domainEvents u @ fs"
      "replay (u_status u) fs = Some (u_status u1)"
      using user_exec_replay [OF u1(1) op] by blast
    from 2(1) [OF u1(2)] 2(3) obtain es where
      "u_domainEvents u' = u_domainEvents u1 @ es" "replay (u_status u1) es = Some (u_status u')"
      by auto
    with fs show ?case
      by (intro exI [of _ "fs @ es"]) (simp add: replay_append)
  qed simp
  then show ?thesis by (auto simp: user_op_defs Email_equals_def)
qed

theorem User_events_replay_status_witness:
  "\<exists>u' es. user_run [(OpDeactivate, \<lambda>k. 5, ''e''), (OpActivate, \<lambda>k. 6, ''f'')] sample_user = Inr u' \<and>
     u_domainEvents u' = u_domainEvents sample_user @ es \<and> replay SUSPENDED es = Some (u_status u')"
proof -
  let ?ops = "[(OpDeactivate, \<lambda>k. 5, ''e''), (OpActivate, \<lambda>k. 6, ''f'')]"
  have st: "u_status sample_user = SUSPENDED"
    by (simp add: sample_user_def User_reconstitute_def new_User_def)
  obtain u' where run: "user_run ?ops sample_user = Inr u'"
    by (simp add: user_op_defs Let_def st)
  from User_events_replay_status [OF run] run show ?thesis by (auto simp: st)
qed

text \<open>
  C40. In every state a user object can reach from \<open>User.create\<close> its names are trimmed, non-empty and
  at most 100 code units long, and its version is at least 1.
\<close>
theorem User_reachable_wf:
  assumes "user_reachable u"
  shows "wf_user u"
  using assms by (rule wf_user_reachable)

theorem User_reachable_wf_witness:
  "\<exists>u. User_create (UniqueId ''i'') ''e'' (\<lambda>k. 1) (Email ''a@b.c'') \<lparr>pw_rawValue = [], pw_hashedValue = None\<rparr>
          '' Ann '' ''Lee'' = Inr u \<and> wf_user u"
proof -
  obtain u where u: "User_create (UniqueId ''i'') ''e'' (\<lambda>k. 1) (Email ''a@b.c'')
      \<lparr>pw_rawValue = [], pw_hashedValue = None\<rparr> '' Ann '' ''Lee'' = Inr u"
    by (simp add: User_create_def validateName_def str_trim_def js_white_def)
  then have "user_reachable u" by (rule user_reachable.created)
  then have "wf_user u" by (rule User_reachable_wf)
  with u show ?thesis by blast
qed

end
