(* ===== verification/Specifications.thy ===== *)
theory Specifications
  imports UserEntity
begin

text \<open>
  The specification pattern, \<open>src/domain/specifications/base.spec.ts\<close> and \<open>user-active.spec.ts\<close>.
  A specification object is one of the classes of the two files: the composites hold their operands,
  a leaf is a rule on candidates. \<open>isSatisfiedBy\<close> is the dynamic dispatch over them. The contract a
  client relies on (the combinators are the connectives) is the locale \<open>spec_algebra\<close>.
\<close>

datatype 't Spec =
    Rule "'t \<Rightarrow> bool"
  | AndSpecification "'t Spec" "'t Spec"
  | OrSpecification "'t Spec" "'t Spec"
  | NotSpecification "'t Spec"

definition Spec_and :: "'t Spec \<Rightarrow> 't Spec \<Rightarrow> 't Spec" where
  "Spec_and this other = AndSpecification this other"

definition Spec_or :: "'t Spec \<Rightarrow> 't Spec \<Rightarrow> 't Spec" where
  "Spec_or this other = OrSpecification this other"

definition Spec_not :: "'t Spec \<Rightarrow> 't Spec" where
  "Spec_not this = NotSpecification this"

fun isSatisfiedBy :: "'t Spec \<Rightarrow> 't \<Rightarrow> bool" where
  "isSatisfiedBy (Rule p) candidate = p candidate"
| "isSatisfiedBy (AndSpecification l r) candidate = (isSatisfiedBy l candidate \<and> isSatisfiedBy r candidate)"
| "isSatisfiedBy (OrSpecification l r) candidate = (isSatisfiedBy l candidate \<or> isSatisfiedBy r candidate)"
| "isSatisfiedBy (NotSpecification w) candidate = (\<not> isSatisfiedBy w candidate)"

definition UserActiveSpec :: "User Spec" where
  "UserActiveSpec = Rule (\<lambda>user. u_status user = ACTIVE)"

definition UserEmailVerifiedSpec :: "User Spec" where
  "UserEmailVerifiedSpec = Rule u_emailVerified"

definition UserSuspendedSpec :: "User Spec" where
  "UserSuspendedSpec = Rule (\<lambda>user. u_status user = SUSPENDED)"

definition UserCanLoginSpec :: "User Spec" where
  "UserCanLoginSpec = Spec_and UserActiveSpec UserEmailVerifiedSpec"

locale spec_algebra =
  fixes sat :: "'s \<Rightarrow> 't \<Rightarrow> bool" and conj :: "'s \<Rightarrow> 's \<Rightarrow> 's" and disj :: "'s \<Rightarrow> 's \<Rightarrow> 's"
    and neg :: "'s \<Rightarrow> 's"
  assumes sat_conj: "sat (conj a b) x \<longleftrightarrow> sat a x \<and> sat b x"
    and sat_disj: "sat (disj a b) x \<longleftrightarrow> sat a x \<or> sat b x"
    and sat_neg: "sat (neg a) x \<longleftrightarrow> \<not> sat a x"
begin

lemma de_morgan: "sat (neg (conj a b)) x = sat (disj (neg a) (neg b)) x"
  by (auto simp: sat_conj sat_disj sat_neg)

text \<open>A chain of \<open>and\<close>s is satisfied exactly when all its members are.\<close>

lemma sat_chain: "sat (foldl conj a as) x \<longleftrightarrow> sat a x \<and> (\<forall>b\<in>set as. sat b x)"
  by (induction "as" arbitrary: a) (auto simp: sat_conj)

end

interpretation spec: spec_algebra isSatisfiedBy Spec_and Spec_or Spec_not
  by unfold_locales (simp_all add: Spec_and_def Spec_or_def Spec_not_def)

section \<open>Properties\<close>

text \<open>
  The specification of who may log in agrees with the entity's own \<open>canLogin\<close>, excludes the
  suspended, and in every composition the combinators are the boolean connectives.
\<close>
theorem UserCanLoginSpec_agrees:
  "isSatisfiedBy UserCanLoginSpec u = User_canLogin u \<and>
   isSatisfiedBy (Spec_and UserCanLoginSpec UserSuspendedSpec) u = False \<and>
   isSatisfiedBy (foldl Spec_and a specs) x = list_all (\<lambda>s. isSatisfiedBy s x) (a # specs)"
  by (auto simp: UserCanLoginSpec_def spec.sat_conj spec.sat_chain UserActiveSpec_def UserSuspendedSpec_def
      UserEmailVerifiedSpec_def User_canLogin_def User_isActive_def list_all_iff)

end
