(* ===== verification/UserRepository.thy ===== *)
theory UserRepository
  imports UserEntity
begin

text \<open>
  The port \<open>src/domain/ports/user.repository.ts\<close> and its implementation
  \<open>src/infrastructure/database/repositories/user.repository.impl.ts\<close>.

  The Prisma client is third-party: its \<open>user\<close> table accessor (\<open>this.prisma.client.user\<close>) is the
  record \<open>user_delegate\<close>, a parameter of every operation. \<open>PrismaService.transformError\<close> is called
  by the implementation and declared nowhere in the repository (nor is \<open>client\<close>): it is the parameter
  \<open>te\<close>, the value thrown for a given error. What Prisma documents of a table with a primary key
  \<open>id\<close> and a unique \<open>email\<close> is the locale \<open>prisma_users\<close>; the contract of the port is the locale
  \<open>user_repository\<close>. A \<open>sublocale\<close> proves that the implementation over any such table meets the
  port's contract, and the in-memory table at the end shows the assumptions can hold.
\<close>

section \<open>Rows and the table accessor\<close>

record UserRow =
  ur_id :: string
  ur_email :: string
  ur_passwordHash :: string
  ur_firstName :: string
  ur_lastName :: string
  ur_status :: UserStatus
  ur_emailVerified :: bool
  ur_lastLoginAt :: "int option"
  ur_version :: int
  ur_createdAt :: int
  ur_updatedAt :: int

text \<open>The \<open>data\<close> of a create and of an update; an update's absent hash is \<open>undefined\<close>: keep the column.\<close>

record UserCreateData =
  uc_id :: string
  uc_email :: string
  uc_passwordHash :: string
  uc_firstName :: string
  uc_lastName :: string
  uc_status :: UserStatus
  uc_emailVerified :: bool
  uc_lastLoginAt :: "int option"
  uc_version :: int

record UserUpdateData =
  uu_email :: string
  uu_passwordHash :: "string option"
  uu_firstName :: string
  uu_lastName :: string
  uu_status :: UserStatus
  uu_emailVerified :: bool
  uu_lastLoginAt :: "int option"
  uu_version :: int
  uu_updatedAt :: int

record 's user_delegate =
  du_findUniqueById :: "string \<Rightarrow> ('s, exn, UserRow option) proc"
  du_findUniqueByEmail :: "string \<Rightarrow> ('s, exn, UserRow option) proc"
  du_countByEmail :: "string \<Rightarrow> ('s, exn, nat) proc"
  du_update :: "string \<Rightarrow> int \<Rightarrow> UserUpdateData \<Rightarrow> ('s, exn, UserRow) proc"
  du_create :: "UserCreateData \<Rightarrow> ('s, exn, UserRow) proc"
  du_delete :: "string \<Rightarrow> ('s, exn, unit) proc"

section \<open>The implementation\<close>

definition Repo_toDomain :: "UserRow \<Rightarrow> exn + User" where
  "Repo_toDomain row =
     bindE (UniqueId_fromString (ur_id row)) (\<lambda>i.
     bindE (Password_fromHash (ur_passwordHash row)) (\<lambda>pw.
       Inr (User_reconstitute i (Email_fromPersistence (ur_email row)) pw (ur_firstName row)
         (ur_lastName row) (ur_status row) (ur_emailVerified row) (ur_lastLoginAt row)
         (ur_version row) (ur_createdAt row) (ur_updatedAt row))))"

fun is_UserNotFound :: "exn \<Rightarrow> bool" where
  "is_UserNotFound (UserNotFoundException i t) = True"
| "is_UserNotFound _ = False"

definition Repo_findById ::
  "'s user_delegate \<Rightarrow> (exn \<Rightarrow> string option \<Rightarrow> exn) \<Rightarrow> UniqueId \<Rightarrow> ('s, exn, User) proc" where
  "Repo_findById d te i =
     catchP (bindP (du_findUniqueById d (uid_value i)) (\<lambda>row. case row of
           None \<Rightarrow> throwP (UserNotFoundException (uid_value i) ''id'')
         | Some r \<Rightarrow> liftP (Repo_toDomain r)))
       (\<lambda>error. if is_UserNotFound error then throwP error else throwP (te error (Some (uid_value i))))"

definition Repo_findByEmail ::
  "'s user_delegate \<Rightarrow> (exn \<Rightarrow> string option \<Rightarrow> exn) \<Rightarrow> Email \<Rightarrow> ('s, exn, User) proc" where
  "Repo_findByEmail d te e =
     catchP (bindP (du_findUniqueByEmail d (email_value e)) (\<lambda>row. case row of
           None \<Rightarrow> throwP (UserNotFoundException (email_value e) ''email'')
         | Some r \<Rightarrow> liftP (Repo_toDomain r)))
       (\<lambda>error. if is_UserNotFound error then throwP error else throwP (te error None))"

definition Repo_existsByEmail ::
  "'s user_delegate \<Rightarrow> (exn \<Rightarrow> string option \<Rightarrow> exn) \<Rightarrow> Email \<Rightarrow> ('s, exn, bool) proc" where
  "Repo_existsByEmail d te e =
     catchP (bindP (du_countByEmail d (email_value e)) (\<lambda>count. returnP (count > 0)))
       (\<lambda>error. throwP (te error None))"

definition update_data_of :: "int \<Rightarrow> User \<Rightarrow> UserUpdateData" where
  "update_data_of now user =
     \<lparr>uu_email = email_value (u_email user), uu_passwordHash = pw_hashedValue (u_password user),
      uu_firstName = u_firstName user, uu_lastName = u_lastName user, uu_status = u_status user,
      uu_emailVerified = u_emailVerified user, uu_lastLoginAt = u_lastLoginAt user,
      uu_version = u_version user, uu_updatedAt = now\<rparr>"

definition create_data_of :: "User \<Rightarrow> UserCreateData" where
  "create_data_of user =
     \<lparr>uc_id = uid_value (e_id user), uc_email = email_value (u_email user),
      uc_passwordHash = (case pw_hashedValue (u_password user) of Some h \<Rightarrow> h | None \<Rightarrow> ''''),
      uc_firstName = u_firstName user, uc_lastName = u_lastName user, uc_status = u_status user,
      uc_emailVerified = u_emailVerified user, uc_lastLoginAt = u_lastLoginAt user,
      uc_version = u_version user\<rparr>"

text \<open>The handler of \<open>save\<close>: unique violation on the email, vanished row, anything else.\<close>

fun Repo_save_error :: "(exn \<Rightarrow> string option \<Rightarrow> exn) \<Rightarrow> User \<Rightarrow> exn \<Rightarrow> exn" where
  "Repo_save_error te user (PrismaKnown code target msg) =
     (if code = ''P2002'' \<and> ''email'' \<in> set target
      then EmailAlreadyExistsException (email_value (u_email user))
      else if code = ''P2025'' then ConcurrencyConflictError ''User'' (uid_value (e_id user))
      else te (PrismaKnown code target msg) (Some (uid_value (e_id user))))"
| "Repo_save_error te user error = te error (Some (uid_value (e_id user)))"

definition Repo_save ::
  "'s user_delegate \<Rightarrow> (exn \<Rightarrow> string option \<Rightarrow> exn) \<Rightarrow> ('s \<Rightarrow> int) \<Rightarrow> User \<Rightarrow> ('s, exn, User) proc" where
  "Repo_save d te clock user =
     catchP (bindP (du_findUniqueById d (uid_value (e_id user))) (\<lambda>existingRow.
         case existingRow of
           Some _ \<Rightarrow>
             bindP (getsP clock) (\<lambda>now.
             bindP (du_update d (uid_value (e_id user)) (User_getExpectedVersion user)
                      (update_data_of now user)) (\<lambda>updatedRow.
               liftP (Repo_toDomain updatedRow)))
         | None \<Rightarrow>
             bindP (du_create d (create_data_of user)) (\<lambda>createdRow.
               liftP (Repo_toDomain createdRow))))
       (\<lambda>error. throwP (Repo_save_error te user error))"

definition Repo_delete ::
  "'s user_delegate \<Rightarrow> (exn \<Rightarrow> string option \<Rightarrow> exn) \<Rightarrow> UniqueId \<Rightarrow> ('s, exn, unit) proc" where
  "Repo_delete d te i =
     catchP (bindP (du_delete d (uid_value i)) (\<lambda>_. returnP ()))
       (\<lambda>error. throwP (te error (Some (uid_value i))))"

text \<open>The port: the object of its five methods, and the implementation as such an object.\<close>

record 's user_repo =
  rp_findById :: "UniqueId \<Rightarrow> ('s, exn, User) proc"
  rp_findByEmail :: "Email \<Rightarrow> ('s, exn, User) proc"
  rp_existsByEmail :: "Email \<Rightarrow> ('s, exn, bool) proc"
  rp_save :: "User \<Rightarrow> ('s, exn, User) proc"
  rp_delete :: "UniqueId \<Rightarrow> ('s, exn, unit) proc"

definition UserRepositoryImpl ::
  "'s user_delegate \<Rightarrow> (exn \<Rightarrow> string option \<Rightarrow> exn) \<Rightarrow> ('s \<Rightarrow> int) \<Rightarrow> 's user_repo" where
  "UserRepositoryImpl d te clock =
     \<lparr>rp_findById = Repo_findById d te, rp_findByEmail = Repo_findByEmail d te,
      rp_existsByEmail = Repo_existsByEmail d te, rp_save = Repo_save d te clock,
      rp_delete = Repo_delete d te\<rparr>"

section \<open>The contract of the port\<close>

text \<open>What a user must carry to be stored: a valid identifier, a normalised email, a hash.\<close>

definition storable :: "User \<Rightarrow> bool" where
  "storable u \<longleftrightarrow>
     UniqueId_fromString (uid_value (e_id u)) = Inr (e_id u) \<and>
     Email_fromPersistence (email_value (u_email u)) = u_email u \<and>
     (case pw_hashedValue (u_password u) of Some h \<Rightarrow> h \<noteq> [] | None \<Rightarrow> False)"

text \<open>The saved entity: the same data without the raw password and without pending events.\<close>

definition saved_as :: "User \<Rightarrow> User \<Rightarrow> bool" where
  "saved_as u u' \<longleftrightarrow>
     e_id u' = e_id u \<and> u_email u' = u_email u \<and>
     u_password u' = \<lparr>pw_rawValue = [], pw_hashedValue = pw_hashedValue (u_password u)\<rparr> \<and>
     u_firstName u' = u_firstName u \<and> u_lastName u' = u_lastName u \<and> u_status u' = u_status u \<and>
     u_emailVerified u' = u_emailVerified u \<and> u_lastLoginAt u' = u_lastLoginAt u \<and>
     u_version u' = u_version u \<and> u_domainEvents u' = []"

text \<open>\<open>view s\<close>: the users the repository holds in the outside state \<open>s\<close>, by identifier.\<close>

definition email_free :: "(string \<rightharpoonup> User) \<Rightarrow> User \<Rightarrow> bool" where
  "email_free m u \<longleftrightarrow> (\<forall>i v. m i = Some v \<and> i \<noteq> uid_value (e_id u) \<longrightarrow> u_email v \<noteq> u_email u)"

locale user_repository =
  fixes repo :: "'s user_repo" and good :: "'s \<Rightarrow> bool" and view :: "'s \<Rightarrow> string \<rightharpoonup> User"
  assumes find_id: "good s \<Longrightarrow> rp_findById repo i s =
      (case view s (uid_value i) of Some u \<Rightarrow> Inr u
       | None \<Rightarrow> Inl (UserNotFoundException (uid_value i) ''id''), s)"
    and find_email: "good s \<Longrightarrow> view s k = Some u \<Longrightarrow> u_email u = e \<Longrightarrow> rp_findByEmail repo e s = (Inr u, s)"
    and find_email_none: "good s \<Longrightarrow> (\<forall>k u. view s k = Some u \<longrightarrow> u_email u \<noteq> e) \<Longrightarrow>
      rp_findByEmail repo e s = (Inl (UserNotFoundException (email_value e) ''email''), s)"
    and exists_email: "good s \<Longrightarrow>
      rp_existsByEmail repo e s = (Inr (\<exists>k u. view s k = Some u \<and> u_email u = e), s)"
    and save_new: "good s \<Longrightarrow> storable u \<Longrightarrow> view s (uid_value (e_id u)) = None \<Longrightarrow>
      email_free (view s) u \<Longrightarrow>
      \<exists>u' s'. rp_save repo u s = (Inr u', s') \<and> good s' \<and> saved_as u u' \<and>
        view s' = (view s)(uid_value (e_id u) \<mapsto> u')"
    and save_update: "good s \<Longrightarrow> storable u \<Longrightarrow> view s (uid_value (e_id u)) = Some v \<Longrightarrow>
      u_version v = User_getExpectedVersion u \<Longrightarrow> email_free (view s) u \<Longrightarrow>
      \<exists>u' s'. rp_save repo u s = (Inr u', s') \<and> good s' \<and> saved_as u u' \<and>
        view s' = (view s)(uid_value (e_id u) \<mapsto> u')"
    and save_conflict: "good s \<Longrightarrow> view s (uid_value (e_id u)) = Some v \<Longrightarrow>
      u_version v \<noteq> User_getExpectedVersion u \<Longrightarrow>
      rp_save repo u s = (Inl (ConcurrencyConflictError ''User'' (uid_value (e_id u))), s)"
    and save_taken: "good s \<Longrightarrow> storable u \<Longrightarrow> \<not> email_free (view s) u \<Longrightarrow>
      (\<forall>v. view s (uid_value (e_id u)) = Some v \<longrightarrow> u_version v = User_getExpectedVersion u) \<Longrightarrow>
      rp_save repo u s = (Inl (EmailAlreadyExistsException (email_value (u_email u))), s)"
    and held_ok: "good s \<Longrightarrow> view s k = Some u \<Longrightarrow>
      storable u \<and> uid_value (e_id u) = k \<and> email_free (view s) u \<and> u_domainEvents u = []"
    and delete_found: "good s \<Longrightarrow> view s (uid_value i) \<noteq> None \<Longrightarrow>
      \<exists>s'. rp_delete repo i s = (Inr (), s') \<and> good s' \<and> view s' = (view s)(uid_value i := None)"

text \<open>Consequences every client may use: the round trip and the optimistic lock.\<close>

context user_repository
begin

lemma save_then_find:
  assumes "good s" "storable u" "view s (uid_value (e_id u)) = None" "email_free (view s) u"
  obtains u' s' where "rp_save repo u s = (Inr u', s')" "saved_as u u'" "good s'"
    "rp_findById repo (e_id u) s' = (Inr u', s')" "rp_findByEmail repo (u_email u) s' = (Inr u', s')"
    "rp_existsByEmail repo (u_email u) s' = (Inr True, s')"
proof -
  from save_new [OF assms] obtain u' s' where 1: "rp_save repo u s = (Inr u', s')"
    and 2: "good s'" "saved_as u u'" and v: "view s' = (view s)(uid_value (e_id u) \<mapsto> u')" by blast
  have at: "view s' (uid_value (e_id u)) = Some u'" by (simp add: v)
  have em: "u_email u' = u_email u" using 2 by (simp add: saved_as_def)
  show thesis
    using that [OF 1 2(2) 2(1)] find_id [OF 2(1), of "e_id u"] find_email [OF 2(1) at em]
      exists_email [OF 2(1), of "u_email u"] at em by auto
qed

lemma save_after_run:
  assumes s: "good s" "view s (uid_value (e_id v)) = Some v" and run: "user_run ops v = Inr u"
  shows "effective_count ops v \<noteq> 1 \<Longrightarrow>
      rp_save repo u s = (Inl (ConcurrencyConflictError ''User'' (uid_value (e_id v))), s)"
    and "effective_count ops v = 1 \<Longrightarrow> storable u \<Longrightarrow> email_free (view s) u \<Longrightarrow>
      \<exists>u' s'. rp_save repo u s = (Inr u', s') \<and> saved_as u u' \<and>
        view s' = (view s)(uid_value (e_id v) \<mapsto> u')"
proof -
  from user_run_frame [OF run] have i: "e_id u = e_id v"
    and ver: "User_getExpectedVersion u = u_version v + int (effective_count ops v) - 1"
    by (simp_all add: User_getExpectedVersion_def)
  show "rp_save repo u s = (Inl (ConcurrencyConflictError ''User'' (uid_value (e_id v))), s)"
    if "effective_count ops v \<noteq> 1"
    using save_conflict [of s u v] s that by (simp add: i ver)
  show "\<exists>u' s'. rp_save repo u s = (Inr u', s') \<and> saved_as u u' \<and>
        view s' = (view s)(uid_value (e_id v) \<mapsto> u')"
    if "effective_count ops v = 1" "storable u" "email_free (view s) u"
    using save_update [of s u v] s that by (auto simp add: i ver)
qed

text \<open>A saved entity cannot be saved again unchanged: its expected version is one behind the stored one.\<close>

lemma save_twice_conflicts:
  assumes "good s" "storable u" "view s (uid_value (e_id u)) = None" "email_free (view s) u"
    and "rp_save repo u s = (Inr u', s')"
  shows "rp_save repo u' s' = (Inl (ConcurrencyConflictError ''User'' (uid_value (e_id u))), s')"
proof -
  from save_new [OF assms(1-4)] assms(5) have "good s'" "saved_as u u'"
    "view s' = (view s)(uid_value (e_id u) \<mapsto> u')" by auto
  then show ?thesis
    using save_conflict [of s' u' u'] by (simp add: saved_as_def User_getExpectedVersion_def)
qed

end

section \<open>What Prisma promises of the table\<close>

definition row_of_create :: "UserCreateData \<Rightarrow> int \<Rightarrow> int \<Rightarrow> UserRow" where
  "row_of_create x created updated =
     \<lparr>ur_id = uc_id x, ur_email = uc_email x, ur_passwordHash = uc_passwordHash x,
      ur_firstName = uc_firstName x, ur_lastName = uc_lastName x, ur_status = uc_status x,
      ur_emailVerified = uc_emailVerified x, ur_lastLoginAt = uc_lastLoginAt x,
      ur_version = uc_version x, ur_createdAt = created, ur_updatedAt = updated\<rparr>"

definition row_update :: "UserUpdateData \<Rightarrow> UserRow \<Rightarrow> UserRow" where
  "row_update x r =
     r\<lparr>ur_email := uu_email x,
       ur_passwordHash := (case uu_passwordHash x of Some h \<Rightarrow> h | None \<Rightarrow> ur_passwordHash r),
       ur_firstName := uu_firstName x, ur_lastName := uu_lastName x, ur_status := uu_status x,
       ur_emailVerified := uu_emailVerified x, ur_lastLoginAt := uu_lastLoginAt x,
       ur_version := uu_version x, ur_updatedAt := uu_updatedAt x\<rparr>"

text \<open>
  \<open>P2002\<close> is Prisma's unique violation with the violated fields as its target, \<open>P2025\<close> its
  "record to update or delete does not exist".
\<close>

locale prisma_users =
  fixes d :: "'s user_delegate" and tbl :: "'s \<Rightarrow> UserRow list"
  assumes find_unique_id: "du_findUniqueById d k s = (Inr (find (\<lambda>r. ur_id r = k) (tbl s)), s)"
    and find_unique_email: "du_findUniqueByEmail d k s = (Inr (find (\<lambda>r. ur_email r = k) (tbl s)), s)"
    and count_email: "du_countByEmail d k s = (Inr (length (filter (\<lambda>r. ur_email r = k) (tbl s))), s)"
    and create_ok: "uc_id x \<notin> ur_id ` set (tbl s) \<Longrightarrow> uc_email x \<notin> ur_email ` set (tbl s) \<Longrightarrow>
      \<exists>c m s'. du_create d x s = (Inr (row_of_create x c m), s') \<and> tbl s' = tbl s @ [row_of_create x c m]"
    and create_taken: "uc_id x \<notin> ur_id ` set (tbl s) \<Longrightarrow> uc_email x \<in> ur_email ` set (tbl s) \<Longrightarrow>
      \<exists>msg. du_create d x s = (Inl (PrismaKnown ''P2002'' [''email''] msg), s)"
    and update_ok: "find (\<lambda>r. ur_id r = k) (tbl s) = Some r \<Longrightarrow> ur_version r = n \<Longrightarrow>
      (\<forall>r'\<in>set (tbl s). ur_id r' \<noteq> k \<longrightarrow> ur_email r' \<noteq> uu_email y) \<Longrightarrow>
      \<exists>s'. du_update d k n y s = (Inr (row_update y r), s') \<and>
        tbl s' = map (\<lambda>r'. if ur_id r' = k then row_update y r' else r') (tbl s)"
    and update_taken: "find (\<lambda>r. ur_id r = k) (tbl s) = Some r \<Longrightarrow> ur_version r = n \<Longrightarrow>
      (\<exists>r'\<in>set (tbl s). ur_id r' \<noteq> k \<and> ur_email r' = uu_email y) \<Longrightarrow>
      \<exists>msg. du_update d k n y s = (Inl (PrismaKnown ''P2002'' [''email''] msg), s)"
    and update_missing: "find (\<lambda>r. ur_id r = k) (tbl s) = Some r \<Longrightarrow> ur_version r \<noteq> n \<Longrightarrow>
      \<exists>t msg. du_update d k n y s = (Inl (PrismaKnown ''P2025'' t msg), s)"
    and delete_ok: "k \<in> ur_id ` set (tbl s) \<Longrightarrow>
      \<exists>s'. du_delete d k s = (Inr (), s') \<and> tbl s' = filter (\<lambda>r. ur_id r \<noteq> k) (tbl s)"

text \<open>A table all of whose rows map to entities, with unique keys; and the users it holds.\<close>

definition row_ok :: "UserRow \<Rightarrow> bool" where
  "row_ok r \<longleftrightarrow> UniqueId_fromString (ur_id r) = Inr (UniqueId (ur_id r)) \<and>
     email_value (Email_fromPersistence (ur_email r)) = ur_email r \<and> ur_passwordHash r \<noteq> []"

definition table_ok :: "UserRow list \<Rightarrow> bool" where
  "table_ok rs \<longleftrightarrow> list_all row_ok rs \<and> distinct (map ur_id rs) \<and> distinct (map ur_email rs)"

definition user_of_row :: "UserRow \<Rightarrow> User" where
  "user_of_row r = User_reconstitute (UniqueId (ur_id r)) (Email (ur_email r))
     \<lparr>pw_rawValue = [], pw_hashedValue = Some (ur_passwordHash r)\<rparr> (ur_firstName r) (ur_lastName r)
     (ur_status r) (ur_emailVerified r) (ur_lastLoginAt r) (ur_version r) (ur_createdAt r) (ur_updatedAt r)"

definition users_of :: "UserRow list \<Rightarrow> string \<rightharpoonup> User" where
  "users_of rs k = map_option user_of_row (find (\<lambda>r. ur_id r = k) rs)"

lemma user_of_row_sel [simp]:
  "e_id (user_of_row r) = UniqueId (ur_id r)" "u_email (user_of_row r) = Email (ur_email r)"
  "u_version (user_of_row r) = ur_version r"
  by (simp_all add: user_of_row_def User_reconstitute_def new_User_def)

lemma toDomain_row_ok: "row_ok r \<Longrightarrow> Repo_toDomain r = Inr (user_of_row r)"
  by (cases "Email_fromPersistence (ur_email r)")
    (simp add: row_ok_def Repo_toDomain_def Password_fromHash_def user_of_row_def)

lemma find_in_table:
  "table_ok rs \<Longrightarrow> r \<in> set rs \<Longrightarrow> find (\<lambda>r'. ur_id r' = ur_id r) rs = Some r"
  "table_ok rs \<Longrightarrow> r \<in> set rs \<Longrightarrow> find (\<lambda>r'. ur_email r' = ur_email r) rs = Some r"
  by (induction rs) (auto simp: table_ok_def)

lemma find_Some_in: "find P xs = Some x \<Longrightarrow> x \<in> set xs \<and> P x"
  by (induction xs) (auto split: if_splits)

lemma find_None_iff_all: "find P xs = None \<longleftrightarrow> (\<forall>x\<in>set xs. \<not> P x)"
  by (induction xs) auto

lemma users_of_Some:
  "table_ok rs \<Longrightarrow> users_of rs k = Some u \<longleftrightarrow> (\<exists>r\<in>set rs. ur_id r = k \<and> u = user_of_row r)"
  by (auto simp: users_of_def dest: find_Some_in find_in_table)

lemma users_of_row: "table_ok rs \<Longrightarrow> r \<in> set rs \<Longrightarrow> users_of rs (ur_id r) = Some (user_of_row r)"
  by (auto simp: users_of_Some)

lemma users_of_None: "users_of rs k = None \<longleftrightarrow> k \<notin> ur_id ` set rs"
  by (auto simp: users_of_def find_None_iff_all)

lemma email_free_rows:
  "table_ok rs \<Longrightarrow> email_free (users_of rs) u \<longleftrightarrow>
     (\<forall>r\<in>set rs. ur_id r \<noteq> uid_value (e_id u) \<longrightarrow> ur_email r \<noteq> email_value (u_email u))"
  by (cases "u_email u") (fastforce simp: email_free_def users_of_Some)

section \<open>The implementation meets the contract\<close>

lemma storable_create:
  assumes "storable u"
  shows "row_ok (row_of_create (create_data_of u) c m)"
    and "saved_as u (user_of_row (row_of_create (create_data_of u) c m))"
  using assms
  by (cases "u_email u"; cases "e_id u";
      auto simp: storable_def row_ok_def row_of_create_def create_data_of_def saved_as_def
        user_of_row_def User_reconstitute_def new_User_def split: option.splits)+

lemma storable_update:
  assumes "storable u" and "ur_id r = uid_value (e_id u)"
  shows "row_ok (row_update (update_data_of n u) r)"
    and "saved_as u (user_of_row (row_update (update_data_of n u) r))"
  using assms
  by (cases "u_email u"; cases "e_id u";
      auto simp: storable_def row_ok_def row_update_def update_data_of_def saved_as_def
        user_of_row_def User_reconstitute_def new_User_def split: option.splits)+

lemma row_keys [simp]:
  "ur_id (row_of_create x c m) = uc_id x" "ur_email (row_of_create x c m) = uc_email x"
  "ur_id (row_update y r) = ur_id r" "ur_email (row_update y r) = uu_email y"
  "uc_id (create_data_of u) = uid_value (e_id u)" "uc_email (create_data_of u) = email_value (u_email u)"
  "uu_email (update_data_of n u) = email_value (u_email u)"
  by (simp_all add: row_of_create_def row_update_def create_data_of_def update_data_of_def)

lemma find_map_conv: "find P (map f xs) = map_option f (find (\<lambda>x. P (f x)) xs)"
  by (induction xs) auto

lemma find_filter_conv: "find P (filter Q xs) = find (\<lambda>x. Q x \<and> P x) xs"
  by (induction xs) auto

lemma users_of_append:
  "ur_id r \<notin> ur_id ` set rs \<Longrightarrow> users_of (rs @ [r]) = (users_of rs)(ur_id r \<mapsto> user_of_row r)"
  using users_of_None [of rs "ur_id r"]
  by (intro ext) (auto simp: users_of_def find_snoc split: option.splits)

lemma users_of_replace:
  assumes "find (\<lambda>r. ur_id r = k) rs = Some r"
  shows "users_of (map (\<lambda>r'. if ur_id r' = k then row_update y r' else r') rs) =
    (users_of rs)(k \<mapsto> user_of_row (row_update y r))"
proof
  fix x
  let ?f = "\<lambda>r'. if ur_id r' = k then row_update y r' else r'"
  have key: "ur_id (?f r') = ur_id r'" for r' by simp
  have "users_of (map ?f rs) x = map_option (\<lambda>r'. user_of_row (?f r')) (find (\<lambda>r. ur_id r = x) rs)"
    by (simp only: users_of_def find_map_conv key option.map_comp comp_def)
  also have "\<dots> = ((users_of rs)(k \<mapsto> user_of_row (row_update y r))) x"
    using assms by (cases "find (\<lambda>r. ur_id r = x) rs") (auto simp: users_of_def dest: find_Some_in)
  finally show "users_of (map ?f rs) x = ((users_of rs)(k \<mapsto> user_of_row (row_update y r))) x" .
qed

lemma users_of_filter: "users_of (filter (\<lambda>r. ur_id r \<noteq> k) rs) = (users_of rs)(k := None)"
proof
  fix x
  show "users_of (filter (\<lambda>r. ur_id r \<noteq> k) rs) x = ((users_of rs)(k := None)) x"
  proof (cases "x = k")
    case True
    then show ?thesis by (simp add: users_of_def find_filter_conv find_None_iff_all)
  next
    case False
    then have "(\<lambda>r::UserRow. ur_id r \<noteq> k \<and> ur_id r = x) = (\<lambda>r. ur_id r = x)" by auto
    with False show ?thesis by (simp add: users_of_def find_filter_conv)
  qed
qed

lemma table_ok_append:
  "table_ok rs \<Longrightarrow> row_ok r \<Longrightarrow> ur_id r \<notin> ur_id ` set rs \<Longrightarrow> ur_email r \<notin> ur_email ` set rs \<Longrightarrow>
     table_ok (rs @ [r])"
  by (auto simp: table_ok_def)

lemma table_ok_replace:
  assumes "table_ok rs" "find (\<lambda>r. ur_id r = k) rs = Some r" "row_ok (row_update y r)"
    and "\<forall>r'\<in>set rs. ur_id r' \<noteq> k \<longrightarrow> ur_email r' \<noteq> uu_email y"
  shows "table_ok (map (\<lambda>r'. if ur_id r' = k then row_update y r' else r') rs)"
proof -
  let ?f = "\<lambda>r'. if ur_id r' = k then row_update y r' else r'"
  have one: "r' = r" if "r' \<in> set rs" "ur_id r' = k" for r'
    using find_in_table(1) [OF assms(1) that(1)] assms(2) that(2) by simp
  have "map ur_id (map ?f rs) = map ur_id rs" by simp
  moreover have "list_all row_ok (map ?f rs)"
    using assms(1,3) one by (auto simp: table_ok_def list_all_iff)
  moreover have "inj_on (\<lambda>r'. ur_email (?f r')) (set rs)"
    using assms(1,4) one by (auto simp: inj_on_def table_ok_def distinct_map)
  ultimately show ?thesis
    using assms(1) by (simp add: table_ok_def distinct_map comp_def cong: map_cong)
qed

lemma table_ok_filter: "table_ok rs \<Longrightarrow> table_ok (filter P rs)"
  by (auto simp: table_ok_def list_all_iff distinct_map_filter)

context prisma_users
begin

lemma impl_find_id:
  assumes "table_ok (tbl s)"
  shows "Repo_findById d te i s =
    (case users_of (tbl s) (uid_value i) of Some u \<Rightarrow> Inr u
     | None \<Rightarrow> Inl (UserNotFoundException (uid_value i) ''id''), s)"
  using assms
  by (cases "find (\<lambda>r. ur_id r = uid_value i) (tbl s)")
    (auto simp: Repo_findById_def catchP_def bindP_def find_unique_id users_of_def
      toDomain_row_ok table_ok_def list_all_iff dest!: find_Some_in)

lemma impl_find_email:
  assumes "table_ok (tbl s)"
  shows "Repo_findByEmail d te e s =
    (case find (\<lambda>r. ur_email r = email_value e) (tbl s) of Some r \<Rightarrow> Inr (user_of_row r)
     | None \<Rightarrow> Inl (UserNotFoundException (email_value e) ''email''), s)"
  using assms
  by (cases "find (\<lambda>r. ur_email r = email_value e) (tbl s)")
    (auto simp: Repo_findByEmail_def catchP_def bindP_def find_unique_email
      toDomain_row_ok table_ok_def list_all_iff dest!: find_Some_in)

lemma impl_find_email_Some:
  assumes "table_ok (tbl s)" and "users_of (tbl s) k = Some u" and "u_email u = e"
  shows "Repo_findByEmail d te e s = (Inr u, s)"
proof -
  from assms obtain r where r: "r \<in> set (tbl s)" "u = user_of_row r" "email_value e = ur_email r"
    by (auto simp: users_of_Some)
  with find_in_table(2) [OF assms(1) r(1)] show ?thesis
    by (simp add: impl_find_email [OF assms(1)])
qed

lemma impl_exists:
  assumes "table_ok (tbl s)"
  shows "Repo_existsByEmail d te e s = (Inr (\<exists>k u. users_of (tbl s) k = Some u \<and> u_email u = e), s)"
proof -
  have "(\<exists>k u. users_of (tbl s) k = Some u \<and> u_email u = e) \<longleftrightarrow> (\<exists>r\<in>set (tbl s). ur_email r = email_value e)"
    using assms by (cases e) (force simp: users_of_Some)
  then show ?thesis
    by (auto simp: Repo_existsByEmail_def catchP_def bindP_def count_email filter_empty_conv)
qed

lemma impl_save_new:
  assumes ok: "table_ok (tbl s)" and u: "storable u"
    and new: "users_of (tbl s) (uid_value (e_id u)) = None" and free: "email_free (users_of (tbl s)) u"
  shows "\<exists>u' s'. Repo_save d te clock u s = (Inr u', s') \<and> table_ok (tbl s') \<and> saved_as u u' \<and>
    users_of (tbl s') = (users_of (tbl s))(uid_value (e_id u) \<mapsto> u')"
proof -
  have i: "uid_value (e_id u) \<notin> ur_id ` set (tbl s)" using new by (simp add: users_of_None)
  have e: "email_value (u_email u) \<notin> ur_email ` set (tbl s)"
  proof
    assume "email_value (u_email u) \<in> ur_email ` set (tbl s)"
    then obtain r where r: "r \<in> set (tbl s)" "ur_email r = email_value (u_email u)" by auto
    with free have "uid_value (e_id u) = ur_id r" by (auto simp: email_free_rows [OF ok])
    with r(1) i show False by simp
  qed
  from create_ok [of "create_data_of u" s] i e obtain c m s' where
    c: "du_create d (create_data_of u) s = (Inr (row_of_create (create_data_of u) c m), s')"
    and t: "tbl s' = tbl s @ [row_of_create (create_data_of u) c m]" by auto
  have "find (\<lambda>r. ur_id r = uid_value (e_id u)) (tbl s) = None"
    using new by (simp add: users_of_def)
  then have "Repo_save d te clock u s = (Inr (user_of_row (row_of_create (create_data_of u) c m)), s')"
    by (simp add: Repo_save_def catchP_def bindP_def find_unique_id c toDomain_row_ok storable_create(1) [OF u])
  moreover have "table_ok (tbl s')"
    using table_ok_append [OF ok storable_create(1) [OF u]] i e by (simp add: t)
  ultimately show ?thesis
    using users_of_append [of "row_of_create (create_data_of u) c m" "tbl s"] i storable_create(2) [OF u]
    by (auto simp: t)
qed

lemma impl_save_update:
  assumes ok: "table_ok (tbl s)" and u: "storable u"
    and old: "users_of (tbl s) (uid_value (e_id u)) = Some v" "u_version v = User_getExpectedVersion u"
    and free: "email_free (users_of (tbl s)) u"
  shows "\<exists>u' s'. Repo_save d te clock u s = (Inr u', s') \<and> table_ok (tbl s') \<and> saved_as u u' \<and>
    users_of (tbl s') = (users_of (tbl s))(uid_value (e_id u) \<mapsto> u')"
proof -
  let ?k = "uid_value (e_id u)"
  let ?y = "update_data_of (clock s) u"
  from old obtain r where r: "find (\<lambda>r. ur_id r = ?k) (tbl s) = Some r"
    and ver: "ur_version r = User_getExpectedVersion u"
    by (auto simp: users_of_def)
  then have rid: "ur_id r = ?k" by (auto dest: find_Some_in)
  have fr: "\<forall>r'\<in>set (tbl s). ur_id r' \<noteq> ?k \<longrightarrow> ur_email r' \<noteq> uu_email ?y"
    using free by (simp add: email_free_rows [OF ok])
  from update_ok [OF r ver fr] obtain s' where
    c: "du_update d ?k (User_getExpectedVersion u) ?y s = (Inr (row_update ?y r), s')"
    and t: "tbl s' = map (\<lambda>r'. if ur_id r' = ?k then row_update ?y r' else r') (tbl s)" by blast
  note st = storable_update [OF u rid, of "clock s"]
  have "Repo_save d te clock u s = (Inr (user_of_row (row_update ?y r)), s')"
    by (simp add: Repo_save_def catchP_def bindP_def find_unique_id r c toDomain_row_ok st)
  moreover have "table_ok (tbl s')"
    using table_ok_replace [OF ok r st(1) fr] by (simp add: t)
  ultimately show ?thesis
    using users_of_replace [OF r, of ?y] ok st(2) by (auto simp: t table_ok_def)
qed

lemma impl_save_conflict:
  assumes "table_ok (tbl s)" and "users_of (tbl s) (uid_value (e_id u)) = Some v"
    and "u_version v \<noteq> User_getExpectedVersion u"
  shows "Repo_save d te clock u s = (Inl (ConcurrencyConflictError ''User'' (uid_value (e_id u))), s)"
proof -
  from assms obtain r where r: "find (\<lambda>r. ur_id r = uid_value (e_id u)) (tbl s) = Some r"
    and ver: "ur_version r \<noteq> User_getExpectedVersion u"
    by (auto simp: users_of_def)
  from update_missing [OF r ver, of "update_data_of (clock s) u"] r show ?thesis
    by (auto simp: Repo_save_def catchP_def bindP_def find_unique_id)
qed

lemma impl_save_taken:
  assumes ok: "table_ok (tbl s)" and u: "storable u" and taken: "\<not> email_free (users_of (tbl s)) u"
    and ver: "\<forall>v. users_of (tbl s) (uid_value (e_id u)) = Some v \<longrightarrow> u_version v = User_getExpectedVersion u"
  shows "Repo_save d te clock u s = (Inl (EmailAlreadyExistsException (email_value (u_email u))), s)"
proof -
  let ?k = "uid_value (e_id u)"
  from taken have clash: "\<exists>r'\<in>set (tbl s). ur_id r' \<noteq> ?k \<and> ur_email r' = email_value (u_email u)"
    by (auto simp: email_free_rows [OF ok])
  show ?thesis
  proof (cases "find (\<lambda>r. ur_id r = ?k) (tbl s)")
    case None
    then have "?k \<notin> ur_id ` set (tbl s)" by (auto simp: find_None_iff_all)
    moreover from clash have "email_value (u_email u) \<in> ur_email ` set (tbl s)" by force
    ultimately obtain msg where
      "du_create d (create_data_of u) s = (Inl (PrismaKnown ''P2002'' [''email''] msg), s)"
      using create_taken [of "create_data_of u" s] by auto
    with None show ?thesis by (simp add: Repo_save_def catchP_def bindP_def find_unique_id)
  next
    case (Some r)
    with ver have v: "ur_version r = User_getExpectedVersion u" by (simp add: users_of_def)
    from update_taken [OF Some v, of "update_data_of (clock s) u"] clash obtain msg where
      "du_update d ?k (User_getExpectedVersion u) (update_data_of (clock s) u) s =
         (Inl (PrismaKnown ''P2002'' [''email''] msg), s)" by auto
    with Some show ?thesis by (simp add: Repo_save_def catchP_def bindP_def find_unique_id)
  qed
qed

lemma impl_delete:
  assumes "table_ok (tbl s)" and "users_of (tbl s) (uid_value i) \<noteq> None"
  shows "\<exists>s'. Repo_delete d te i s = (Inr (), s') \<and> table_ok (tbl s') \<and>
    users_of (tbl s') = (users_of (tbl s))(uid_value i := None)"
proof -
  from assms(2) have "uid_value i \<in> ur_id ` set (tbl s)" by (metis users_of_None)
  from delete_ok [OF this] obtain s' where "du_delete d (uid_value i) s = (Inr (), s')"
    and "tbl s' = filter (\<lambda>r. ur_id r \<noteq> uid_value i) (tbl s)" by blast
  then show ?thesis
    by (simp add: Repo_delete_def catchP_def bindP_def users_of_filter table_ok_filter [OF assms(1)])
qed

lemma impl_held_ok:
  assumes ok: "table_ok (tbl s)" and "users_of (tbl s) k = Some u"
  shows "storable u \<and> uid_value (e_id u) = k \<and> email_free (users_of (tbl s)) u \<and> u_domainEvents u = []"
proof -
  from assms obtain r where r: "r \<in> set (tbl s)" "ur_id r = k" "u = user_of_row r"
    by (auto simp: users_of_Some)
  have "row_ok r" using ok r(1) by (auto simp: table_ok_def list_all_iff)
  moreover have "email_free (users_of (tbl s)) u"
    using ok r by (auto simp: email_free_rows [OF ok] table_ok_def distinct_map inj_on_def)
  ultimately show ?thesis
    using r by (cases "Email_fromPersistence (ur_email r)")
      (simp add: row_ok_def storable_def user_of_row_def User_reconstitute_def new_User_def)
qed

lemma impl_contract:
  "user_repository (UserRepositoryImpl d te clock) (\<lambda>s. table_ok (tbl s)) (\<lambda>s. users_of (tbl s))"
proof (unfold_locales, goal_cases)
  case (9 s k u)
  then show ?case using impl_held_ok by blast
next
  case (3 s e)
  have "find (\<lambda>r. ur_email r = email_value e) (tbl s) = None"
    using 3 by (cases e) (force simp: find_None_iff_all dest: users_of_row)
  then show ?case
    by (simp add: UserRepositoryImpl_def impl_find_email [OF 3(1)])
qed (simp_all add: UserRepositoryImpl_def impl_find_id impl_find_email_Some impl_exists impl_save_new
    impl_save_update impl_save_conflict impl_save_taken impl_delete del: not_None_eq)

end

sublocale prisma_users \<subseteq> impl: user_repository "UserRepositoryImpl d te clock"
  "\<lambda>s. table_ok (tbl s)" "\<lambda>s. users_of (tbl s)" for te clock
  by (rule impl_contract)

section \<open>A table in memory\<close>

text \<open>One table that keeps Prisma's promises; the state is the time and the rows.\<close>

type_synonym memory_db = "int \<times> UserRow list"

definition mem_delegate :: "memory_db user_delegate" where
  "mem_delegate =
     \<lparr>du_findUniqueById = (\<lambda>k (t, rs). (Inr (find (\<lambda>r. ur_id r = k) rs), (t, rs))),
      du_findUniqueByEmail = (\<lambda>k (t, rs). (Inr (find (\<lambda>r. ur_email r = k) rs), (t, rs))),
      du_countByEmail = (\<lambda>k (t, rs). (Inr (length (filter (\<lambda>r. ur_email r = k) rs)), (t, rs))),
      du_update = (\<lambda>k n y (t, rs).
        case find (\<lambda>r. ur_id r = k) rs of
          Some r \<Rightarrow>
            if ur_version r \<noteq> n then (Inl (PrismaKnown ''P2025'' [] ''No record found''), (t, rs))
            else if list_ex (\<lambda>r'. ur_id r' \<noteq> k \<and> ur_email r' = uu_email y) rs
            then (Inl (PrismaKnown ''P2002'' [''email''] ''Unique constraint failed''), (t, rs))
            else (Inr (row_update y r), (t, map (\<lambda>r'. if ur_id r' = k then row_update y r' else r') rs))
        | None \<Rightarrow> (Inl (PrismaKnown ''P2025'' [] ''No record found''), (t, rs))),
      du_create = (\<lambda>x (t, rs).
        if uc_id x \<in> ur_id ` set rs
        then (Inl (PrismaKnown ''P2002'' [''id''] ''Unique constraint failed''), (t, rs))
        else if uc_email x \<in> ur_email ` set rs
        then (Inl (PrismaKnown ''P2002'' [''email''] ''Unique constraint failed''), (t, rs))
        else (Inr (row_of_create x t t), (t, rs @ [row_of_create x t t]))),
      du_delete = (\<lambda>k (t, rs).
        if k \<in> ur_id ` set rs then (Inr (), (t, filter (\<lambda>r. ur_id r \<noteq> k) rs))
        else (Inl (PrismaKnown ''P2025'' [] ''No record found''), (t, rs)))\<rparr>"

interpretation memdb: prisma_users mem_delegate snd
  by unfold_locales (auto simp: mem_delegate_def list_ex_iff split: prod.splits)

section \<open>Properties\<close>

text \<open>
  C6. Saving a new storable user whose email is free succeeds over any table that keeps Prisma's
  promises, returns the same data without pending events, and afterwards the user is found by
  identifier and by email, exactly as returned.
\<close>
theorem Repo_save_find_roundtrip:
  assumes "prisma_users d tbl" and "table_ok (tbl s)" and "storable u"
    and "users_of (tbl s) (uid_value (e_id u)) = None" and "email_free (users_of (tbl s)) u"
  shows "\<exists>u' s'. Repo_save d te clock u s = (Inr u', s') \<and> saved_as u u' \<and> table_ok (tbl s') \<and>
    Repo_findById d te (e_id u) s' = (Inr u', s') \<and>
    Repo_findByEmail d te (u_email u) s' = (Inr u', s') \<and>
    Repo_existsByEmail d te (u_email u) s' = (Inr True, s')"
  by (rule user_repository.save_then_find [OF prisma_users.impl_contract
        [OF assms(1), of te clock] assms(2-5)]) (auto simp: UserRepositoryImpl_def)

definition sample_uuid :: string where
  "sample_uuid = ''00000000-0000-4000-8000-000000000001''"

definition stored_user :: User where
  "stored_user =
     User_reconstitute (UniqueId sample_uuid) (Email ''a@b.c'') \<lparr>pw_rawValue = [], pw_hashedValue = Some ''h''\<rparr>
       ''Ann'' ''Lee'' ACTIVE True None 4 10 20"

definition stored_row :: UserRow where
  "stored_row = row_of_create (create_data_of stored_user) 10 20"

lemma storable_stored_user: "storable stored_user" "e_id stored_user = UniqueId sample_uuid"
proof -
  have "UniqueId_fromString sample_uuid = Inr (UniqueId sample_uuid)" by code_simp
  then show "storable stored_user" "e_id stored_user = UniqueId sample_uuid"
    by (simp_all add: storable_def stored_user_def User_reconstitute_def new_User_def
        Email_fromPersistence_def str_trim_def str_lower_def js_white_def char_lower_def)
qed

lemma table_ok_stored_row: "table_ok [stored_row]"
  using storable_create(1) [OF storable_stored_user(1)] by (simp add: table_ok_def stored_row_def)

theorem Repo_save_find_roundtrip_witness:
  "\<exists>u' s'. Repo_save mem_delegate (\<lambda>e i. e) fst stored_user (30, []) = (Inr u', s') \<and>
     Repo_findById mem_delegate (\<lambda>e i. e) (UniqueId sample_uuid) s' = (Inr u', s')"
  using Repo_save_find_roundtrip [OF memdb.prisma_users_axioms, of "(30, [])" stored_user "\<lambda>e i. e" fst]
    storable_stored_user
  by (auto simp: table_ok_def users_of_def email_free_def)



text \<open>
  A user whose password was never hashed is not refused: the row is created with an empty hash,
  and only then does mapping it back throw, so the caller sees a failure and the row stays.
\<close>
theorem Repo_save_unhashed_leaves_row:
  assumes "prisma_users d tbl" and "pw_hashedValue (u_password u) = None"
    and "UniqueId_fromString (uid_value (e_id u)) = Inr (e_id u)"
    and "uid_value (e_id u) \<notin> ur_id ` set (tbl s)" and "email_value (u_email u) \<notin> ur_email ` set (tbl s)"
  shows "\<exists>s' r. Repo_save d te clock u s =
      (Inl (te (JsError ''Password hash must be a non-empty string'') (Some (uid_value (e_id u)))), s') \<and>
    tbl s' = tbl s @ [r] \<and> ur_id r = uid_value (e_id u) \<and> ur_passwordHash r = []"
proof -
  obtain c m s' where "du_create d (create_data_of u) s = (Inr (row_of_create (create_data_of u) c m), s')"
    and "tbl s' = tbl s @ [row_of_create (create_data_of u) c m]"
    using prisma_users.create_ok [OF assms(1), of "create_data_of u" s] assms(4,5) by auto
  moreover have "find (\<lambda>r. ur_id r = uid_value (e_id u)) (tbl s) = None"
    using assms(4) by (metis users_of_None users_of_def map_option_is_None)
  ultimately show ?thesis
    using assms(2,3)
    by (auto simp: Repo_save_def catchP_def bindP_def prisma_users.find_unique_id [OF assms(1)]
        Repo_toDomain_def Password_fromHash_def row_of_create_def create_data_of_def)
qed

theorem Repo_save_unhashed_leaves_row_witness:
  "\<exists>s' r. Repo_save mem_delegate (\<lambda>e i. e) fst
      (stored_user\<lparr>u_password := \<lparr>pw_rawValue = ''x'', pw_hashedValue = None\<rparr>\<rparr>) (30, []) =
      (Inl (JsError ''Password hash must be a non-empty string''), s') \<and> snd s' = [r] \<and> ur_passwordHash r = []"
  using Repo_save_unhashed_leaves_row [OF memdb.prisma_users_axioms,
      of "stored_user\<lparr>u_password := \<lparr>pw_rawValue = ''x'', pw_hashedValue = None\<rparr>\<rparr>" "(30, [])" "\<lambda>e i. e" fst]
    storable_stored_user by (auto simp: storable_def)

end
