(* ===== verification/UserAggregate.thy ===== *)
theory UserAggregate
  imports UserEntity
begin

text \<open>
  The aggregate root \<open>src/domain/aggregates/user.aggregate.ts\<close>: a user with its role assignments
  and sessions. As for the entity, a mutating method gives the exception or the aggregate after the
  call; \<open>now\<close> is the \<open>new Date()\<close> a method of the root reads itself, \<open>clk\<close> and \<open>eid\<close> are those of
  the entity method it delegates to. The invariant of the root (no role twice, no live session for a
  suspended or inactive user) is proved for every state reachable through the root's methods.
\<close>

record RoleAssignment =
  ra_id :: UniqueId
  ra_roleId :: UniqueId
  ra_roleName :: string
  ra_grantedAt :: int
  ra_grantedBy :: "UniqueId option"

record SessionInfo =
  si_id :: UniqueId
  si_userAgent :: "string option"
  si_ipAddress :: "string option"
  si_expiresAt :: int
  si_createdAt :: int
  si_revokedAt :: "int option"

record UserAggregate =
  ag_user :: User
  ag_roles :: "RoleAssignment list"
  ag_sessions :: "SessionInfo list"

section \<open>Factories\<close>

definition Agg_create ::
  "UniqueId \<Rightarrow> string \<Rightarrow> (nat \<Rightarrow> int) \<Rightarrow> Email \<Rightarrow> Password \<Rightarrow> string \<Rightarrow> string \<Rightarrow> exn + UserAggregate" where
  "Agg_create newId eid clk email password firstName lastName =
     bindE (User_create newId eid clk email password firstName lastName)
       (\<lambda>user. Inr \<lparr>ag_user = user, ag_roles = [], ag_sessions = []\<rparr>)"

definition Agg_reconstitute ::
  "User \<Rightarrow> RoleAssignment list option \<Rightarrow> SessionInfo list option \<Rightarrow> UserAggregate" where
  "Agg_reconstitute user roles sessions =
     \<lparr>ag_user = user, ag_roles = (case roles of Some rs \<Rightarrow> rs | None \<Rightarrow> []),
      ag_sessions = (case sessions of Some ss \<Rightarrow> ss | None \<Rightarrow> [])\<rparr>"

definition Agg_version :: "UserAggregate \<Rightarrow> int" where
  "Agg_version a = u_version (ag_user a)"

section \<open>Roles\<close>

definition Agg_assignRole :: "RoleAssignment \<Rightarrow> UserAggregate \<Rightarrow> exn + UserAggregate" where
  "Agg_assignRole role a =
     (if list_ex (\<lambda>r. UniqueId_equals (ra_roleId r) (ra_roleId role)) (ag_roles a)
      then Inl (JsError (''Role \"'' @ ra_roleName role @ ''\" is already assigned to this user.''))
      else Inr (a\<lparr>ag_roles := ag_roles a @ [role]\<rparr>))"

definition Agg_removeRole :: "UniqueId \<Rightarrow> UserAggregate \<Rightarrow> bool \<times> UserAggregate" where
  "Agg_removeRole roleId a =
     (let initialLength = length (ag_roles a);
          roles = filter (\<lambda>r. \<not> UniqueId_equals (ra_roleId r) roleId) (ag_roles a)
      in (length roles < initialLength, a\<lparr>ag_roles := roles\<rparr>))"

definition Agg_hasRole :: "UniqueId \<Rightarrow> UserAggregate \<Rightarrow> bool" where
  "Agg_hasRole roleId a \<longleftrightarrow> list_ex (\<lambda>r. UniqueId_equals (ra_roleId r) roleId) (ag_roles a)"

definition Agg_hasRoleByName :: "string \<Rightarrow> UserAggregate \<Rightarrow> bool" where
  "Agg_hasRoleByName roleName a \<longleftrightarrow> list_ex (\<lambda>r. ra_roleName r = roleName) (ag_roles a)"

section \<open>Sessions\<close>

definition Agg_addSession :: "SessionInfo \<Rightarrow> UserAggregate \<Rightarrow> exn + UserAggregate" where
  "Agg_addSession session a =
     (if \<not> User_isActive (ag_user a)
      then Inl (JsError ''Cannot add a session for a non-active user.'')
      else if \<not> u_emailVerified (ag_user a)
      then Inl (JsError ''Cannot add a session for a user with unverified email.'')
      else Inr (a\<lparr>ag_sessions := ag_sessions a @ [session]\<rparr>))"

definition Agg_revokeSession :: "UniqueId \<Rightarrow> int \<Rightarrow> UserAggregate \<Rightarrow> exn + UserAggregate" where
  "Agg_revokeSession sessionId now a =
     (case find_index (\<lambda>s. UniqueId_equals (si_id s) sessionId) (ag_sessions a) of
        None \<Rightarrow> Inl (JsError ''Session not found.'')
      | Some sessionIndex \<Rightarrow>
          (let session = ag_sessions a ! sessionIndex
           in if si_revokedAt session \<noteq> None
              then Inl (JsError ''Session is already revoked.'')
              else Inr (a\<lparr>ag_sessions := take sessionIndex (ag_sessions a) @
                            [session\<lparr>si_revokedAt := Some now\<rparr>] @
                            drop (sessionIndex + 1) (ag_sessions a)\<rparr>)))"

definition Agg_getActiveSessions :: "int \<Rightarrow> UserAggregate \<Rightarrow> SessionInfo list" where
  "Agg_getActiveSessions now a =
     filter (\<lambda>s. si_revokedAt s = None \<and> now < si_expiresAt s) (ag_sessions a)"

definition Agg_revokeAllSessions :: "int \<Rightarrow> UserAggregate \<Rightarrow> UserAggregate" where
  "Agg_revokeAllSessions now a =
     a\<lparr>ag_sessions := map (\<lambda>s. if si_revokedAt s = None then s\<lparr>si_revokedAt := Some now\<rparr> else s)
                          (ag_sessions a)\<rparr>"

section \<open>Delegated methods\<close>

definition on_user :: "(User \<Rightarrow> exn + User) \<Rightarrow> UserAggregate \<Rightarrow> exn + UserAggregate" where
  "on_user f a = bindE (f (ag_user a)) (\<lambda>u. Inr (a\<lparr>ag_user := u\<rparr>))"

definition Agg_activate :: "(nat \<Rightarrow> int) \<Rightarrow> string \<Rightarrow> UserAggregate \<Rightarrow> exn + UserAggregate" where
  "Agg_activate clk eid a = on_user (User_activate clk eid) a"

definition Agg_suspend :: "(nat \<Rightarrow> int) \<Rightarrow> string \<Rightarrow> int \<Rightarrow> UserAggregate \<Rightarrow> exn + UserAggregate" where
  "Agg_suspend clk eid now a =
     bindE (on_user (User_suspend clk eid) a) (\<lambda>a'. Inr (Agg_revokeAllSessions now a'))"

definition Agg_deactivate :: "(nat \<Rightarrow> int) \<Rightarrow> string \<Rightarrow> int \<Rightarrow> UserAggregate \<Rightarrow> exn + UserAggregate" where
  "Agg_deactivate clk eid now a =
     bindE (on_user (User_deactivate clk eid) a) (\<lambda>a'. Inr (Agg_revokeAllSessions now a'))"

definition Agg_verifyEmail :: "(nat \<Rightarrow> int) \<Rightarrow> string \<Rightarrow> UserAggregate \<Rightarrow> exn + UserAggregate" where
  "Agg_verifyEmail clk eid a = on_user (User_verifyEmail clk eid) a"

definition Agg_recordLogin :: "(nat \<Rightarrow> int) \<Rightarrow> UserAggregate \<Rightarrow> exn + UserAggregate" where
  "Agg_recordLogin clk a = on_user (User_recordLogin clk) a"

definition Agg_changeEmail :: "(nat \<Rightarrow> int) \<Rightarrow> Email \<Rightarrow> UserAggregate \<Rightarrow> UserAggregate" where
  "Agg_changeEmail clk newEmail a = a\<lparr>ag_user := User_changeEmail clk newEmail (ag_user a)\<rparr>"

definition Agg_changePassword :: "(nat \<Rightarrow> int) \<Rightarrow> Password \<Rightarrow> UserAggregate \<Rightarrow> UserAggregate" where
  "Agg_changePassword clk newPassword a = a\<lparr>ag_user := User_changePassword clk newPassword (ag_user a)\<rparr>"

definition Agg_updateProfile ::
  "(nat \<Rightarrow> int) \<Rightarrow> string \<Rightarrow> string \<Rightarrow> UserAggregate \<Rightarrow> exn + UserAggregate" where
  "Agg_updateProfile clk firstName lastName a = on_user (User_updateProfile clk firstName lastName) a"

definition Agg_pullDomainEvents :: "UserAggregate \<Rightarrow> DomainEvent list \<times> UserAggregate" where
  "Agg_pullDomainEvents a =
     (case User_pullDomainEvents (ag_user a) of (events, u) \<Rightarrow> (events, a\<lparr>ag_user := u\<rparr>))"

definition Agg_hasDomainEvents :: "UserAggregate \<Rightarrow> bool" where
  "Agg_hasDomainEvents a = User_hasDomainEvents (ag_user a)"

definition role_toPrimitives :: "RoleAssignment \<Rightarrow> json" where
  "role_toPrimitives r =
     JObj [(''id'', JStr (UniqueId_toString (ra_id r))), (''roleId'', JStr (UniqueId_toString (ra_roleId r))),
           (''roleName'', JStr (ra_roleName r)), (''grantedAt'', JDate (ra_grantedAt r)),
           (''grantedBy'', json_opt_str (map_option UniqueId_toString (ra_grantedBy r)))]"

definition session_toPrimitives :: "SessionInfo \<Rightarrow> json" where
  "session_toPrimitives s =
     JObj [(''id'', JStr (UniqueId_toString (si_id s))), (''userAgent'', json_opt_str (si_userAgent s)),
           (''ipAddress'', json_opt_str (si_ipAddress s)), (''expiresAt'', JDate (si_expiresAt s)),
           (''createdAt'', JDate (si_createdAt s)), (''revokedAt'', json_opt_date (si_revokedAt s))]"

definition Agg_toPrimitives :: "UserAggregate \<Rightarrow> json" where
  "Agg_toPrimitives a =
     JObj [(''user'', JObj (User_toPrimitives (ag_user a))),
           (''roles'', JArr (map role_toPrimitives (ag_roles a))),
           (''sessions'', JArr (map session_toPrimitives (ag_sessions a)))]"

section \<open>Calls as data, reachable aggregates\<close>

datatype AggOp =
    AgUser UserOp
  | AgAssignRole RoleAssignment
  | AgRemoveRole UniqueId
  | AgAddSession SessionInfo
  | AgRevokeSession UniqueId
  | AgRevokeAll
  | AgPull

fun agg_exec :: "AggOp \<Rightarrow> (nat \<Rightarrow> int) \<Rightarrow> string \<Rightarrow> int \<Rightarrow> UserAggregate \<Rightarrow> exn + UserAggregate" where
  "agg_exec (AgUser OpActivate) clk eid now a = Agg_activate clk eid a"
| "agg_exec (AgUser OpSuspend) clk eid now a = Agg_suspend clk eid now a"
| "agg_exec (AgUser OpDeactivate) clk eid now a = Agg_deactivate clk eid now a"
| "agg_exec (AgUser OpVerifyEmail) clk eid now a = Agg_verifyEmail clk eid a"
| "agg_exec (AgUser OpRecordLogin) clk eid now a = Agg_recordLogin clk a"
| "agg_exec (AgUser (OpChangeEmail e)) clk eid now a = Inr (Agg_changeEmail clk e a)"
| "agg_exec (AgUser (OpChangePassword p)) clk eid now a = Inr (Agg_changePassword clk p a)"
| "agg_exec (AgUser (OpUpdateProfile fn ln)) clk eid now a = Agg_updateProfile clk fn ln a"
| "agg_exec (AgAssignRole r) clk eid now a = Agg_assignRole r a"
| "agg_exec (AgRemoveRole i) clk eid now a = Inr (snd (Agg_removeRole i a))"
| "agg_exec (AgAddSession s) clk eid now a = Agg_addSession s a"
| "agg_exec (AgRevokeSession i) clk eid now a = Agg_revokeSession i now a"
| "agg_exec AgRevokeAll clk eid now a = Inr (Agg_revokeAllSessions now a)"
| "agg_exec AgPull clk eid now a = Inr (snd (Agg_pullDomainEvents a))"

inductive agg_reachable :: "UserAggregate \<Rightarrow> bool" where
  agg_created: "Agg_create newId eid clk em pw fn ln = Inr a \<Longrightarrow> agg_reachable a"
| agg_called: "agg_reachable a \<Longrightarrow> agg_exec op clk eid now a = Inr a' \<Longrightarrow> agg_reachable a'"

inductive_cases agg_reachable_cases: "agg_reachable a"

definition locked_out :: "User \<Rightarrow> bool" where
  "locked_out u \<longleftrightarrow> u_status u = SUSPENDED \<or> u_status u = INACTIVE"

definition revoked :: "SessionInfo \<Rightarrow> bool" where
  "revoked s \<longleftrightarrow> si_revokedAt s \<noteq> None"

definition agg_inv :: "UserAggregate \<Rightarrow> bool" where
  "agg_inv a \<longleftrightarrow>
     distinct (map ra_roleId (ag_roles a)) \<and>
     (locked_out (ag_user a) \<longrightarrow> list_all revoked (ag_sessions a)) \<and>
     wf_user (ag_user a)"

section \<open>Lemmas\<close>

lemma UniqueId_equals_iff [simp]: "UniqueId_equals a b \<longleftrightarrow> a = b"
  by (cases a; cases b) (simp add: UniqueId_equals_def)

lemmas agg_user_defs =
  Agg_activate_def Agg_suspend_def Agg_deactivate_def Agg_verifyEmail_def Agg_recordLogin_def
  Agg_changeEmail_def Agg_changePassword_def Agg_updateProfile_def on_user_def

fun locking :: "UserOp \<Rightarrow> bool" where
  "locking OpSuspend = True"
| "locking OpDeactivate = True"
| "locking _ = False"

text \<open>A delegated call: the entity's call, and for the locking ones the revocation of all sessions.\<close>

lemma agg_user_call:
  "agg_exec (AgUser op) clk eid now a = Inr a' \<longleftrightarrow>
     (\<exists>u. user_exec op clk eid (ag_user a) = Inr u \<and>
        a' = (if locking op then Agg_revokeAllSessions now (a\<lparr>ag_user := u\<rparr>) else a\<lparr>ag_user := u\<rparr>))"
  by (cases op) (auto simp: agg_user_defs bindE_eq_Inr)

lemma revokeAll_revokes: "list_all revoked (ag_sessions (Agg_revokeAllSessions now a))"
  by (auto simp: Agg_revokeAllSessions_def list_all_iff revoked_def)

lemma revokeAll_frame [simp]:
  "ag_user (Agg_revokeAllSessions now a) = ag_user a"
  "ag_roles (Agg_revokeAllSessions now a) = ag_roles a"
  by (simp_all add: Agg_revokeAllSessions_def)

lemma not_locking_status:
  "user_exec op clk eid u = Inr u' \<Longrightarrow> \<not> locking op \<Longrightarrow> locked_out u' \<Longrightarrow> locked_out u"
  by (cases op) (auto simp: user_op_defs bindE_eq_Inr Let_def locked_out_def split: if_splits)

lemma agg_inv_user_call:
  assumes "agg_exec (AgUser op) clk eid now a = Inr a'" and "agg_inv a"
  shows "agg_inv a'"
proof -
  from assms(1) obtain u where u: "user_exec op clk eid (ag_user a) = Inr u"
    and a': "a' = (if locking op then Agg_revokeAllSessions now (a\<lparr>ag_user := u\<rparr>) else a\<lparr>ag_user := u\<rparr>)"
    unfolding agg_user_call by blast
  from u assms(2) have wf: "wf_user u" by (auto simp: agg_inv_def intro: wf_user_exec)
  show ?thesis
  proof (cases "locking op")
    case True
    with a' assms(2) wf show ?thesis by (simp add: agg_inv_def revokeAll_revokes)
  next
    case False
    with a' assms(2) wf u show ?thesis by (auto simp: agg_inv_def dest: not_locking_status)
  qed
qed

text \<open>\<open>revokeSession\<close> rewrites one position: the first session with the given identifier.\<close>

lemma revokeSession_Inr:
  "Agg_revokeSession sid now a = Inr a' \<longleftrightarrow>
     (\<exists>i. find_index (\<lambda>s. si_id s = sid) (ag_sessions a) = Some i \<and>
        si_revokedAt (ag_sessions a ! i) = None \<and>
        a' = a\<lparr>ag_sessions := (ag_sessions a)[i := (ag_sessions a ! i)\<lparr>si_revokedAt := Some now\<rparr>]\<rparr>)"
  by (auto simp: Agg_revokeSession_def Let_def upd_conv_take_nth_drop dest!: find_index_Some
      split: option.splits if_splits)

lemma agg_inv_exec:
  assumes "agg_exec op clk eid now a = Inr a'" and "agg_inv a"
  shows "agg_inv a'"
proof (cases op)
  case (AgUser uop)
  with assms show ?thesis using agg_inv_user_call by blast
next
  case (AgAssignRole r)
  with assms show ?thesis
    by (fastforce simp: Agg_assignRole_def agg_inv_def list_ex_iff split: if_splits)
next
  case (AgRemoveRole i)
  with assms show ?thesis
    by (auto simp: Agg_removeRole_def agg_inv_def Let_def distinct_map_filter)
next
  case (AgAddSession s)
  with assms show ?thesis
    by (auto simp: Agg_addSession_def agg_inv_def User_isActive_def locked_out_def split: if_splits)
next
  case (AgRevokeSession i)
  with assms show ?thesis
    by (auto simp: revokeSession_Inr agg_inv_def list_all_iff revoked_def dest!: set_list_update_cases)
next
  case AgRevokeAll
  with assms show ?thesis by (auto simp: agg_inv_def revokeAll_revokes)
next
  case AgPull
  with assms show ?thesis
    by (auto simp: Agg_pullDomainEvents_def User_pullDomainEvents_def agg_inv_def locked_out_def wf_user_def)
qed

lemma agg_inv_reachable: "agg_reachable a \<Longrightarrow> agg_inv a"
proof (induction rule: agg_reachable.induct)
  case (agg_created newId eid clk em pw fn ln a)
  then obtain u where "User_create newId eid clk em pw fn ln = Inr u"
    and "a = \<lparr>ag_user = u, ag_roles = [], ag_sessions = []\<rparr>"
    by (auto simp: Agg_create_def bindE_eq_Inr)
  then show ?case
    by (auto simp: agg_inv_def intro: wf_user_reachable user_reachable.created)
next
  case (agg_called a op clk eid now a')
  then show ?case by (blast intro: agg_inv_exec)
qed

section \<open>Properties\<close>

definition sample_session :: SessionInfo where
  "sample_session = \<lparr>si_id = UniqueId ''s'', si_userAgent = None, si_ipAddress = None,
     si_expiresAt = 900, si_createdAt = 1, si_revokedAt = None\<rparr>"

definition sample_aggregate :: "UserStatus \<Rightarrow> UserAggregate" where
  "sample_aggregate st =
     Agg_reconstitute (sample_user\<lparr>u_status := st\<rparr>) None (Some [sample_session])"

text \<open>
  C8. In every state reachable through the aggregate root no role is assigned twice, the user is
  well-formed, and a suspended or inactive user has no live session at any time.
\<close>
theorem Aggregate_invariant:
  assumes "agg_reachable a"
  shows "distinct (map ra_roleId (ag_roles a)) \<and> wf_user (ag_user a) \<and>
    (locked_out (ag_user a) \<longrightarrow> Agg_getActiveSessions t a = [])"
  using agg_inv_reachable [OF assms]
  by (auto simp: agg_inv_def Agg_getActiveSessions_def list_all_iff filter_empty_conv revoked_def)

theorem Aggregate_invariant_witness:
  "\<exists>a. Agg_create (UniqueId ''i'') ''e'' (\<lambda>k. 1) (Email ''a@b.c'') \<lparr>pw_rawValue = [], pw_hashedValue = None\<rparr>
      ''Ann'' ''Lee'' = Inr a \<and> wf_user (ag_user a)"
proof -
  obtain a where a: "Agg_create (UniqueId ''i'') ''e'' (\<lambda>k. 1) (Email ''a@b.c'')
      \<lparr>pw_rawValue = [], pw_hashedValue = None\<rparr> ''Ann'' ''Lee'' = Inr a"
    by (simp add: Agg_create_def User_create_def validateName_def str_trim_def js_white_def)
  then have "agg_reachable a" by (rule agg_reachable.agg_created)
  with a Aggregate_invariant show ?thesis by blast
qed

text \<open>
  Suspending through the root either throws (already suspended) and changes nothing, or suspends
  the user and revokes every session: none is active afterwards, the count is unchanged, and sessions
  revoked earlier keep their revocation time.
\<close>
theorem Aggregate_suspend_effect:
  "case Agg_suspend clk eid now a of
     Inl e \<Rightarrow> u_status (ag_user a) = SUSPENDED
   | Inr a' \<Rightarrow> u_status (ag_user a) \<noteq> SUSPENDED \<and> u_status (ag_user a') = SUSPENDED \<and>
       ag_roles a' = ag_roles a \<and> (\<forall>t. Agg_getActiveSessions t a' = []) \<and>
       map si_revokedAt (ag_sessions a') =
         map (\<lambda>s. case si_revokedAt s of None \<Rightarrow> Some now | Some r \<Rightarrow> Some r) (ag_sessions a)"
proof (cases "Agg_suspend clk eid now a")
  case (Inl e)
  then show ?thesis by (auto simp: agg_user_defs bindE_eq_Inl User_suspend_def Let_def split: if_splits)
next
  case (Inr a')
  then obtain u where u: "User_suspend clk eid (ag_user a) = Inr u"
    and a': "a' = Agg_revokeAllSessions now (a\<lparr>ag_user := u\<rparr>)"
    by (auto simp: agg_user_defs bindE_eq_Inr)
  from u have "u_status (ag_user a) \<noteq> SUSPENDED" "u_status u = SUSPENDED"
    by (auto simp: user_op_defs Let_def split: if_splits)
  moreover have "Agg_getActiveSessions t a' = []" for t
    using revokeAll_revokes [of now "a\<lparr>ag_user := u\<rparr>"] a'
    by (auto simp: Agg_getActiveSessions_def list_all_iff filter_empty_conv revoked_def)
  ultimately show ?thesis
    using Inr a' by (auto simp: Agg_revokeAllSessions_def split: option.split)
qed

text \<open>
  \<open>revokeSession\<close> succeeds exactly when the first session with that identifier exists and is live;
  it then revokes that one session and leaves all others, and a second call for it throws.
\<close>
theorem Aggregate_revokeSession_once:
  assumes "Agg_revokeSession sid now a = Inr a'"
  shows "(\<exists>i s. find_index (\<lambda>s. si_id s = sid) (ag_sessions a) = Some i \<and> s = ag_sessions a ! i \<and>
            si_revokedAt s = None \<and>
            ag_sessions a' = (ag_sessions a)[i := s\<lparr>si_revokedAt := Some now\<rparr>]) \<and>
    Agg_revokeSession sid now' a' = Inl (JsError ''Session is already revoked.'')"
proof -
  from assms obtain i where i: "find_index (\<lambda>s. si_id s = sid) (ag_sessions a) = Some i"
    and live: "si_revokedAt (ag_sessions a ! i) = None"
    and a': "ag_sessions a' = (ag_sessions a)[i := (ag_sessions a ! i)\<lparr>si_revokedAt := Some now\<rparr>]"
    unfolding revokeSession_Inr by auto
  have "find_index P (xs[i := v]) = Some i"
    if "find_index P xs = Some i" "P v" for P :: "SessionInfo \<Rightarrow> bool" and xs v
    using that by (induction xs arbitrary: i) (auto split: if_splits nat.splits)
  then have i': "find_index (\<lambda>s. si_id s = sid) (ag_sessions a') = Some i"
    using i a' find_index_Some [OF i] by simp
  have "Agg_revokeSession sid now' a' = Inl (JsError ''Session is already revoked.'')"
    using i' a' find_index_Some [OF i] by (simp add: Agg_revokeSession_def Let_def)
  with i live a' show ?thesis by blast
qed

theorem Aggregate_revokeSession_once_witness:
  "\<exists>a'. Agg_revokeSession (UniqueId ''s'') 50 (sample_aggregate ACTIVE) = Inr a' \<and>
     Agg_revokeSession (UniqueId ''s'') 60 a' = Inl (JsError ''Session is already revoked.'')"
proof -
  obtain a' where a': "Agg_revokeSession (UniqueId ''s'') 50 (sample_aggregate ACTIVE) = Inr a'"
    by (simp add: Agg_revokeSession_def sample_aggregate_def Agg_reconstitute_def sample_session_def)
  from Aggregate_revokeSession_once [OF this] a' show ?thesis by blast
qed

text \<open>
  Assigning and removing roles: \<open>assignRole\<close> succeeds exactly when the role is not held, afterwards
  it is held; \<open>removeRole\<close> reports whether it was held, afterwards it is not, and other roles are kept.
\<close>
theorem Aggregate_roles:
  "(\<exists>a'. Agg_assignRole r a = Inr a' \<and> Agg_hasRole (ra_roleId r) a' \<and> ag_user a' = ag_user a) =
     (\<not> Agg_hasRole (ra_roleId r) a) \<and>
   fst (Agg_removeRole i a) = Agg_hasRole i a \<and> \<not> Agg_hasRole i (snd (Agg_removeRole i a)) \<and>
   (Agg_hasRole j (snd (Agg_removeRole i a)) = (j \<noteq> i \<and> Agg_hasRole j a))"
proof -
  have "fst (Agg_removeRole i a) = Agg_hasRole i a"
    by (auto simp: Agg_removeRole_def Agg_hasRole_def Let_def list_ex_iff length_filter_less)
      (metis (mono_tags, lifting) filter_True less_irrefl)
  then show ?thesis
    by (auto simp: Agg_assignRole_def Agg_hasRole_def Agg_removeRole_def Let_def list_ex_iff)
qed

end
