(* ===== verification/Cache.thy ===== *)
theory Cache
  imports Errors
begin

text \<open>
  \<open>src/infrastructure/cache/cache.service.ts\<close>: the cache service and the \<open>Cached\<close> method
  decorator. The Redis client (ioredis) is third-party: the record \<open>redis_client\<close> of the commands
  the service calls, a parameter of every operation, over a state \<open>'r\<close> of its own. What ioredis and Redis
  document is the locale \<open>redis_store\<close>: entries with the instant they expire at, the server's clock, and whether it is
  reachable; clock and reachability may change between two calls of a service, not within one command. A client with a \<open>keyPrefix\<close> prepends it to the keys of every command, while \<open>SCAN\<close> neither prepends it to
  the pattern nor strips it from the keys it returns. The contract the rest of the program uses (\<open>has\<close> and
  \<open>get\<close> after \<open>set\<close>) is the locale \<open>cache_port\<close>; a \<open>sublocale\<close> proves it for the service.

  A stored text is represented by what \<open>JSON.parse\<close> makes of it: \<open>Text v\<close>, or \<open>Garbled\<close> for a text
  that is no JSON (\<open>JSON.stringify(undefined)\<close> yields none). \<open>JSON.stringify\<close> leaves properties that are undefined out
  and writes an undefined element of an array as null.
\<close>

datatype stored = Text json | Garbled

fun json_clean :: "json \<Rightarrow> json" where
  "json_clean (JArr xs) = JArr (map (\<lambda>v. if v = JUndef then JNull else json_clean v) xs)"
| "json_clean (JObj ps) = JObj (concat (map (\<lambda>(k, v). if v = JUndef then [] else [(k, json_clean v)]) ps))"
| "json_clean v = v"

definition json_stringify :: "json \<Rightarrow> stored" where
  "json_stringify v = (if v = JUndef then Garbled else Text (json_clean v))"

fun json_parse :: "stored \<Rightarrow> exn + json" where
  "json_parse (Text v) = Inr v"
| "json_parse Garbled = Inl (JsError ''Unexpected end of JSON input'')"

section \<open>The client and the state\<close>

text \<open>\<open>rd_scan\<close> gives the batches the stream delivers and the error that ends it, if any.\<close>

record 'r redis_client =
  rd_get :: "string \<Rightarrow> ('r, exn, stored option) proc"
  rd_setex :: "string \<Rightarrow> int \<Rightarrow> stored \<Rightarrow> ('r, exn, unit) proc"
  rd_del :: "string list \<Rightarrow> ('r, exn, nat) proc"
  rd_exists :: "string \<Rightarrow> ('r, exn, nat) proc"
  rd_scan :: "string \<Rightarrow> 'r \<Rightarrow> string list list \<times> exn option"
  rd_exec_dels :: "string list \<Rightarrow> ('r, exn, unit) proc"
  rd_ping :: "('r, exn, string) proc"

record CacheStats =
  cs_hits :: nat
  cs_misses :: nat
  cs_sets :: nat
  cs_deletes :: nat
  cs_errors :: nat

record 'r cache_state =
  ca_stats :: CacheStats
  ca_redis :: 'r

definition on_redis :: "('r, exn, 'a) proc \<Rightarrow> ('r cache_state, exn, 'a) proc" where
  "on_redis m = (\<lambda>s. case m (ca_redis s) of (x, r) \<Rightarrow> (x, s\<lparr>ca_redis := r\<rparr>))"

definition bump :: "(CacheStats \<Rightarrow> CacheStats) \<Rightarrow> ('r cache_state, exn, unit) proc" where
  "bump f = (\<lambda>s. (Inr (), s\<lparr>ca_stats := f (ca_stats s)\<rparr>))"

definition bump_error :: "('r cache_state, exn, unit) proc" where
  "bump_error = bump (\<lambda>st. st\<lparr>cs_errors := cs_errors st + 1\<rparr>)"

definition Cache_init :: "'r \<Rightarrow> 'r cache_state" where
  "Cache_init r = \<lparr>ca_stats = \<lparr>cs_hits = 0, cs_misses = 0, cs_sets = 0, cs_deletes = 0, cs_errors = 0\<rparr>,
     ca_redis = r\<rparr>"

text \<open>The options of a call: time to live in seconds, namespace.\<close>

record CacheOptions =
  co_ttl :: "int option"
  co_namespace :: "string option"

definition no_options :: CacheOptions where
  "no_options = \<lparr>co_ttl = None, co_namespace = None\<rparr>"

definition Cache_defaultTtl :: int where "Cache_defaultTtl = 300"

text \<open>The reconnection delay: \<open>null\<close> (give up) after ten attempts.\<close>

definition Cache_retryStrategy :: "int \<Rightarrow> int option" where
  "Cache_retryStrategy n = (if 10 < n then None else Some (min (n * 200) 5000))"

section \<open>Operations\<close>

definition Cache_buildKey :: "string \<Rightarrow> string option \<Rightarrow> string" where
  "Cache_buildKey key namespace =
     (let ns = (case namespace of Some n \<Rightarrow> n | None \<Rightarrow> '''')
      in if ns \<noteq> [] then ns @ '':'' @ key else key)"

definition Cache_get :: "'r redis_client \<Rightarrow> string \<Rightarrow> CacheOptions \<Rightarrow> ('r cache_state, exn, json) proc" where
  "Cache_get c key opts =
     (let fullKey = Cache_buildKey key (co_namespace opts)
      in catchP
        (bindP (on_redis (rd_get c fullKey)) (\<lambda>raw. case raw of
            None \<Rightarrow> bindP (bump (\<lambda>st. st\<lparr>cs_misses := cs_misses st + 1\<rparr>)) (\<lambda>_. returnP JNull)
          | Some t \<Rightarrow> bindP (bump (\<lambda>st. st\<lparr>cs_hits := cs_hits st + 1\<rparr>)) (\<lambda>_. liftP (json_parse t))))
        (\<lambda>error. bindP bump_error (\<lambda>_. throwP (CacheError (''Cache get failed: '' @ exn_message error)))))"

definition Cache_set ::
  "'r redis_client \<Rightarrow> string \<Rightarrow> json \<Rightarrow> CacheOptions \<Rightarrow> ('r cache_state, exn, unit) proc" where
  "Cache_set c key value opts =
     (let fullKey = Cache_buildKey key (co_namespace opts);
          ttl = (case co_ttl opts of Some t \<Rightarrow> t | None \<Rightarrow> Cache_defaultTtl)
      in catchP
        (bindP (on_redis (rd_setex c fullKey ttl (json_stringify value))) (\<lambda>_.
           bump (\<lambda>st. st\<lparr>cs_sets := cs_sets st + 1\<rparr>)))
        (\<lambda>error. bindP bump_error (\<lambda>_. throwP (CacheError (''Cache set failed: '' @ exn_message error)))))"

definition Cache_delete ::
  "'r redis_client \<Rightarrow> string list \<Rightarrow> CacheOptions \<Rightarrow> ('r cache_state, exn, unit) proc" where
  "Cache_delete c keys opts =
     (let fullKeys = map (\<lambda>k. Cache_buildKey k (co_namespace opts)) keys
      in catchP
        (if length fullKeys > 0
         then bindP (on_redis (rd_del c fullKeys)) (\<lambda>_.
                bump (\<lambda>st. st\<lparr>cs_deletes := cs_deletes st + length fullKeys\<rparr>))
         else returnP ())
        (\<lambda>error. bindP bump_error (\<lambda>_. throwP (CacheError (''Cache delete failed: '' @ exn_message error)))))"

definition Cache_has :: "'r redis_client \<Rightarrow> string \<Rightarrow> CacheOptions \<Rightarrow> ('r cache_state, exn, bool) proc" where
  "Cache_has c key opts =
     catchP (bindP (on_redis (rd_exists c (Cache_buildKey key (co_namespace opts))))
              (\<lambda>exists. returnP (exists = 1)))
       (\<lambda>error. bindP bump_error (\<lambda>_. returnP False))"

definition Cache_getOrSet ::
  "'r redis_client \<Rightarrow> string \<Rightarrow> ('r cache_state, exn, json) proc \<Rightarrow> CacheOptions \<Rightarrow>
   ('r cache_state, exn, json) proc" where
  "Cache_getOrSet c key factory opts =
     bindP (Cache_get c key opts) (\<lambda>cached.
       if cached \<noteq> JNull then returnP cached
       else bindP factory (\<lambda>value. bindP (Cache_set c key value opts) (\<lambda>_. returnP value)))"

text \<open>
  The pipeline is executed only when the whole stream was read; \<open>deleted\<close> counts the keys queued up
  to an error, and is returned in any case.
\<close>

definition Cache_invalidatePattern :: "'r redis_client \<Rightarrow> string \<Rightarrow> ('r cache_state, exn, nat) proc" where
  "Cache_invalidatePattern c pattern =
     (\<lambda>s. let fullPattern = Cache_buildKey pattern None;
              (batches, broken) = rd_scan c fullPattern (ca_redis s);
              keys = concat batches;
              deleted = length keys
          in catchP
               (case broken of
                  Some e \<Rightarrow> throwP e
                | None \<Rightarrow> bindP (on_redis (rd_exec_dels c keys)) (\<lambda>_.
                    bindP (bump (\<lambda>st. st\<lparr>cs_deletes := cs_deletes st + deleted\<rparr>)) (\<lambda>_. returnP deleted)))
               (\<lambda>error. bindP bump_error (\<lambda>_. returnP deleted)) s)"

definition Cache_getStats :: "'r cache_state \<Rightarrow> CacheStats" where
  "Cache_getStats s = ca_stats s"

definition Cache_isHealthy :: "'r redis_client \<Rightarrow> ('r cache_state, exn, bool) proc" where
  "Cache_isHealthy c =
     catchP (bindP (on_redis (rd_ping c)) (\<lambda>result. returnP (result = ''PONG'')))
       (\<lambda>error. returnP False)"

text \<open>
  The decorator: \<open>None\<close> for an instance without a cache service. \<open>args\<close> are the arguments as
  \<open>join\<close> prints them.
\<close>

definition Cached_key :: "string \<Rightarrow> string list \<Rightarrow> string" where
  "Cached_key key args = key @ '':'' @ str_join '':'' args"

definition Cached ::
  "string \<Rightarrow> CacheOptions \<Rightarrow> 'r redis_client option \<Rightarrow>
   (string list \<Rightarrow> ('r cache_state, exn, json) proc) \<Rightarrow> string list \<Rightarrow> ('r cache_state, exn, json) proc" where
  "Cached key opts cacheService originalMethod args =
     (case cacheService of
        None \<Rightarrow> originalMethod args
      | Some c \<Rightarrow>
          (let cacheKey = Cached_key key args
           in bindP (Cache_get c cacheKey opts) (\<lambda>cached.
                if cached \<noteq> JNull then returnP cached
                else bindP (originalMethod args) (\<lambda>result.
                       bindP (Cache_set c cacheKey result opts) (\<lambda>_. returnP result)))))"

lemmas cache_defs = Cache_get_def Cache_set_def Cache_has_def Let_def catchP_def bindP_def
  on_redis_def bump_def bump_error_def

section \<open>What Redis and ioredis promise\<close>

text \<open>The live text under a key: its entry, if it has not expired.\<close>

definition live_text :: "('r \<Rightarrow> string \<rightharpoonup> stored \<times> int) \<Rightarrow> ('r \<Rightarrow> int) \<Rightarrow> 'r \<Rightarrow> string \<rightharpoonup> stored" where
  "live_text entries clock r k = (case entries r k of Some (t, e) \<Rightarrow> if clock r < e then Some t else None | None \<Rightarrow> None)"

definition same_server ::
  "('r \<Rightarrow> string \<rightharpoonup> stored \<times> int) \<Rightarrow> ('r \<Rightarrow> int) \<Rightarrow> ('r \<Rightarrow> bool) \<Rightarrow> 'r \<Rightarrow> 'r \<Rightarrow> bool" where
  "same_server entries clock up r r' \<longleftrightarrow> entries r' = entries r \<and> clock r' = clock r \<and> up r' = up r"

lemma same_live:
  assumes "same_server entries clock up r r'"
  shows "live_text entries clock r' = live_text entries clock r" "up r' = up r"
proof -
  from assms have "entries r' = entries r" "clock r' = clock r" and u: "up r' = up r" by (simp_all only: same_server_def)
  then show "live_text entries clock r' = live_text entries clock r" by (intro ext) (simp only: live_text_def)
  show "up r' = up r" by (rule u)
qed

lemma buildKey_eq: "Cache_buildKey x ns = Cache_buildKey k ns \<longleftrightarrow> x = k"
  by (simp add: Cache_buildKey_def Let_def)

text \<open>
  \<open>entries\<close>: what the server holds, with the expiry in milliseconds; \<open>clock\<close>: its time, at which a command takes effect; \<open>up\<close>: whether
  commands reach it. A command that does not fails and changes nothing. \<open>p\<close>: the client's \<open>keyPrefix\<close>.
\<close>

locale redis_store =
  fixes c :: "'r redis_client" and p :: string and entries :: "'r \<Rightarrow> string \<rightharpoonup> stored \<times> int" and clock :: "'r \<Rightarrow> int" and up :: "'r \<Rightarrow> bool"
  assumes get_law: "\<exists>x r'. rd_get c k r = (x, r') \<and> same_server entries clock up r r' \<and>
      (if up r then x = Inr (live_text entries clock r (p @ k)) else \<exists>e. x = Inl e)"
    and exists_law: "\<exists>x r'. rd_exists c k r = (x, r') \<and> same_server entries clock up r r' \<and>
      (if up r then x = Inr (if live_text entries clock r (p @ k) = None then 0 else 1) else \<exists>e. x = Inl e)"
    and setex_law: "0 < ttl \<Longrightarrow> up r \<Longrightarrow> \<exists>r'. rd_setex c k ttl t r = (Inr (), r') \<and>
      entries r' = (entries r)(p @ k \<mapsto> (t, clock r + 1000 * ttl)) \<and> clock r' = clock r \<and> up r'"
    and setex_down: "\<not> up r \<Longrightarrow> \<exists>e r'. rd_setex c k ttl t r = (Inl e, r') \<and> same_server entries clock up r r'"
    and dels_law: "\<exists>x r'. rd_exec_dels c ks r = (x, r') \<and>
      (if up r then x = Inr () \<and> entries r' = entries r |` (- ((@) p ` set ks)) else (\<exists>e. x = Inl e) \<and> entries r' = entries r)"
    and scan_law: "rd_scan c m r = (bs, None) \<Longrightarrow> k \<in> set (concat bs) \<Longrightarrow> live_text entries clock r k \<noteq> None"

section \<open>The contract the program uses\<close>

text \<open>\<open>held s k\<close>: the text cached under key \<open>k\<close>; \<open>ready s\<close>: the cache can be reached.\<close>

locale cache_port =
  fixes get :: "string \<Rightarrow> ('s, exn, json) proc" and set_value :: "string \<Rightarrow> json \<Rightarrow> ('s, exn, unit) proc"
    and has :: "string \<Rightarrow> ('s, exn, bool) proc" and held :: "'s \<Rightarrow> string \<rightharpoonup> stored" and ready :: "'s \<Rightarrow> bool"
  assumes has_law: "\<exists>s'. has k s = (Inr (ready s \<and> held s k \<noteq> None), s') \<and> held s' = held s \<and> ready s' = ready s"
    and set_law: "ready s \<Longrightarrow> \<exists>s'. set_value k v s = (Inr (), s') \<and> held s' = (held s)(k \<mapsto> json_stringify v) \<and> ready s'"
    and set_down: "\<not> ready s \<Longrightarrow> \<exists>e s'. set_value k v s = (Inl e, s') \<and> held s' = held s"
    and get_held: "ready s \<Longrightarrow> held s k = Some (Text v) \<Longrightarrow> \<exists>s'. get k s = (Inr v, s') \<and> held s' = held s \<and> ready s'"
    and get_missing: "ready s \<Longrightarrow> held s k = None \<Longrightarrow> \<exists>s'. get k s = (Inr JNull, s') \<and> held s' = held s \<and> ready s'"
    and get_down: "\<not> ready s \<Longrightarrow> \<exists>m s'. get k s = (Inl (CacheError m), s') \<and> held s' = held s"

text \<open>The cache-aside step of \<open>getOrSet\<close> and of the decorator, over any such port.\<close>

definition cache_aside ::
  "('s, exn, json) proc \<Rightarrow> (json \<Rightarrow> ('s, exn, unit) proc) \<Rightarrow> ('s, exn, json) proc \<Rightarrow> ('s, exn, json) proc" where
  "cache_aside getK setK m =
     bindP getK (\<lambda>cached. if cached \<noteq> JNull then returnP cached
       else bindP m (\<lambda>v. bindP (setK v) (\<lambda>_. returnP v)))"

context cache_port
begin

lemma aside_hit:
  "ready s \<Longrightarrow> held s k = Some (Text v) \<Longrightarrow> v \<noteq> JNull \<Longrightarrow>
     \<exists>s'. cache_aside (get k) (set_value k) m s = (Inr v, s') \<and> held s' = held s"
  using get_held [of s k v] by (auto simp: cache_aside_def bindP_def)

lemma aside_down: "\<not> ready s \<Longrightarrow> \<exists>e s'. cache_aside (get k) (set_value k) m s = (Inl (CacheError e), s') \<and> held s' = held s"
  using get_down [of s k] by (auto simp: cache_aside_def bindP_def)

lemma aside_runs:
  "ready s \<Longrightarrow> held s k = None \<Longrightarrow> \<exists>s1. get k s = (Inr JNull, s1) \<and> held s1 = held s \<and>
     cache_aside (get k) (set_value k) m s = bindP m (\<lambda>v. bindP (set_value k v) (\<lambda>_. returnP v)) s1"
  using get_missing [of s k] by (auto simp: cache_aside_def bindP_def)

text \<open>A step that found nothing and succeeded ran the method and stored its value.\<close>

lemma aside_filled:
  assumes "cache_aside (get k) (set_value k) m s = (Inr v, s')" and "held s k = None"
  shows "\<exists>s1 s2. m s1 = (Inr v, s2) \<and> set_value k v s2 = (Inr (), s') \<and> ready s2"
proof -
  have "ready s" using assms(1) aside_down [of s k m] by auto
  from aside_runs [OF this assms(2)] obtain s1 where
    run: "bindP m (\<lambda>v. bindP (set_value k v) (\<lambda>_. returnP v)) s1 = (Inr v, s')" using assms(1) by metis
  then obtain s2 where s2: "m s1 = (Inr v, s2)" "set_value k v s2 = (Inr (), s')"
    by (auto simp: bindP_def split: prod.splits sum.splits)
  moreover have "ready s2" using s2(2) set_down [of s2 k v] by auto
  ultimately show ?thesis by blast
qed

end

definition ttl_of :: "CacheOptions \<Rightarrow> int" where
  "ttl_of opts = (case co_ttl opts of Some t \<Rightarrow> t | None \<Rightarrow> Cache_defaultTtl)"

context redis_store
begin

lemma set_entry:
  assumes "up (ca_redis s)" "0 < ttl_of opts"
  shows "\<exists>s'. Cache_set c k v opts s = (Inr (), s') \<and>
    entries (ca_redis s') = (entries (ca_redis s))(p @ Cache_buildKey k (co_namespace opts) \<mapsto> (json_stringify v, clock (ca_redis s) + 1000 * ttl_of opts)) \<and>
    clock (ca_redis s') = clock (ca_redis s) \<and> up (ca_redis s')"
  using setex_law [OF assms(2,1), of "Cache_buildKey k (co_namespace opts)" "json_stringify v"]
  by (auto simp: cache_defs ttl_of_def)

lemma set_fails:
  "\<not> up (ca_redis s) \<Longrightarrow> \<exists>e s'. Cache_set c k v opts s = (Inl e, s') \<and> same_server entries clock up (ca_redis s) (ca_redis s')"
  using setex_down [of "ca_redis s" "Cache_buildKey k (co_namespace opts)" "ttl_of opts" "json_stringify v"]
  by (auto simp: cache_defs ttl_of_def)

lemma has_entry:
  "\<exists>s'. Cache_has c k opts s = (Inr (up (ca_redis s) \<and> live_text entries clock (ca_redis s) (p @ Cache_buildKey k (co_namespace opts)) \<noteq> None), s') \<and>
     same_server entries clock up (ca_redis s) (ca_redis s')"
proof -
  obtain x r' where "rd_exists c (Cache_buildKey k (co_namespace opts)) (ca_redis s) = (x, r')" "same_server entries clock up (ca_redis s) r'"
    "if up (ca_redis s) then x = Inr (if live_text entries clock (ca_redis s) (p @ Cache_buildKey k (co_namespace opts)) = None then 0 else 1) else \<exists>e. x = Inl e"
    using exists_law by blast
  then show ?thesis by (cases "up (ca_redis s)") (auto simp: cache_defs)
qed

lemma get_entry:
  "\<exists>s'. same_server entries clock up (ca_redis s) (ca_redis s') \<and>
     (if up (ca_redis s)
      then case live_text entries clock (ca_redis s) (p @ Cache_buildKey k (co_namespace opts)) of
          None \<Rightarrow> Cache_get c k opts s = (Inr JNull, s')
        | Some (Text v) \<Rightarrow> Cache_get c k opts s = (Inr v, s')
        | Some Garbled \<Rightarrow> \<exists>m. Cache_get c k opts s = (Inl (CacheError m), s')
      else \<exists>m. Cache_get c k opts s = (Inl (CacheError m), s'))"
proof -
  obtain x r' where "rd_get c (Cache_buildKey k (co_namespace opts)) (ca_redis s) = (x, r')" "same_server entries clock up (ca_redis s) r'"
    "if up (ca_redis s) then x = Inr (live_text entries clock (ca_redis s) (p @ Cache_buildKey k (co_namespace opts))) else \<exists>e. x = Inl e"
    using get_law by blast
  then show ?thesis
    by (cases "up (ca_redis s)"; cases "live_text entries clock (ca_redis s) (p @ Cache_buildKey k (co_namespace opts))";
        cases "the (live_text entries clock (ca_redis s) (p @ Cache_buildKey k (co_namespace opts)))") (auto simp: cache_defs)
qed

lemma service_port:
  assumes "0 < ttl_of opts" and "co_namespace hopts = co_namespace opts"
  shows "cache_port (\<lambda>k. Cache_get c k hopts) (\<lambda>k v. Cache_set c k v opts) (\<lambda>k. Cache_has c k hopts)
    (\<lambda>s k. live_text entries clock (ca_redis s) (p @ Cache_buildKey k (co_namespace opts))) (\<lambda>s. up (ca_redis s))"
proof (unfold_locales, goal_cases)
  case (1 k s)
  obtain s' where "Cache_has c k hopts s = (Inr (up (ca_redis s) \<and>
      live_text entries clock (ca_redis s) (p @ Cache_buildKey k (co_namespace opts)) \<noteq> None), s')" "same_server entries clock up (ca_redis s) (ca_redis s')"
    using has_entry [of k hopts s] assms(2) by auto
  then show ?case using same_live [of entries clock up "ca_redis s" "ca_redis s'"] by (intro exI [of _ s']) simp
next
  case (2 s k v)
  then obtain s' where s': "Cache_set c k v opts s = (Inr (), s')" "clock (ca_redis s') = clock (ca_redis s)" "up (ca_redis s')"
    "entries (ca_redis s') = (entries (ca_redis s))(p @ Cache_buildKey k (co_namespace opts) \<mapsto> (json_stringify v, clock (ca_redis s) + 1000 * ttl_of opts))"
    using set_entry [of s opts k v] assms(1) by blast
  have "live_text entries clock (ca_redis s') (p @ Cache_buildKey x (co_namespace opts)) =
    ((\<lambda>k. live_text entries clock (ca_redis s) (p @ Cache_buildKey k (co_namespace opts)))(k \<mapsto> json_stringify v)) x" for x
    using assms(1) by (auto simp: live_text_def s' buildKey_eq split: option.split)
  with s'(1,3) show ?case by (intro exI [of _ s']) blast
next
  case (3 s k v)
  then obtain e s' where "Cache_set c k v opts s = (Inl e, s')" "same_server entries clock up (ca_redis s) (ca_redis s')"
    using set_fails by blast
  then show ?case using same_live(1) [of entries clock up "ca_redis s" "ca_redis s'"] by (intro exI [of _ e] exI [of _ s']) simp
next
  case (4 s k v)
  obtain s' where s': "same_server entries clock up (ca_redis s) (ca_redis s')" "Cache_get c k hopts s = (Inr v, s')"
    using get_entry [of s k hopts] 4 assms(2) by auto
  then show ?case using same_live [OF s'(1)] 4(1) by (intro exI [of _ s']) simp
next
  case (5 s k)
  obtain s' where s': "same_server entries clock up (ca_redis s) (ca_redis s')" "Cache_get c k hopts s = (Inr JNull, s')"
    using get_entry [of s k hopts] 5 assms(2) by auto
  then show ?case using same_live [OF s'(1)] 5(1) by (intro exI [of _ s']) simp
next
  case (6 s k)
  obtain m s' where s': "same_server entries clock up (ca_redis s) (ca_redis s')" "Cache_get c k hopts s = (Inl (CacheError m), s')"
    using get_entry [of s k hopts] 6 by auto
  then show ?case using same_live(1) [OF s'(1)] by (intro exI [of _ m] exI [of _ s']) simp
qed

lemma unread_scan:
  assumes "\<forall>k. entries (ca_redis s) k \<noteq> None \<longrightarrow> str_prefix p k \<and> \<not> str_prefix (p @ p) k"
    and "snd (rd_scan c (Cache_buildKey pattern None) (ca_redis s)) = None"
  shows "entries (ca_redis (snd (Cache_invalidatePattern c pattern s))) = entries (ca_redis s)"
proof -
  obtain bs where sc: "rd_scan c (Cache_buildKey pattern None) (ca_redis s) = (bs, None)"
    using assms(2) by (metis prod.collapse)
  obtain x r' where r': "rd_exec_dels c (concat bs) (ca_redis s) = (x, r')"
    "if up (ca_redis s) then x = Inr () \<and> entries r' = entries (ca_redis s) |` (- ((@) p ` set (concat bs)))
     else (\<exists>e. x = Inl e) \<and> entries r' = entries (ca_redis s)" using dels_law by blast
  have "entries (ca_redis s) (p @ k) = None" if "k \<in> set (concat bs)" for k
  proof (rule ccontr)
    assume "entries (ca_redis s) (p @ k) \<noteq> None"
    with assms(1) have "\<not> str_prefix (p @ p) (p @ k)" by blast
    moreover from scan_law [OF sc that] have "entries (ca_redis s) k \<noteq> None" by (auto simp: live_text_def split: option.splits)
    with assms(1) have "str_prefix p k" by blast
    ultimately show False by (auto simp: str_prefix_iff)
  qed
  then have "entries (ca_redis s) |` (- ((@) p ` set (concat bs))) = entries (ca_redis s)"
    by (force simp: restrict_map_def fun_eq_iff)
  with r'(2) have "entries r' = entries (ca_redis s)" by (simp split: if_splits)
  then show ?thesis
    by (cases x) (simp_all add: Cache_invalidatePattern_def sc r'(1) cache_defs)
qed

end

sublocale redis_store \<subseteq> plain: cache_port "\<lambda>k. Cache_get c k \<lparr>co_ttl = None, co_namespace = ns\<rparr>"
  "\<lambda>k v. Cache_set c k v \<lparr>co_ttl = None, co_namespace = ns\<rparr>" "\<lambda>k. Cache_has c k \<lparr>co_ttl = None, co_namespace = ns\<rparr>"
  "\<lambda>s k. live_text entries clock (ca_redis s) (p @ Cache_buildKey k ns)" "\<lambda>s. up (ca_redis s)" for ns
  using service_port [of "\<lparr>co_ttl = None, co_namespace = ns\<rparr>" "\<lparr>co_ttl = None, co_namespace = ns\<rparr>"]
  by (simp add: ttl_of_def Cache_defaultTtl_def)

lemma Cached_aside:
  "Cached key opts (Some c) m args = cache_aside (Cache_get c (Cached_key key args) opts)
     (\<lambda>v. Cache_set c (Cached_key key args) v opts) (m args)"
  by (simp add: Cached_def cache_aside_def Let_def)

lemma getOrSet_aside:
  "Cache_getOrSet c key factory opts =
     cache_aside (Cache_get c key opts) (\<lambda>v. Cache_set c key v opts) factory"
  by (simp add: Cache_getOrSet_def cache_aside_def)

section \<open>A server in memory\<close>

fun glob :: "string \<Rightarrow> string \<Rightarrow> bool" where
  "glob [] s = (s = [])"
| "glob (q # qs) [] = (q = CHR ''*'' \<and> glob qs [])"
| "glob (q # qs) (x # xs) =
     (if q = CHR ''*'' then glob qs (x # xs) \<or> glob (q # qs) xs else q = x \<and> glob qs xs)"

record mem_server =
  ms_clock :: int
  ms_up :: bool
  ms_entries :: "(string \<times> stored \<times> int) list"

definition ms_store :: "mem_server \<Rightarrow> string \<rightharpoonup> stored \<times> int" where
  "ms_store r = map_of (ms_entries r)"

definition when_up :: "mem_server \<Rightarrow> 'a \<Rightarrow> exn + 'a" where
  "when_up r x = (if ms_up r then Inr x else Inl (JsError ''Connection is closed.''))"

definition mem_redis :: "string \<Rightarrow> mem_server redis_client" where
  "mem_redis p =
     \<lparr>rd_get = (\<lambda>k r. (when_up r (live_text ms_store ms_clock r (p @ k)), r)),
      rd_setex = (\<lambda>k ttl t r. (when_up r (),
        if ms_up r then r\<lparr>ms_entries := obj_put (p @ k) (t, ms_clock r + 1000 * ttl) (ms_entries r)\<rparr> else r)),
      rd_del = (\<lambda>ks r. (when_up r (length ks),
        if ms_up r then r\<lparr>ms_entries := filter (\<lambda>(k, t). k \<notin> set (map ((@) p) ks)) (ms_entries r)\<rparr> else r)),
      rd_exists = (\<lambda>k r. (when_up r (if live_text ms_store ms_clock r (p @ k) = None then 0 else 1), r)),
      rd_scan = (\<lambda>m r. ([filter (\<lambda>k. glob m k \<and> live_text ms_store ms_clock r k \<noteq> None) (map fst (ms_entries r))], None)),
      rd_exec_dels = (\<lambda>ks r. (when_up r (),
        if ms_up r then r\<lparr>ms_entries := filter (\<lambda>(k, t). k \<notin> set (map ((@) p) ks)) (ms_entries r)\<rparr> else r)),
      rd_ping = (\<lambda>r. (when_up r ''PONG'', r))\<rparr>"

lemma map_of_filter_keys:
  "map_of (filter (\<lambda>(k, t). k \<notin> A) r) = map_of r |` (- A)"
  by (rule ext, induction r) (auto simp: restrict_map_def)

interpretation memcache: redis_store "mem_redis p" p ms_store ms_clock ms_up for p
  by unfold_locales (auto simp: mem_redis_def when_up_def same_server_def ms_store_def map_of_obj_put map_of_filter_keys)

definition empty_server :: mem_server where
  "empty_server = \<lparr>ms_clock = 0, ms_up = True, ms_entries = []\<rparr>"

section \<open>Properties\<close>

text \<open>
  C34. A method under \<open>Cached\<close> runs once per key and time to live. After a call that found no live entry, ran the method and returned a
  value other than null and undefined, take any later state in which the entry that call wrote has been neither
  overwritten nor deleted, and any call whose arguments join to the same text. Until the time to live (300 seconds by default) has passed, the
  call returns what JSON keeps of the value, without running the method; afterwards it runs the method again;
  and while Redis cannot be reached it fails without running it. Different argument lists can join to the same text.
\<close>
theorem Cached_runs_once_per_key:
  assumes "redis_store c p entries clock up" and "0 < ttl_of opts"
    and K: "K = p @ Cache_buildKey (Cached_key key args) (co_namespace opts)"
    and first: "Cached key opts (Some c) m args s = (Inr v, s')" "live_text entries clock (ca_redis s) K = None"
    and v: "v \<noteq> JNull" "v \<noteq> JUndef" and args: "str_join '':'' args' = str_join '':'' args"
    and kept: "entries (ca_redis t) K = entries (ca_redis s') K"
  shows "if \<not> up (ca_redis t) then \<exists>e t'. Cached key opts (Some c) m' args' t = (Inl (CacheError e), t')
    else if clock (ca_redis t) < clock (ca_redis s') + 1000 * ttl_of opts
    then \<exists>t'. Cached key opts (Some c) m' args' t = (Inr (json_clean v), t')
    else \<exists>t1. same_server entries clock up (ca_redis t) (ca_redis t1) \<and> Cached key opts (Some c) m' args' t =
      bindP (m' args') (\<lambda>result. bindP (Cache_set c (Cached_key key args') result opts) (\<lambda>_. returnP result)) t1"
proof -
  note port = redis_store.service_port [OF assms(1,2) refl]
  have k: "Cached_key key args' = Cached_key key args" by (simp add: Cached_key_def args)
  from cache_port.aside_filled [OF port first(1) [unfolded Cached_aside] first(2) [unfolded K]] obtain s2 where
    s2: "Cache_set c (Cached_key key args) v opts s2 = (Inr (), s')" "up (ca_redis s2)" by blast
  from redis_store.set_entry [OF assms(1) s2(2) assms(2), of "Cached_key key args" v] s2(1)
  have "entries (ca_redis s') K = Some (Text (json_clean v), clock (ca_redis s') + 1000 * ttl_of opts)"
    using v(2) by (auto simp: K json_stringify_def)
  then have live: "live_text entries clock (ca_redis t) K =
      (if clock (ca_redis t) < clock (ca_redis s') + 1000 * ttl_of opts then Some (Text (json_clean v)) else None)"
    using kept by (simp add: live_text_def)
  have clean: "json_clean v \<noteq> JNull" using v(1) by (cases v) simp_all
  show ?thesis
  proof (cases "up (ca_redis t)")
    case False
    then show ?thesis using cache_port.aside_down [OF port False, of "Cached_key key args'" "m' args'"] by (auto simp: Cached_aside)
  next
    case True
    note get = redis_store.get_entry [OF assms(1), of t "Cached_key key args'" opts]
    show ?thesis
    proof (cases "clock (ca_redis t) < clock (ca_redis s') + 1000 * ttl_of opts")
      case now: True
      then have "live_text entries clock (ca_redis t) (p @ Cache_buildKey (Cached_key key args') (co_namespace opts)) = Some (Text (json_clean v))"
        using live by (simp add: K k)
      from cache_port.aside_hit [OF port True this clean, of "m' args'"] show ?thesis
        using True now by (auto simp: Cached_aside)
    next
      case False
      then have "live_text entries clock (ca_redis t) (p @ Cache_buildKey (Cached_key key args') (co_namespace opts)) = None"
        using live by (simp add: K k)
      with get True obtain t1 where "same_server entries clock up (ca_redis t) (ca_redis t1)"
        "Cache_get c (Cached_key key args') opts t = (Inr JNull, t1)" by auto
      then show ?thesis using True False by (auto simp: Cached_def bindP_def Let_def)
    qed
  qed
qed

theorem Cached_runs_once_per_key_witness:
  "\<exists>s' t'. Cached ''u'' no_options (Some (mem_redis ''es:'')) (\<lambda>args. returnP (JNum 1)) [''a:b'', ''c''] (Cache_init empty_server) =
      (Inr (JNum 1), s') \<and>
     Cached ''u'' no_options (Some (mem_redis ''es:'')) (\<lambda>args. returnP (JNum 2)) [''a'', ''b:c'']
       (s'\<lparr>ca_redis := (ca_redis s')\<lparr>ms_clock := 299999\<rparr>\<rparr>) = (Inr (JNum 1), t')"
proof -
  obtain s' where s': "Cached ''u'' no_options (Some (mem_redis ''es:'')) (\<lambda>args. returnP (JNum 1)) [''a:b'', ''c''] (Cache_init empty_server) =
      (Inr (JNum 1), s')" and clock: "ms_clock (ca_redis s') = 0" and up: "ms_up (ca_redis s')"
    by (simp add: Cached_def mem_redis_def cache_defs Cache_init_def empty_server_def when_up_def live_text_def ms_store_def)
  have ttl: "ttl_of no_options = 300" by (simp add: ttl_of_def no_options_def Cache_defaultTtl_def)
  let ?t = "s'\<lparr>ca_redis := (ca_redis s')\<lparr>ms_clock := 299999\<rparr>\<rparr>"
  have "ms_store (ca_redis ?t) k = ms_store (ca_redis s') k" for k by (simp add: ms_store_def)
  note later = Cached_runs_once_per_key [OF memcache.redis_store_axioms _ refl s' _ _ _ _ this, of "[''a'', ''b:c'']" "\<lambda>args. returnP (JNum 2)"]
  have "live_text ms_store ms_clock (ca_redis (Cache_init empty_server)) k = None" for k
    by (simp add: live_text_def ms_store_def Cache_init_def empty_server_def)
  with later show ?thesis using s' clock up ttl by simp
qed

text \<open>
  \<open>invalidatePattern\<close> invalidates nothing. With a client whose key prefix is \<open>p\<close>, when every key of
  the server was written through it (it starts with \<open>p\<close>, and not with \<open>p\<close> twice), no pattern whatever
  makes it delete a key: the scan returns full keys, and deleting them prepends the prefix again.
\<close>
theorem invalidatePattern_deletes_nothing:
  assumes "redis_store c p entries clock up"
    and "\<forall>k. entries (ca_redis s) k \<noteq> None \<longrightarrow> str_prefix p k \<and> \<not> str_prefix (p @ p) k"
    and "snd (rd_scan c (Cache_buildKey pattern None) (ca_redis s)) = None"
  shows "entries (ca_redis (snd (Cache_invalidatePattern c pattern s))) = entries (ca_redis s)"
  using redis_store.unread_scan [OF assms] .

definition user_server :: mem_server where
  "user_server = \<lparr>ms_clock = 0, ms_up = True, ms_entries = [(''es:user:1'', Text (JNum 1), 1000)]\<rparr>"

theorem invalidatePattern_deletes_nothing_witness:
  "ms_store (ca_redis (snd (Cache_invalidatePattern (mem_redis ''es:'') ''*user*'' (Cache_init user_server)))) (''es:user:1'') =
     Some (Text (JNum 1), 1000) \<and>
   fst (Cache_invalidatePattern (mem_redis ''es:'') ''*user*'' (Cache_init user_server)) = Inr 1"
proof
  show "ms_store (ca_redis (snd (Cache_invalidatePattern (mem_redis ''es:'') ''*user*'' (Cache_init user_server)))) (''es:user:1'') =
     Some (Text (JNum 1), 1000)"
    by (subst invalidatePattern_deletes_nothing [OF memcache.redis_store_axioms])
      (auto simp: Cache_init_def mem_redis_def user_server_def ms_store_def split: if_splits)
  show "fst (Cache_invalidatePattern (mem_redis ''es:'') ''*user*'' (Cache_init user_server)) = Inr 1"
    by code_simp
qed

end
