(* ===== verification/Messaging.thy ===== *)
theory Messaging
  imports Events Cache
begin

text \<open>
  Domain events on the wire: \<open>src/infrastructure/messaging/event-publisher.impl.ts\<close> and
  \<open>event-processor.service.ts\<close>. BullMQ is third-party: \<open>addBulk\<close> and \<open>dlqAdd\<close>, the two queue
  operations the publisher calls, are parameters over the outside state; the worker's delivery of a
  job is a call of \<open>processEvent\<close>. The processor keeps its handlers (a map from event names to lists)
  and uses the cache service to remember processed events; its state is the world the handlers work
  on together with the cache. The handlers act on their world: one delivery happens at one instant of the Redis server's
  clock, with Redis reachable throughout or not at all; both may be anything at the next delivery.
\<close>

section \<open>The publisher\<close>

record Job =
  jb_name :: string
  jb_data :: "(string \<times> json) list"
  jb_jobId :: string

definition Publisher_serialize :: "DomainEvent \<Rightarrow> int \<Rightarrow> (string \<times> json) list" where
  "Publisher_serialize event now = obj_put ''_publishedAt'' (JDate now) (event_toPrimitives event)"

definition Publisher_jobs :: "(nat \<Rightarrow> int) \<Rightarrow> DomainEvent list \<Rightarrow> Job list" where
  "Publisher_jobs clk events =
     map (\<lambda>(k, event). \<lparr>jb_name = ev_eventName (event_base_of event),
            jb_data = Publisher_serialize event (clk k), jb_jobId = ev_eventId (event_base_of event)\<rparr>)
       (enumerate 0 events)"

definition Publisher_publish ::
  "(Job list \<Rightarrow> ('s, exn, unit) proc) \<Rightarrow> (nat \<Rightarrow> int) \<Rightarrow> DomainEvent list \<Rightarrow> ('s, exn, unit) proc" where
  "Publisher_publish addBulk clk events =
     (if length events = 0 then returnP ()
      else catchP (bindP (addBulk (Publisher_jobs clk events)) (\<lambda>_. returnP ()))
             (\<lambda>error. returnP ()))"

text \<open>The queue's \<open>failed\<close> listener: after the last attempt the job goes to the dead letter queue.\<close>

definition json_text :: "json \<Rightarrow> string" where
  "json_text v = (case v of JStr s \<Rightarrow> s | _ \<Rightarrow> ''undefined'')"

definition Publisher_onFailed ::
  "(Job \<Rightarrow> ('s, exn, unit) proc) \<Rightarrow> Job \<Rightarrow> nat \<Rightarrow> nat option \<Rightarrow> ('s, exn, unit) proc" where
  "Publisher_onFailed dlqAdd job attemptsMade attempts =
     (if (case attempts of Some n \<Rightarrow> n | None \<Rightarrow> 3) \<le> attemptsMade
      then dlqAdd \<lparr>jb_name = ''failed-event'', jb_data = jb_data job,
                   jb_jobId = ''dlq-'' @ json_text (json_get ''eventId'' (jb_data job))\<rparr>
      else returnP ())"

text \<open>The contract of the publisher port: publishing never throws.\<close>

locale event_publisher =
  fixes publish :: "DomainEvent list \<Rightarrow> ('s, exn, unit) proc"
  assumes never_throws: "fst (publish es s) = Inr ()"
begin

lemma then_continue: "bindP (publish es) f s = f () (snd (publish es s))"
  using never_throws [of es s] by (cases "publish es s") (simp add: bindP_def)

end

lemma publish_total: "fst (Publisher_publish addBulk clk es s) = Inr ()"
  by (auto simp: Publisher_publish_def catchP_def bindP_def split: prod.split sum.split)

interpretation queue_publisher: event_publisher "Publisher_publish addBulk clk" for addBulk clk
  by unfold_locales (rule publish_total)

section \<open>The processor\<close>

definition DEDUP_PREFIX :: string where "DEDUP_PREFIX = ''event-processed:''"
definition DEDUP_TTL_SECONDS :: int where "DEDUP_TTL_SECONDS = 86400"

type_synonym 'w handler = "(string \<times> json) list \<Rightarrow> ('w, exn, unit) proc"

record ('w, 'r) processor_state =
  ps_world :: 'w
  ps_cache :: "'r cache_state"

definition on_world :: "('w, exn, 'a) proc \<Rightarrow> (('w, 'r) processor_state, exn, 'a) proc" where
  "on_world m = (\<lambda>s. case m (ps_world s) of (x, w) \<Rightarrow> (x, s\<lparr>ps_world := w\<rparr>))"

definition on_cache :: "('r cache_state, exn, 'a) proc \<Rightarrow> (('w, 'r) processor_state, exn, 'a) proc" where
  "on_cache m = (\<lambda>s. case m (ps_cache s) of (x, ca) \<Rightarrow> (x, s\<lparr>ps_cache := ca\<rparr>))"

definition Processor_registerHandler ::
  "string \<Rightarrow> 'w handler \<Rightarrow> (string \<rightharpoonup> 'w handler list) \<Rightarrow> (string \<rightharpoonup> 'w handler list)" where
  "Processor_registerHandler eventName handler handlers =
     handlers(eventName \<mapsto> (case handlers eventName of Some hs \<Rightarrow> hs | None \<Rightarrow> []) @ [handler])"

definition Processor_isAlreadyProcessed :: "'r redis_client \<Rightarrow> string \<Rightarrow> ('r cache_state, exn, bool) proc" where
  "Processor_isAlreadyProcessed c eventId =
     catchP (Cache_has c (DEDUP_PREFIX @ eventId) no_options) (\<lambda>error. returnP False)"

definition Processor_markProcessed :: "'r redis_client \<Rightarrow> string \<Rightarrow> ('r cache_state, exn, unit) proc" where
  "Processor_markProcessed c eventId =
     catchP (Cache_set c (DEDUP_PREFIX @ eventId) (JStr ''1'')
              \<lparr>co_ttl = Some DEDUP_TTL_SECONDS, co_namespace = None\<rparr>)
       (\<lambda>error. returnP ())"

fun run_handlers :: "'w handler list \<Rightarrow> (string \<times> json) list \<Rightarrow> ('w, exn, unit) proc" where
  "run_handlers [] payload = returnP ()"
| "run_handlers (h # hs) payload = bindP (h payload) (\<lambda>_. run_handlers hs payload)"

definition Processor_processEvent ::
  "'r redis_client \<Rightarrow> (string \<rightharpoonup> 'w handler list) \<Rightarrow> (string \<times> json) list \<Rightarrow>
   (('w, 'r) processor_state, exn, unit) proc" where
  "Processor_processEvent c handlers data =
     (let eventId = json_text (json_get ''eventId'' data);
          eventName = json_text (json_get ''eventName'' data);
          payload = filter (\<lambda>(k, v). k \<noteq> ''eventId'' \<and> k \<noteq> ''eventName'') data
      in bindP (on_cache (Processor_isAlreadyProcessed c eventId)) (\<lambda>alreadyProcessed.
           if alreadyProcessed then returnP ()
           else case handlers eventName of
               None \<Rightarrow> returnP ()
             | Some hs \<Rightarrow>
                 if hs = [] then returnP ()
                 else bindP (on_world (run_handlers hs payload)) (\<lambda>_.
                        on_cache (Processor_markProcessed c eventId))))"

text \<open>A worker that delivers the job again while it fails, up to \<open>attempts\<close> times.\<close>

fun deliver ::
  "nat \<Rightarrow> 'r redis_client \<Rightarrow> (string \<rightharpoonup> 'w handler list) \<Rightarrow> (string \<times> json) list \<Rightarrow>
   (('w, 'r) processor_state, exn, unit) proc" where
  "deliver 0 c handlers data = returnP ()"
| "deliver (Suc n) c handlers data =
     catchP (Processor_processEvent c handlers data)
       (\<lambda>e. if n = 0 then throwP e else deliver n c handlers data)"

section \<open>Lemmas\<close>

lemma base_of_event_primitives:
  "\<exists>rest. event_toPrimitives e = DomainEvent_toPrimitives (event_base_of e) @ rest \<and>
     ''eventId'' \<notin> fst ` set rest \<and> ''eventName'' \<notin> fst ` set rest"
  by (cases e) auto

lemma serialized_id_name:
  "json_get ''eventId'' (Publisher_serialize e now) = JStr (ev_eventId (event_base_of e))"
  "json_get ''eventName'' (Publisher_serialize e now) = JStr (ev_eventName (event_base_of e))"
  using base_of_event_primitives [of e]
  by (auto simp: Publisher_serialize_def json_get_def map_of_obj_put DomainEvent_toPrimitives_def)

text \<open>The event is remembered as processed: its mark is live and Redis can be reached.\<close>

definition event_marked ::
  "string \<Rightarrow> ('r \<Rightarrow> string \<rightharpoonup> stored \<times> int) \<Rightarrow> ('r \<Rightarrow> int) \<Rightarrow> ('r \<Rightarrow> bool) \<Rightarrow> 'r cache_state \<Rightarrow> string \<Rightarrow> bool" where
  "event_marked p entries clock up ca eventId \<longleftrightarrow>
     up (ca_redis ca) \<and> live_text entries clock (ca_redis ca) (p @ DEDUP_PREFIX @ eventId) \<noteq> None"

lemma event_marked_same:
  assumes "entries (ca_redis ca') = entries (ca_redis ca)" "clock (ca_redis ca') = clock (ca_redis ca)"
    "up (ca_redis ca') = up (ca_redis ca)"
  shows "event_marked p entries clock up ca' i = event_marked p entries clock up ca i"
  by (simp only: event_marked_def live_text_def assms)

definition event_payload :: "(string \<times> json) list \<Rightarrow> (string \<times> json) list" where
  "event_payload data = filter (\<lambda>(k, v). k \<noteq> ''eventId'' \<and> k \<noteq> ''eventName'') data"

definition handlers_of :: "(string \<rightharpoonup> 'w handler list) \<Rightarrow> (string \<times> json) list \<Rightarrow> 'w handler list" where
  "handlers_of handlers data =
     (case handlers (json_text (json_get ''eventName'' data)) of None \<Rightarrow> [] | Some hs \<Rightarrow> hs)"

context redis_store
begin

lemma isAlreadyProcessed_law:
  "\<exists>ca'. Processor_isAlreadyProcessed c i ca = (Inr (event_marked p entries clock up ca i), ca') \<and>
     same_server entries clock up (ca_redis ca) (ca_redis ca')"
  using has_entry [of "DEDUP_PREFIX @ i" no_options ca]
  by (auto simp: Processor_isAlreadyProcessed_def catchP_def event_marked_def no_options_def Cache_buildKey_def)

text \<open>The mark is written with its time to live, or, when Redis cannot be reached, silently not.\<close>

lemma markProcessed_law:
  "\<exists>ca'. Processor_markProcessed c i ca = (Inr (), ca') \<and>
     clock (ca_redis ca') = clock (ca_redis ca) \<and> up (ca_redis ca') = up (ca_redis ca) \<and>
     entries (ca_redis ca') = (if up (ca_redis ca)
       then (entries (ca_redis ca))(p @ DEDUP_PREFIX @ i \<mapsto> (Text (JStr ''1''), clock (ca_redis ca) + 1000 * DEDUP_TTL_SECONDS))
       else entries (ca_redis ca))"
proof (cases "up (ca_redis ca)")
  case True
  from set_entry [OF this, of "\<lparr>co_ttl = Some DEDUP_TTL_SECONDS, co_namespace = None\<rparr>" "DEDUP_PREFIX @ i" "JStr ''1''"] True
  show ?thesis
    by (auto simp: ttl_of_def DEDUP_TTL_SECONDS_def Cache_buildKey_def json_stringify_def Processor_markProcessed_def catchP_def)
next
  case False
  from set_fails [of ca "DEDUP_PREFIX @ i" "JStr ''1''" "\<lparr>co_ttl = Some DEDUP_TTL_SECONDS, co_namespace = None\<rparr>"] False
  show ?thesis by (auto simp: same_server_def Processor_markProcessed_def catchP_def)
qed

text \<open>One delivery: skipped when marked, else the handlers run and a success is marked.\<close>

lemma processEvent_marked:
  assumes "event_marked p entries clock up (ps_cache s) (json_text (json_get ''eventId'' data))"
  shows "\<exists>s'. Processor_processEvent c handlers data s = (Inr (), s') \<and> ps_world s' = ps_world s"
  using isAlreadyProcessed_law [of "json_text (json_get ''eventId'' data)" "ps_cache s"] assms
  by (auto simp: Processor_processEvent_def Let_def bindP_def on_cache_def)

lemma processEvent_fresh:
  assumes "\<not> event_marked p entries clock up (ps_cache s) i" and "i = json_text (json_get ''eventId'' data)"
    and "run_handlers (handlers_of handlers data) (event_payload data) (ps_world s) = (x, w)"
  shows "\<exists>s'. Processor_processEvent c handlers data s = (x, s') \<and> ps_world s' = w \<and>
    clock (ca_redis (ps_cache s')) = clock (ca_redis (ps_cache s)) \<and> up (ca_redis (ps_cache s')) = up (ca_redis (ps_cache s)) \<and>
    entries (ca_redis (ps_cache s')) = (if is_ok x \<and> handlers_of handlers data \<noteq> [] \<and> up (ca_redis (ps_cache s))
      then (entries (ca_redis (ps_cache s)))(p @ DEDUP_PREFIX @ i \<mapsto>
        (Text (JStr ''1''), clock (ca_redis (ps_cache s)) + 1000 * DEDUP_TTL_SECONDS))
      else entries (ca_redis (ps_cache s)))"
proof -
  from isAlreadyProcessed_law [of i "ps_cache s"] assms(1) obtain ca where
    ca: "Processor_isAlreadyProcessed c i (ps_cache s) = (Inr False, ca)"
    "same_server entries clock up (ca_redis (ps_cache s)) (ca_redis ca)" by auto
  from ca(2) have same: "entries (ca_redis ca) = entries (ca_redis (ps_cache s))" "clock (ca_redis ca) = clock (ca_redis (ps_cache s))"
    "up (ca_redis ca) = up (ca_redis (ps_cache s))" by (simp_all only: same_server_def)
  obtain ca' where ca': "Processor_markProcessed c i ca = (Inr (), ca')" "clock (ca_redis ca') = clock (ca_redis (ps_cache s))"
    "up (ca_redis ca') = up (ca_redis (ps_cache s))"
    "entries (ca_redis ca') = (if up (ca_redis (ps_cache s))
       then (entries (ca_redis (ps_cache s)))(p @ DEDUP_PREFIX @ i \<mapsto> (Text (JStr ''1''), clock (ca_redis (ps_cache s)) + 1000 * DEDUP_TTL_SECONDS))
       else entries (ca_redis (ps_cache s)))"
    using markProcessed_law [of i ca] by (auto simp: same)
  show ?thesis
  proof (cases "handlers_of handlers data = []")
    case True
    then show ?thesis using assms(2,3) ca(1) same
      by (auto simp: Processor_processEvent_def handlers_of_def Let_def bindP_def on_cache_def split: option.splits)
  next
    case False
    then show ?thesis using assms(2,3) ca(1) same ca'
      by (cases x) (auto simp: Processor_processEvent_def handlers_of_def event_payload_def Let_def bindP_def on_cache_def
          on_world_def split: option.splits)
  qed
qed

lemma deliver_failing:
  assumes "\<not> event_marked p entries clock up (ps_cache s) (json_text (json_get ''eventId'' data))"
    and "handlers_of handlers data = [h1, h2]"
    and "\<And>pl w. h1 pl w = (Inr (), f w)" and "\<And>pl w. h2 pl w = (Inl e, w)"
  shows "\<exists>s'. deliver (Suc n) c handlers data s = (Inl e, s') \<and>
    ps_world s' = (f ^^ Suc n) (ps_world s) \<and>
    \<not> event_marked p entries clock up (ps_cache s') (json_text (json_get ''eventId'' data))"
  using assms(1)
proof (induction n arbitrary: s)
  case (Suc n)
  have "run_handlers (handlers_of handlers data) (event_payload data) (ps_world s) = (Inl e, f (ps_world s))"
    by (simp add: bindP_def assms)
  from processEvent_fresh [OF Suc.prems refl this] Suc.prems obtain s1 where
    s1: "Processor_processEvent c handlers data s = (Inl e, s1)" "ps_world s1 = f (ps_world s)"
    and same: "entries (ca_redis (ps_cache s1)) = entries (ca_redis (ps_cache s))"
    "clock (ca_redis (ps_cache s1)) = clock (ca_redis (ps_cache s))" "up (ca_redis (ps_cache s1)) = up (ca_redis (ps_cache s))" by auto
  have s1_unmarked: "\<not> event_marked p entries clock up (ps_cache s1) (json_text (json_get ''eventId'' data))"
    using Suc.prems by (simp only: event_marked_same [of entries, OF same] simp_thms)
  from Suc.IH [OF s1_unmarked] obtain s' where "deliver (Suc n) c handlers data s1 = (Inl e, s')"
    "ps_world s' = (f ^^ Suc n) (ps_world s1)"
    "\<not> event_marked p entries clock up (ps_cache s') (json_text (json_get ''eventId'' data))" by blast
  with s1 show ?case by (simp add: catchP_def funpow_swap1 del: deliver.simps(2)) (simp add: catchP_def)
next
  case 0
  have "run_handlers (handlers_of handlers data) (event_payload data) (ps_world s) = (Inl e, f (ps_world s))"
    by (simp add: bindP_def assms)
  from processEvent_fresh [OF 0 refl this] obtain s1 where
    s1: "Processor_processEvent c handlers data s = (Inl e, s1)" "ps_world s1 = f (ps_world s)"
    and same: "entries (ca_redis (ps_cache s1)) = entries (ca_redis (ps_cache s))"
    "clock (ca_redis (ps_cache s1)) = clock (ca_redis (ps_cache s))" "up (ca_redis (ps_cache s1)) = up (ca_redis (ps_cache s))" by auto
  have "\<not> event_marked p entries clock up (ps_cache s1) (json_text (json_get ''eventId'' data))"
    using 0 by (simp only: event_marked_same [of entries, OF same] simp_thms)
  with s1 show ?case by (auto simp: catchP_def)
qed

end

section \<open>Properties\<close>

text \<open>
  Publishing never throws, whatever the queue does, and hands the queue one job per event, in
  order, keyed and named by the event's own identifier and name; the consumer reads back exactly these.
\<close>
theorem publish_jobs:
  "fst (Publisher_publish addBulk clk events s) = Inr () \<and>
   map jb_jobId (Publisher_jobs clk events) = map (\<lambda>e. ev_eventId (event_base_of e)) events \<and>
   map (\<lambda>j. json_text (json_get ''eventId'' (jb_data j))) (Publisher_jobs clk events) =
     map jb_jobId (Publisher_jobs clk events) \<and>
   map (\<lambda>j. json_text (json_get ''eventName'' (jb_data j))) (Publisher_jobs clk events) =
     map jb_name (Publisher_jobs clk events)"
proof (intro conjI)
  show "fst (Publisher_publish addBulk clk events s) = Inr ()"
    by (rule queue_publisher.never_throws)
  have snds: "map (\<lambda>x. g (snd x)) (enumerate 0 events) = map g events" for g :: "DomainEvent \<Rightarrow> string"
    using map_snd_enumerate [of 0 events] by (metis (no_types, lifting) comp_def map_eq_conv map_map)
  show "map jb_jobId (Publisher_jobs clk events) = map (\<lambda>e. ev_eventId (event_base_of e)) events"
    using snds [of "\<lambda>e. ev_eventId (event_base_of e)"]
    by (simp add: Publisher_jobs_def case_prod_beta comp_def)
qed (simp_all add: Publisher_jobs_def case_prod_beta comp_def serialized_id_name json_text_def)

text \<open>
  C33. Idempotence within the deduplication window. After a first delivery (of an event without a live mark, to at least one
  handler, with Redis reachable) has succeeded, take any later state in which the mark it wrote has been neither
  overwritten nor deleted, and a delivery of any job with that event identifier, whatever handlers are registered
  then. Less than 24 hours after the mark was written, and with Redis reachable, the delivery succeeds and leaves the handlers' world untouched. After
  the 24 hours, or while Redis cannot be reached, it runs the handlers registered then again: what comes of the delivery, and of the world,
  is what the handlers make of it.
\<close>
theorem processEvent_idempotent:
  assumes "redis_store c p entries clock up"
    and i: "json_text (json_get ''eventId'' data) = i" "json_text (json_get ''eventId'' data') = i"
    and first: "\<not> event_marked p entries clock up (ps_cache s) i" "up (ca_redis (ps_cache s))" "handlers_of handlers data \<noteq> []"
      "Processor_processEvent c handlers data s = (Inr (), s')"
    and kept: "entries (ca_redis (ps_cache t)) (p @ DEDUP_PREFIX @ i) = entries (ca_redis (ps_cache s')) (p @ DEDUP_PREFIX @ i)"
  shows "if up (ca_redis (ps_cache t)) \<and> clock (ca_redis (ps_cache t)) < clock (ca_redis (ps_cache s')) + 24 * 3600 * 1000
    then \<exists>t'. Processor_processEvent c handlers' data' t = (Inr (), t') \<and> ps_world t' = ps_world t
    else \<exists>x t'. Processor_processEvent c handlers' data' t = (x, t') \<and>
      run_handlers (handlers_of handlers' data') (event_payload data') (ps_world t) = (x, ps_world t')"
proof -
  obtain x w where "run_handlers (handlers_of handlers data) (event_payload data) (ps_world s) = (x, w)" by fastforce
  from redis_store.processEvent_fresh [OF assms(1) first(1) i(1) [symmetric] this] first(2-4)
  have "entries (ca_redis (ps_cache s')) (p @ DEDUP_PREFIX @ i) = Some (Text (JStr ''1''), clock (ca_redis (ps_cache s')) + 86400000)"
    by (auto simp: DEDUP_TTL_SECONDS_def)
  then have marked: "event_marked p entries clock up (ps_cache t) i \<longleftrightarrow>
      up (ca_redis (ps_cache t)) \<and> clock (ca_redis (ps_cache t)) < clock (ca_redis (ps_cache s')) + 86400000"
    by (simp add: event_marked_def live_text_def kept)
  obtain y w' where run: "run_handlers (handlers_of handlers' data') (event_payload data') (ps_world t) = (y, w')" by fastforce
  show ?thesis
  proof (cases "event_marked p entries clock up (ps_cache t) i")
    case True
    with redis_store.processEvent_marked [OF assms(1), of t data' handlers'] marked i(2) show ?thesis by simp
  next
    case False
    from redis_store.processEvent_fresh [OF assms(1) False i(2) [symmetric] run] run False marked show ?thesis by auto
  qed
qed

definition sample_event :: "(string \<times> json) list" where
  "sample_event = Publisher_serialize (new_UserCreatedEvent ''ev-1'' ''u-1'' ''a@b.c'' 10) 20"

definition count_up :: "int handler" where
  "count_up = (\<lambda>payload n. (Inr (), n + 1))"

definition failing :: "int handler" where
  "failing = (\<lambda>payload n. (Inl (JsError ''boom''), n))"

lemma sample_event_texts:
  "json_text (json_get ''eventId'' sample_event) = ''ev-1''"
  "json_text (json_get ''eventName'' sample_event) = ''UserCreated''"
  by (simp_all add: sample_event_def serialized_id_name json_text_def new_UserCreatedEvent_def
      new_DomainEvent_def)

text \<open>The processor with nothing processed, and the same processor some milliseconds later.\<close>

definition fresh_processor :: "(int, mem_server) processor_state" where
  "fresh_processor = \<lparr>ps_world = 0, ps_cache = Cache_init empty_server\<rparr>"

definition after :: "int \<Rightarrow> ('w, mem_server) processor_state \<Rightarrow> ('w, mem_server) processor_state" where
  "after d s = s\<lparr>ps_cache := (ps_cache s)\<lparr>ca_redis := (ca_redis (ps_cache s))\<lparr>ms_clock := ms_clock (ca_redis (ps_cache s)) + d\<rparr>\<rparr>\<rparr>"

lemma fresh_unmarked: "\<not> event_marked p ms_store ms_clock ms_up (ps_cache fresh_processor) i"
  by (simp add: event_marked_def fresh_processor_def Cache_init_def empty_server_def live_text_def ms_store_def)

theorem processEvent_idempotent_witness:
  "\<exists>s' t1 t2. Processor_processEvent (mem_redis ''es:'') (\<lambda>n. Some [count_up]) sample_event fresh_processor = (Inr (), s') \<and>
     Processor_processEvent (mem_redis ''es:'') (\<lambda>n. Some [failing]) sample_event (after 86399999 s') = (Inr (), t1) \<and>
     ps_world t1 = ps_world s' \<and>
     Processor_processEvent (mem_redis ''es:'') (\<lambda>n. Some [failing]) sample_event (after 86400000 s') = (Inl (JsError ''boom''), t2)"
proof -
  have hs: "handlers_of (\<lambda>n. Some [count_up]) sample_event = [count_up]"
    "handlers_of (\<lambda>n. Some [failing]) sample_event = [failing]" by (simp_all add: handlers_of_def)
  have "run_handlers (handlers_of (\<lambda>n. Some [count_up]) sample_event) (event_payload sample_event) (ps_world fresh_processor) = (Inr (), 1)"
    by (simp add: hs(1)) (simp add: count_up_def fresh_processor_def bindP_def)
  from redis_store.processEvent_fresh [OF memcache.redis_store_axioms fresh_unmarked sample_event_texts(1) [symmetric] this]
  obtain s' where s': "Processor_processEvent (mem_redis ''es:'') (\<lambda>n. Some [count_up]) sample_event fresh_processor = (Inr (), s')"
    and up: "ms_up (ca_redis (ps_cache s'))" by (auto simp: fresh_processor_def Cache_init_def empty_server_def)
  have t: "ms_store (ca_redis (ps_cache (after d s'))) k = ms_store (ca_redis (ps_cache s')) k"
    "ms_clock (ca_redis (ps_cache (after d s'))) = ms_clock (ca_redis (ps_cache s')) + d"
    "ms_up (ca_redis (ps_cache (after d s')))" "ps_world (after d s') = ps_world s'" for d k
    using up by (simp_all add: after_def ms_store_def)
  have up0: "ms_up (ca_redis (ps_cache fresh_processor))" by (simp add: fresh_processor_def Cache_init_def empty_server_def)
  note later = processEvent_idempotent [OF memcache.redis_store_axioms sample_event_texts(1) sample_event_texts(1)
      fresh_unmarked up0 _ s', where handlers' = "\<lambda>n. Some [failing]", unfolded hs, simplified]
  from later [OF t(1) [of 86399999]] later [OF t(1) [of 86400000]] s' t show ?thesis by (auto simp: failing_def bindP_def)
qed

text \<open>
  At-least-once, not once, per handler: while the second of two handlers keeps failing, each of
  the \<open>n + 1\<close> delivery attempts runs the first handler again (its effect is applied \<open>n + 1\<close> times), the
  last attempt rethrows the failure and the event stays unmarked.
\<close>
theorem failing_handler_repeats_others:
  assumes "redis_store c p entries clock up"
    and "\<not> event_marked p entries clock up (ps_cache s) (json_text (json_get ''eventId'' data))"
    and "handlers_of handlers data = [h1, h2]"
    and "\<And>pl w. h1 pl w = (Inr (), f w)" and "\<And>pl w. h2 pl w = (Inl e, w)"
  shows "\<exists>s'. deliver (Suc n) c handlers data s = (Inl e, s') \<and>
    ps_world s' = (f ^^ Suc n) (ps_world s) \<and>
    \<not> event_marked p entries clock up (ps_cache s') (json_text (json_get ''eventId'' data))"
  by (rule redis_store.deliver_failing [OF assms(1), where handlers = handlers, OF assms(2,3)])
    (simp_all add: assms(4,5))

theorem failing_handler_repeats_others_witness:
  "\<exists>s'. deliver 3 (mem_redis ''es:'') (\<lambda>n. Some [count_up, failing]) sample_event fresh_processor =
     (Inl (JsError ''boom''), s') \<and> ps_world s' = 3"
proof -
  have "handlers_of (\<lambda>n. Some [count_up, failing]) sample_event = [count_up, failing]" by (simp add: handlers_of_def)
  from failing_handler_repeats_others [OF memcache.redis_store_axioms fresh_unmarked this,
      of "\<lambda>n. n + 1" "JsError ''boom''" 2]
  show ?thesis by (auto simp: count_up_def failing_def fresh_processor_def numeral_3_eq_3 numeral_2_eq_2)
qed

end
