(* ===== verification/UserService.thy ===== *)
theory UserService
  imports UserRepository Messaging
begin

text \<open>
  \<open>src/domain/domain-services/user-domain.service.ts\<close> over its three ports, and the hashing port's
  implementation \<open>src/infrastructure/security/password-hasher.impl.ts\<close> (bcrypt is third-party: two
  functions that may throw; the salt of a call is part of the function). The service's lemmas are
  proved once in the locale \<open>user_service\<close>, which joins the repository's contract with a publisher
  that keeps the stored users; the interpretation at the end runs the service on
  \<open>UserRepositoryImpl\<close> and \<open>EventPublisherImpl\<close>.
\<close>

section \<open>Password hashing\<close>

record hasher =
  ha_hash :: "string \<Rightarrow> exn + string"
  ha_compare :: "string \<Rightarrow> string \<Rightarrow> exn + bool"

definition Hasher_saltRounds :: nat where "Hasher_saltRounds = 12"

definition Hasher_hash :: "(string \<Rightarrow> nat \<Rightarrow> exn + string) \<Rightarrow> string \<Rightarrow> exn + string" where
  "Hasher_hash bcryptHash plainText =
     (if plainText = [] then Inl (JsError ''Password to hash must be a non-empty string'')
      else case bcryptHash plainText Hasher_saltRounds of
          Inr hashedValue \<Rightarrow> Inr hashedValue
        | Inl error \<Rightarrow> Inl (JsError ''Password hashing failed''))"

definition Hasher_compare :: "(string \<Rightarrow> string \<Rightarrow> exn + bool) \<Rightarrow> string \<Rightarrow> string \<Rightarrow> exn + bool" where
  "Hasher_compare bcryptCompare plainText hashedValue =
     (if plainText = [] then Inl (JsError ''Password to compare must be a non-empty string'')
      else if hashedValue = [] then Inl (JsError ''Hash to compare must be a non-empty string'')
      else case bcryptCompare plainText hashedValue of
          Inr isMatch \<Rightarrow> Inr isMatch
        | Inl error \<Rightarrow> Inr False)"

definition PasswordHasherImpl ::
  "(string \<Rightarrow> nat \<Rightarrow> exn + string) \<Rightarrow> (string \<Rightarrow> string \<Rightarrow> exn + bool) \<Rightarrow> hasher" where
  "PasswordHasherImpl bh bc = \<lparr>ha_hash = Hasher_hash bh, ha_compare = Hasher_compare bc\<rparr>"

section \<open>The service\<close>

type_synonym 's publisher = "DomainEvent list \<Rightarrow> ('s, exn, unit) proc"

text \<open>The tail the three operations share: pull the saved entity's events, publish them if any.\<close>

definition dispatch :: "'s publisher \<Rightarrow> User \<Rightarrow> ('s, exn, User) proc" where
  "dispatch publish savedUser =
     (case User_pullDomainEvents savedUser of (events, user) \<Rightarrow>
        if length events > 0 then bindP (publish events) (\<lambda>_. returnP user) else returnP user)"

definition Service_registerUser ::
  "'s user_repo \<Rightarrow> hasher \<Rightarrow> 's publisher \<Rightarrow> UniqueId \<Rightarrow> string \<Rightarrow> (nat \<Rightarrow> int) \<Rightarrow>
   Email \<Rightarrow> Password \<Rightarrow> string \<Rightarrow> string \<Rightarrow> ('s, exn, User) proc" where
  "Service_registerUser repo h publish newId eid clk email rawPassword firstName lastName =
     bindP (rp_existsByEmail repo email) (\<lambda>emailExists.
       if emailExists then throwP (EmailAlreadyExistsException (email_value email))
       else bindP (liftP (ha_hash h (Password_getRawValue rawPassword))) (\<lambda>hash.
            bindP (liftP (Password_fromHash hash)) (\<lambda>hashedPassword.
            bindP (liftP (User_create newId eid clk email hashedPassword firstName lastName)) (\<lambda>user.
            bindP (rp_save repo user) (\<lambda>savedUser. dispatch publish savedUser)))))"

definition Service_authenticate ::
  "'s user_repo \<Rightarrow> hasher \<Rightarrow> 's publisher \<Rightarrow> (nat \<Rightarrow> int) \<Rightarrow> Email \<Rightarrow> string \<Rightarrow>
   ('s, exn, User option) proc" where
  "Service_authenticate repo h publish clk email rawPassword =
     bindP (catchP (bindP (rp_findByEmail repo email) (\<lambda>u. returnP (Some u))) (\<lambda>error. returnP None))
       (\<lambda>found. case found of
           None \<Rightarrow> returnP None
         | Some user \<Rightarrow>
             (case pw_hashedValue (u_password user) of
                None \<Rightarrow> returnP None
              | Some storedHash \<Rightarrow>
                  if storedHash = [] then returnP None
                  else bindP (liftP (ha_compare h rawPassword storedHash)) (\<lambda>isValid.
                    if \<not> isValid then returnP None
                    else bindP (liftP (User_recordLogin clk user)) (\<lambda>user'.
                         bindP (rp_save repo user') (\<lambda>savedUser.
                         bindP (dispatch publish savedUser) (\<lambda>u. returnP (Some u)))))))"

definition Service_changePassword ::
  "'s user_repo \<Rightarrow> hasher \<Rightarrow> 's publisher \<Rightarrow> (nat \<Rightarrow> int) \<Rightarrow> string \<Rightarrow> string \<Rightarrow> Password \<Rightarrow>
   ('s, exn, bool) proc" where
  "Service_changePassword repo h publish clk userId currentPasswordRaw newPassword =
     bindP (liftP (UniqueId_fromString userId)) (\<lambda>i.
     bindP (rp_findById repo i) (\<lambda>user.
       case pw_hashedValue (u_password user) of
         None \<Rightarrow> returnP False
       | Some storedHash \<Rightarrow>
           if storedHash = [] then returnP False
           else bindP (liftP (ha_compare h currentPasswordRaw storedHash)) (\<lambda>isValid.
             if \<not> isValid then returnP False
             else bindP (liftP (ha_hash h (Password_getRawValue newPassword))) (\<lambda>newHash.
                  bindP (liftP (Password_fromHash newHash)) (\<lambda>hashedNewPassword.
                  bindP (rp_save repo (User_changePassword clk hashedNewPassword user)) (\<lambda>savedUser.
                  bindP (dispatch publish savedUser) (\<lambda>_. returnP True)))))))"

section \<open>The service over its contracts\<close>

lemma dispatch_no_events: "u_domainEvents u = [] \<Longrightarrow> dispatch publish u = returnP u"
  by (cases u) (simp add: dispatch_def User_pullDomainEvents_def)

lemma fromHash_cases:
  "Password_fromHash h = (if h = [] then Inl (JsError ''Password hash must be a non-empty string'')
     else Inr \<lparr>pw_rawValue = [], pw_hashedValue = Some h\<rparr>)"
  by (simp add: Password_fromHash_def)

lemma recordLogin_active:
  "u_status u = ACTIVE \<Longrightarrow> User_recordLogin clk u =
     Inr (u\<lparr>u_lastLoginAt := Some (clk 0), u_version := u_version u + 1, e_updatedAt := clk 1\<rparr>)"
  by (simp add: User_recordLogin_def markModified_def incrementVersion_def)

locale user_service = user_repository repo good view + event_publisher publish
  for repo :: "'s user_repo" and good view and publish :: "'s publisher" +
  assumes publish_keeps: "good s \<Longrightarrow> good (snd (publish es s)) \<and> view (snd (publish es s)) = view s"
begin

lemma dispatch_law:
  assumes "good s"
  shows "\<exists>u' s'. dispatch publish u s = (Inr u', s') \<and> good s' \<and> view s' = view s \<and>
    u' = u\<lparr>u_domainEvents := []\<rparr>"
  using never_throws [of "u_domainEvents u" s] publish_keeps [OF assms, of "u_domainEvents u"]
  by (cases "publish (u_domainEvents u) s")
    (auto simp: dispatch_def User_pullDomainEvents_def bindP_def assms)

lemma register_taken:
  "good s \<Longrightarrow> view s k = Some v \<Longrightarrow> u_email v = email \<Longrightarrow>
     Service_registerUser repo h publish newId eid clk email rawPassword fn ln s =
       (Inl (EmailAlreadyExistsException (email_value email)), s)"
  using exists_email [of s email] by (auto simp: Service_registerUser_def bindP_def)

lemma register_ok:
  assumes s: "good s" and free: "\<forall>k v. view s k = Some v \<longrightarrow> u_email v \<noteq> email"
    and hash: "ha_hash h (pw_rawValue rawPassword) = Inr hv" "hv \<noteq> []"
    and user: "User_create newId eid clk email \<lparr>pw_rawValue = [], pw_hashedValue = Some hv\<rparr> fn ln = Inr u"
    and ids: "UniqueId_fromString (uid_value newId) = Inr newId" "view s (uid_value newId) = None"
    and em: "Email_fromPersistence (email_value email) = email"
  shows "\<exists>u' s'. Service_registerUser repo h publish newId eid clk email rawPassword fn ln s = (Inr u', s') \<and>
    good s' \<and> view s' = (view s)(uid_value newId \<mapsto> u') \<and> saved_as u u' \<and>
    u_status u' = PENDING_VERIFICATION \<and> u_version u' = 1"
proof -
  note u = User_create_Inr [OF user]
  have st: "storable u" using u ids(1) em hash(2) by (simp add: storable_def)
  have fr: "email_free (view s) u" using free u by (auto simp: email_free_def)
  from save_new [OF s st _ fr] u ids(2) obtain u' s' where
    sv: "rp_save repo u s = (Inr u', s')" "good s'" "saved_as u u'"
    "view s' = (view s)(uid_value newId \<mapsto> u')" by auto
  have ne: "\<not> (\<exists>k v. view s k = Some v \<and> u_email v = email)" using free by blast
  have "u_domainEvents u' = []" using sv(3) by (simp add: saved_as_def)
  then have "Service_registerUser repo h publish newId eid clk email rawPassword fn ln s = (Inr u', s')"
    using exists_email [OF s, of email] ne hash user sv(1)
    by (simp add: Service_registerUser_def Password_getRawValue_def fromHash_cases bindP_def dispatch_no_events)
  with sv u show ?thesis by (auto simp: saved_as_def)
qed

lemma register_bad_names:
  assumes s: "good s" and free: "\<forall>k v. view s k = Some v \<longrightarrow> u_email v \<noteq> email"
    and hash: "ha_hash h (pw_rawValue rawPassword) = Inr hv" "hv \<noteq> []"
    and user: "User_create newId eid clk email \<lparr>pw_rawValue = [], pw_hashedValue = Some hv\<rparr> fn ln = Inl e"
  shows "Service_registerUser repo h publish newId eid clk email rawPassword fn ln s = (Inl e, s)"
proof -
  have "rp_existsByEmail repo email s = (Inr False, s)" using exists_email [OF s, of email] free by auto
  then show ?thesis
    using hash user by (simp add: Service_registerUser_def Password_getRawValue_def fromHash_cases bindP_def)
qed

lemma authenticate_unknown:
  "good s \<Longrightarrow> (\<forall>k v. view s k = Some v \<longrightarrow> u_email v \<noteq> email) \<Longrightarrow>
     Service_authenticate repo h publish clk email pw s = (Inr None, s)"
  using find_email_none [of s email] by (simp add: Service_authenticate_def bindP_def catchP_def)

lemma stored_hash:
  assumes "good s" and "view s k = Some v"
  obtains hv where "pw_hashedValue (u_password v) = Some hv" and "hv \<noteq> []"
  using held_ok [OF assms] by (auto simp: storable_def split: option.splits)

lemma authenticate_known:
  assumes s: "good s" and v: "view s k = Some v" "u_email v = email"
    and hv: "pw_hashedValue (u_password v) = Some hv"
  shows "case ha_compare h pw hv of
      Inl e \<Rightarrow> Service_authenticate repo h publish clk email pw s = (Inl e, s)
    | Inr False \<Rightarrow> Service_authenticate repo h publish clk email pw s = (Inr None, s)
    | Inr True \<Rightarrow>
        if u_status v = ACTIVE
        then \<exists>u' s'. Service_authenticate repo h publish clk email pw s = (Inr (Some u'), s') \<and>
          view s' = (view s)(k \<mapsto> u') \<and>
          saved_as (v\<lparr>u_lastLoginAt := Some (clk 0), u_version := u_version v + 1, e_updatedAt := clk 1\<rparr>) u'
        else \<exists>m. Service_authenticate repo h publish clk email pw s = (Inl (JsError m), s)"
proof -
  from held_ok [OF s v(1)] have st: "storable v" and i: "uid_value (e_id v) = k" and fr: "email_free (view s) v"
    by auto
  have ne: "hv \<noteq> []" using st hv by (simp add: storable_def)
  note f = find_email [OF s v]
  let ?v = "v\<lparr>u_lastLoginAt := Some (clk 0), u_version := u_version v + 1, e_updatedAt := clk 1\<rparr>"
  have "storable ?v" "email_free (view s) ?v" "uid_value (e_id ?v) = k" "u_version v = User_getExpectedVersion ?v"
    using st fr i by (simp_all add: storable_def email_free_def User_getExpectedVersion_def)
  with save_update [OF s, of ?v v] v(1) obtain u' s' where
    sv: "rp_save repo ?v s = (Inr u', s')" "good s'" "saved_as ?v u'" "view s' = (view s)(k \<mapsto> u')" by auto
  have "dispatch publish u' = returnP u'" using sv(3) by (simp add: saved_as_def dispatch_no_events)
  then have "Service_authenticate repo h publish clk email pw s = (Inr (Some u'), s')"
    if "ha_compare h pw hv = Inr True" "u_status v = ACTIVE"
    using that f hv ne sv(1)
    by (simp add: Service_authenticate_def bindP_def catchP_def recordLogin_active)
  moreover have "\<exists>m. Service_authenticate repo h publish clk email pw s = (Inl (JsError m), s)"
    if "ha_compare h pw hv = Inr True" "u_status v \<noteq> ACTIVE"
    using that f hv ne by (simp add: Service_authenticate_def bindP_def catchP_def User_recordLogin_def)
  ultimately show ?thesis
    using f hv ne sv
    by (auto simp: Service_authenticate_def bindP_def catchP_def split: sum.split bool.split)
qed

lemma changePassword_ok:
  assumes s: "good s" and i: "UniqueId_fromString userId = Inr i" and v: "view s (uid_value i) = Some v"
    and hv: "pw_hashedValue (u_password v) = Some hv" and cmp: "ha_compare h current hv = Inr True"
    and hash: "ha_hash h (pw_rawValue newPassword) = Inr nh" "nh \<noteq> []"
  shows "\<exists>u' s'. Service_changePassword repo h publish clk userId current newPassword s = (Inr True, s') \<and>
    view s' = (view s)(uid_value i \<mapsto> u') \<and> pw_hashedValue (u_password u') = Some nh \<and>
    u_version u' = u_version v + 1 \<and> u_status u' = u_status v"
proof -
  from held_ok [OF s v] have st: "storable v" and k: "uid_value (e_id v) = uid_value i"
    and fr: "email_free (view s) v" by auto
  have ne: "hv \<noteq> []" using st hv by (simp add: storable_def)
  let ?v = "User_changePassword clk \<lparr>pw_rawValue = [], pw_hashedValue = Some nh\<rparr> v"
  have "storable ?v" "email_free (view s) ?v" "uid_value (e_id ?v) = uid_value i"
    "u_version v = User_getExpectedVersion ?v" "u_version ?v = u_version v + 1" "u_status ?v = u_status v"
    "pw_hashedValue (u_password ?v) = Some nh"
    using st fr k hash(2)
    by (simp_all add: storable_def email_free_def User_getExpectedVersion_def User_changePassword_def
        markModified_def incrementVersion_def)
  note facts = this
  from save_update [OF s facts(1), of v] v facts(2-4) obtain u' s' where
    sv: "rp_save repo ?v s = (Inr u', s')" "saved_as ?v u'" "view s' = (view s)(uid_value i \<mapsto> u')" by auto
  have "dispatch publish u' = returnP u'" using sv(2) by (simp add: saved_as_def dispatch_no_events)
  then have "Service_changePassword repo h publish clk userId current newPassword s = (Inr True, s')"
    using find_id [OF s, of i] v i hv ne cmp hash sv(1)
    by (simp add: Service_changePassword_def bindP_def Password_getRawValue_def fromHash_cases)
  with sv facts(5-7) show ?thesis by (auto simp: saved_as_def)
qed

end

section \<open>On the implementations\<close>

text \<open>The queue is no part of the users' table.\<close>

definition queue_apart :: "(Job list \<Rightarrow> ('s, exn, unit) proc) \<Rightarrow> ('s \<Rightarrow> UserRow list) \<Rightarrow> bool" where
  "queue_apart addBulk tbl \<longleftrightarrow> (\<forall>js s. tbl (snd (addBulk js s)) = tbl s)"

lemma service_contract:
  assumes "prisma_users d tbl" and "queue_apart addBulk tbl"
  shows "user_service (UserRepositoryImpl d te clock) (\<lambda>s. table_ok (tbl s)) (\<lambda>s. users_of (tbl s))
    (Publisher_publish addBulk clk)"
proof -
  have keeps: "tbl (snd (Publisher_publish addBulk clk es s)) = tbl s" for es s
    using assms(2)
    by (auto simp: queue_apart_def Publisher_publish_def catchP_def bindP_def split: prod.split sum.split) (metis snd_conv)+
  show ?thesis
    by (intro user_service.intro user_service_axioms.intro prisma_users.impl_contract [OF assms(1)]
        queue_publisher.event_publisher_axioms) (simp add: keeps)
qed

text \<open>The table in memory beside a list of queued jobs.\<close>

type_synonym world = "memory_db \<times> Job list"

definition on_db :: "(memory_db, exn, 'a) proc \<Rightarrow> (world, exn, 'a) proc" where
  "on_db m = (\<lambda>(a, b). case m a of (x, a') \<Rightarrow> (x, (a', b)))"

definition world_delegate :: "world user_delegate" where
  "world_delegate =
     \<lparr>du_findUniqueById = (\<lambda>k. on_db (du_findUniqueById mem_delegate k)),
      du_findUniqueByEmail = (\<lambda>k. on_db (du_findUniqueByEmail mem_delegate k)),
      du_countByEmail = (\<lambda>k. on_db (du_countByEmail mem_delegate k)),
      du_update = (\<lambda>k n y. on_db (du_update mem_delegate k n y)),
      du_create = (\<lambda>x. on_db (du_create mem_delegate x)),
      du_delete = (\<lambda>k. on_db (du_delete mem_delegate k))\<rparr>"

definition world_addBulk :: "Job list \<Rightarrow> (world, exn, unit) proc" where
  "world_addBulk js = (\<lambda>(a, b). (Inr (), (a, b @ js)))"

definition world_rows :: "world \<Rightarrow> UserRow list" where
  "world_rows s = snd (fst s)"

interpretation worlddb: prisma_users world_delegate world_rows
  by unfold_locales
    (auto simp: world_delegate_def world_rows_def on_db_def mem_delegate_def list_ex_iff split: prod.splits if_splits)

interpretation service: user_service "UserRepositoryImpl world_delegate te (fst \<circ> fst)"
  "\<lambda>s. table_ok (world_rows s)" "\<lambda>s. users_of (world_rows s)" "Publisher_publish world_addBulk clk" for te clk
  by (rule service_contract [OF worlddb.prisma_users_axioms])
    (auto simp: queue_apart_def world_addBulk_def world_rows_def split: prod.splits)

section \<open>Properties\<close>

text \<open>
  Registration over the repository implementation: with a free email, a working bcrypt and valid
  names the new user is stored (pending, version 1, bcrypt's hash with cost 12 as its password) and
  returned; with a taken email it throws the conflict before hashing and nothing changes.
\<close>
theorem Service_register_stores:
  assumes "prisma_users d tbl" and "queue_apart addBulk tbl" and "table_ok (tbl s)"
    and "bh (pw_rawValue raw) 12 = Inr hv" and "pw_rawValue raw \<noteq> []" and "hv \<noteq> []"
    and "UniqueId_fromString (uid_value newId) = Inr newId" and "users_of (tbl s) (uid_value newId) = None"
    and "Email_create em0 = Inr email"
    and "str_trim fn \<noteq> []" "length (str_trim fn) \<le> 100" "str_trim ln \<noteq> []" "length (str_trim ln) \<le> 100"
  shows "case Service_registerUser (UserRepositoryImpl d te clock) (PasswordHasherImpl bh bc)
      (Publisher_publish addBulk pclk) newId eid clk email raw fn ln s of
      (Inr u, s') \<Rightarrow> users_of (tbl s') = (users_of (tbl s))(uid_value newId \<mapsto> u) \<and> table_ok (tbl s') \<and>
        u_email u = email \<and> pw_hashedValue (u_password u) = Some hv \<and> u_firstName u = str_trim fn \<and>
        u_lastName u = str_trim ln \<and> u_status u = PENDING_VERIFICATION \<and> u_version u = 1
    | (Inl e, s') \<Rightarrow> e = EmailAlreadyExistsException (email_value email) \<and> s' = s \<and>
        (\<exists>k v. users_of (tbl s) k = Some v \<and> u_email v = email)"
proof (cases "\<exists>k v. users_of (tbl s) k = Some v \<and> u_email v = email")
  note contract = service_contract [where clk = pclk and te = te and clock = clock, OF assms(1,2)]
  case True
  then obtain k v where kv: "users_of (tbl s) k = Some v" "u_email v = email" by blast
  have "Service_registerUser (UserRepositoryImpl d te clock) (PasswordHasherImpl bh bc)
      (Publisher_publish addBulk pclk) newId eid clk email raw fn ln s =
      (Inl (EmailAlreadyExistsException (email_value email)), s)"
    by (rule user_service.register_taken [OF contract, OF assms(3) kv])
  with True show ?thesis by simp
next
  note contract = service_contract [where clk = pclk and te = te and clock = clock, OF assms(1,2)]
  case False
  have hash: "ha_hash (PasswordHasherImpl bh bc) (pw_rawValue raw) = Inr hv"
    using assms(4,5) by (simp add: PasswordHasherImpl_def Hasher_hash_def Hasher_saltRounds_def)
  obtain u where u: "User_create newId eid clk email \<lparr>pw_rawValue = [], pw_hashedValue = Some hv\<rparr> fn ln = Inr u"
    by (rule User_create_ok [OF assms(10-13)])
  have em: "Email_fromPersistence (email_value email) = email"
    using assms(9) by (rule Email_create_stored)
  from False have free: "\<forall>k v. users_of (tbl s) k = Some v \<longrightarrow> u_email v \<noteq> email" by blast
  from user_service.register_ok [OF contract, OF assms(3) free hash assms(6) u assms(7,8) em]
  obtain u' s' where run: "Service_registerUser (UserRepositoryImpl d te clock) (PasswordHasherImpl bh bc)
      (Publisher_publish addBulk pclk) newId eid clk email raw fn ln s = (Inr u', s')"
    and "table_ok (tbl s')" "users_of (tbl s') = (users_of (tbl s))(uid_value newId \<mapsto> u')"
    and "saved_as u u'" "u_status u' = PENDING_VERIFICATION" "u_version u' = 1" by blast
  then show ?thesis using User_create_Inr [OF u] by (simp add: saved_as_def)
qed

definition sample_bcrypt :: "string \<Rightarrow> nat \<Rightarrow> exn + string" where
  "sample_bcrypt pw cost = Inr (''$'' @ show_nat cost @ ''$'' @ pw)"

definition sample_compare :: "string \<Rightarrow> string \<Rightarrow> exn + bool" where
  "sample_compare pw hv = Inr (hv = pw)"

lemma users_of_Nil: "users_of [] k = None"
  by (simp add: users_of_def)

lemma sample_ids:
  "UniqueId_fromString sample_uuid = Inr (UniqueId sample_uuid)"
  "Email_create ''a@b.c'' = Inr (Email ''a@b.c'')"
  by code_simp+

theorem Service_register_stores_witness:
  "\<exists>u s'. Service_registerUser (UserRepositoryImpl world_delegate (\<lambda>e i. e) (fst \<circ> fst))
      (PasswordHasherImpl sample_bcrypt sample_compare) (Publisher_publish world_addBulk (\<lambda>k. 7))
      (UniqueId sample_uuid) ''e'' (\<lambda>k. 5) (Email ''a@b.c'') \<lparr>pw_rawValue = ''Passw0rd!'', pw_hashedValue = None\<rparr>
      ''Ann'' ''Lee'' ((5, []), []) = (Inr u, s') \<and>
     users_of (world_rows s') sample_uuid = Some u \<and> u_status u = PENDING_VERIFICATION"
proof -
  have names: "str_trim ''Ann'' = ''Ann''" "str_trim ''Lee'' = ''Lee''"
    by (simp_all add: str_trim_def js_white_def)
  have "table_ok (world_rows ((5, []), []))" by (simp add: world_rows_def table_ok_def)
  moreover have "users_of (world_rows ((5, []), [])) sample_uuid = None"
    by (simp add: world_rows_def users_of_def)
  moreover have "queue_apart world_addBulk world_rows"
    by (auto simp: queue_apart_def world_addBulk_def world_rows_def split: prod.splits)
  ultimately show ?thesis
    using Service_register_stores [OF worlddb.prisma_users_axioms, where addBulk = world_addBulk
        and s = "((5, []), [])" and newId = "UniqueId sample_uuid"
        and raw = "\<lparr>pw_rawValue = ''Passw0rd!'', pw_hashedValue = None\<rparr>"
        and bh = sample_bcrypt and hv = "''$'' @ show_nat 12 @ ''$Passw0rd!''"
        and email = "Email ''a@b.c''" and ?em0.0 = "''a@b.c''" and fn = "''Ann''" and ln = "''Lee''"
        and te = "\<lambda>e i. e" and clock = "fst \<circ> fst" and bc = sample_compare and pclk = "\<lambda>k. 7"
        and eid = "''e''" and clk = "\<lambda>k. 5"]
    by (auto simp: sample_ids names sample_bcrypt_def world_rows_def users_of_Nil split: prod.splits sum.splits)
qed

text \<open>
  C26. Authentication decides on stored data alone. An unknown email or a wrong password gives null
  and changes nothing; with the right password an active user gets the login time and the next version stored. In two cases the call
  throws a plain error, although its documentation says that it does not throw on invalid credentials and gives
  null otherwise: for a known email with an empty password (before bcrypt sees it), and with the right password of a
  user who is not active.
\<close>
theorem Service_authenticate_decides:
  assumes "prisma_users d tbl" and "queue_apart addBulk tbl" and "table_ok (tbl s)"
    and "auth = Service_authenticate (UserRepositoryImpl d te clock) (PasswordHasherImpl bh bc)
      (Publisher_publish addBulk pclk) clk email pw s"
  shows "case find (\<lambda>r. ur_email r = email_value email) (tbl s) of
      None \<Rightarrow> auth = (Inr None, s)
    | Some r \<Rightarrow>
        if pw = [] then auth = (Inl (JsError ''Password to compare must be a non-empty string''), s)
        else if bc pw (ur_passwordHash r) \<noteq> Inr True then auth = (Inr None, s)
        else if ur_status r = ACTIVE
        then \<exists>u s'. auth = (Inr (Some u), s') \<and> users_of (tbl s') = (users_of (tbl s))(ur_id r \<mapsto> u) \<and>
          u_lastLoginAt u = Some (clk 0) \<and> u_version u = ur_version r + 1
        else \<exists>m. auth = (Inl (JsError m), s)"
proof -
  note contract = service_contract [where clk = pclk and te = te and clock = clock, OF assms(1,2)]
  show ?thesis
  proof (cases "find (\<lambda>r. ur_email r = email_value email) (tbl s)")
    case None
    have "\<forall>k v. users_of (tbl s) k = Some v \<longrightarrow> u_email v \<noteq> email"
      using None by (cases email) (auto simp: users_of_Some [OF assms(3)] find_None_iff_all)
    from user_service.authenticate_unknown [OF contract, OF assms(3) this] None show ?thesis
      by (simp add: assms(4))
  next
    case (Some r)
    then have r: "r \<in> set (tbl s)" "ur_email r = email_value email" by (auto dest: find_Some_in)
    have v: "users_of (tbl s) (ur_id r) = Some (user_of_row r)" by (rule users_of_row [OF assms(3) r(1)])
    have e: "u_email (user_of_row r) = email" using r by (cases email) simp
    have hv: "pw_hashedValue (u_password (user_of_row r)) = Some (ur_passwordHash r)"
      and st: "u_status (user_of_row r) = ur_status r"
      by (simp_all add: user_of_row_def User_reconstitute_def new_User_def)
    have ne: "ur_passwordHash r \<noteq> []" using assms(3) r(1) by (auto simp: table_ok_def list_all_iff row_ok_def)
    note known = user_service.authenticate_known [OF contract, OF assms(3) v e hv,
        where h = "PasswordHasherImpl bh bc" and clk = clk and pw = pw, folded assms(4)]
    show ?thesis
      using known Some ne st
      by (cases "bc pw (ur_passwordHash r)")
        (auto simp: PasswordHasherImpl_def Hasher_compare_def saved_as_def split: if_splits bool.splits)
  qed
qed

definition login_row :: UserRow where
  "login_row = stored_row\<lparr>ur_passwordHash := ''Passw0rd!''\<rparr>"

lemma login_row_ok: "table_ok [login_row]" "ur_email login_row = ''a@b.c''" "ur_status login_row = ACTIVE"
  "ur_passwordHash login_row = ''Passw0rd!''"
  using table_ok_stored_row
  by (simp_all add: login_row_def table_ok_def row_ok_def stored_row_def row_of_create_def
      create_data_of_def stored_user_def User_reconstitute_def new_User_def)

theorem Service_authenticate_decides_witness:
  "\<exists>u s'. Service_authenticate (UserRepositoryImpl world_delegate (\<lambda>e i. e) (fst \<circ> fst))
      (PasswordHasherImpl sample_bcrypt sample_compare) (Publisher_publish world_addBulk (\<lambda>k. 7))
      (\<lambda>k. 50) (Email ''a@b.c'') ''Passw0rd!'' ((5, [login_row]), []) = (Inr (Some u), s') \<and>
     u_lastLoginAt u = Some 50"
proof -
  have apart: "queue_apart world_addBulk world_rows"
    by (auto simp: queue_apart_def world_addBulk_def world_rows_def split: prod.splits)
  have ok: "table_ok (world_rows ((5, [login_row]), []))" by (simp add: world_rows_def login_row_ok)
  show ?thesis
    using Service_authenticate_decides [OF worlddb.prisma_users_axioms apart ok refl, of "\<lambda>e i. e" "fst \<circ> fst"
        sample_bcrypt sample_compare "\<lambda>k. 7" "\<lambda>k. 50" "Email ''a@b.c''" "''Passw0rd!''"]
    by (auto simp: world_rows_def login_row_ok sample_compare_def)
qed

text \<open>
  A password change with the right current password stores bcrypt's hash of the new raw password
  under the next version and keeps the status; with a wrong one it gives false and changes nothing.
  The new \<open>Password\<close> must still carry its raw text: one already hashed makes the call throw.
\<close>
theorem Service_changePassword_effect:
  assumes "prisma_users d tbl" and "queue_apart addBulk tbl" and "table_ok (tbl s)"
    and "UniqueId_fromString userId = Inr i" and "r \<in> set (tbl s)" and "ur_id r = uid_value i"
    and "current \<noteq> []" and "\<And>pl. bh pl 12 = Inr (hv pl) \<and> hv pl \<noteq> []"
    and "change = (\<lambda>new. Service_changePassword (UserRepositoryImpl d te clock) (PasswordHasherImpl bh bc)
      (Publisher_publish addBulk pclk) clk userId current new s)"
  shows "if bc current (ur_passwordHash r) \<noteq> Inr True then change new = (Inr False, s)
    else if pw_rawValue new = []
    then change new = (Inl (JsError ''Password to hash must be a non-empty string''), s)
    else \<exists>u s'. change new = (Inr True, s') \<and> users_of (tbl s') = (users_of (tbl s))(uid_value i \<mapsto> u) \<and>
      pw_hashedValue (u_password u) = Some (hv (pw_rawValue new)) \<and>
      u_version u = ur_version r + 1 \<and> u_status u = ur_status r"
proof -
  note contract = service_contract [where clk = pclk and te = te and clock = clock, OF assms(1,2)]
  have v: "users_of (tbl s) (uid_value i) = Some (user_of_row r)"
    using users_of_row [OF assms(3,5)] assms(6) by simp
  have sel: "pw_hashedValue (u_password (user_of_row r)) = Some (ur_passwordHash r)"
    "u_status (user_of_row r) = ur_status r"
    by (simp_all add: user_of_row_def User_reconstitute_def new_User_def)
  have ne: "ur_passwordHash r \<noteq> []" using assms(3,5) by (auto simp: table_ok_def list_all_iff row_ok_def)
  have found: "rp_findById (UserRepositoryImpl d te clock) i s = (Inr (user_of_row r), s)"
    using prisma_users.impl_find_id [OF assms(1,3), of te i] v by (simp add: UserRepositoryImpl_def)
  show ?thesis
  proof (cases "bc current (ur_passwordHash r) = Inr True \<and> pw_rawValue new \<noteq> []")
    case True
    then have "ha_compare (PasswordHasherImpl bh bc) current (ur_passwordHash r) = Inr True"
      "ha_hash (PasswordHasherImpl bh bc) (pw_rawValue new) = Inr (hv (pw_rawValue new))"
      using assms(7,8) ne
      by (simp_all add: PasswordHasherImpl_def Hasher_compare_def Hasher_hash_def Hasher_saltRounds_def)
    from user_service.changePassword_ok [OF contract, OF assms(3,4) v sel(1) this]
    show ?thesis using True assms(8) sel(2) by (simp add: assms(9))
  next
    case False
    then show ?thesis
      using assms(4,7) found sel(1) ne
      by (cases "bc current (ur_passwordHash r)")
        (auto simp: assms(9) Service_changePassword_def bindP_def PasswordHasherImpl_def Hasher_compare_def
          Hasher_hash_def Password_getRawValue_def split: if_splits bool.splits)
  qed
qed

theorem Service_changePassword_effect_witness:
  "\<exists>u s'. Service_changePassword (UserRepositoryImpl world_delegate (\<lambda>e i. e) (fst \<circ> fst))
      (PasswordHasherImpl sample_bcrypt sample_compare) (Publisher_publish world_addBulk (\<lambda>k. 7))
      (\<lambda>k. 50) sample_uuid ''Passw0rd!'' \<lparr>pw_rawValue = ''N3wpass!'', pw_hashedValue = None\<rparr>
      ((5, [login_row]), []) = (Inr True, s') \<and> users_of (world_rows s') sample_uuid = Some u"
proof -
  have apart: "queue_apart world_addBulk world_rows"
    by (auto simp: queue_apart_def world_addBulk_def world_rows_def split: prod.splits)
  have ok: "table_ok (world_rows ((5, [login_row]), []))" by (simp add: world_rows_def login_row_ok)
  have bh: "\<And>pl. sample_bcrypt pl 12 = Inr (''$'' @ show_nat 12 @ ''$'' @ pl) \<and> ''$'' @ show_nat 12 @ ''$'' @ pl \<noteq> []"
    by (simp add: sample_bcrypt_def)
  have "ur_id login_row = sample_uuid"
    by (simp add: login_row_def stored_row_def storable_stored_user)
  then show ?thesis
    using Service_changePassword_effect [OF worlddb.prisma_users_axioms apart ok sample_ids(1), where r = login_row and current = "''Passw0rd!''"
        and bh = sample_bcrypt and hv = "\<lambda>pl. ''$'' @ show_nat 12 @ ''$'' @ pl", OF _ _ _ bh refl, where te = "\<lambda>e i. e" and clock = "fst \<circ> fst" and
        bc = sample_compare and pclk = "\<lambda>k. 7" and clk = "\<lambda>k. 50" and new = "\<lparr>pw_rawValue = ''N3wpass!'', pw_hashedValue = None\<rparr>"]
    by (auto simp: world_rows_def login_row_ok sample_compare_def)
qed

text \<open>
  Over the repository implementation the service publishes no domain event, ever: the three
  operations behave identically with any two publishers, because \<open>save\<close> returns a reconstituted entity
  without events while the events stay in the unsaved object. So \<open>UserCreated\<close> is never sent.
\<close>
theorem Service_never_publishes:
  "Service_registerUser (UserRepositoryImpl d te clock) h pub newId eid clk email raw fn ln s =
     Service_registerUser (UserRepositoryImpl d te clock) h pub' newId eid clk email raw fn ln s \<and>
   Service_authenticate (UserRepositoryImpl d te clock) h pub clk email pw s =
     Service_authenticate (UserRepositoryImpl d te clock) h pub' clk email pw s \<and>
   Service_changePassword (UserRepositoryImpl d te clock) h pub clk userId pw new s =
     Service_changePassword (UserRepositoryImpl d te clock) h pub' clk userId pw new s"
proof -
  have save: "u_domainEvents u' = []" if "Repo_save d te clock u t = (Inr u', t')" for u t u' t'
    using that
    by (auto simp: Repo_save_def catchP_def bindP_def Repo_toDomain_def User_reconstitute_def new_User_def
        Let_def bindE_eq_Inr split: prod.splits sum.splits option.splits)
  have 1: "bindP (rp_save (UserRepositoryImpl d te clock) u) (dispatch p) =
      rp_save (UserRepositoryImpl d te clock) u" for u p
    by (rule ext)
      (auto simp: bindP_def UserRepositoryImpl_def dispatch_no_events dest!: save split: prod.split sum.split)
  have 2: "bindP (rp_save (UserRepositoryImpl d te clock) u) (\<lambda>v. bindP (dispatch p v) k) =
      bindP (rp_save (UserRepositoryImpl d te clock) u) k" for u p and k :: "User \<Rightarrow> ('a, exn, 'c) proc"
    by (rule ext)
      (auto simp: bindP_def UserRepositoryImpl_def dispatch_no_events dest!: save split: prod.split sum.split)
  show ?thesis
    unfolding Service_registerUser_def Service_authenticate_def Service_changePassword_def 1 2
    by (intro conjI refl)
qed

end
