(* ===== verification/UseCases.thy ===== *)
theory UseCases
  imports Results UserService
begin

text \<open>
  The application layer: \<open>src/application/use-cases/*.ts\<close>, \<open>mappers/user.mapper.ts\<close>,
  \<open>decorators/validate.decorator.ts\<close> and the unit of work
  (\<open>src/infrastructure/database/unit-of-work.ts\<close>). A use case returns a \<open>Result\<close> (a value) or lets an
  exception escape (\<open>Inl\<close>). The session repository and the token service are ports without an
  implementation in the repository: records of operations, with the laws a property needs as its
  hypothesis. class-validator and class-transformer are third-party: one function from the input to
  the instance and its validation errors.
\<close>

record AppError =
  ae_code :: string
  ae_message :: string
  ae_details :: "(string \<times> json) list option"

section \<open>Input validation\<close>

datatype ValidationError =
  ValidationError (ve_property: string) (ve_constraints: "(string \<times> string) list option")
    (ve_children: "ValidationError list")

record FormattedError =
  fe_field :: string
  fe_message :: string
  fe_constraints :: "string list"

fun formatValidationErrors :: "string \<Rightarrow> ValidationError list \<Rightarrow> FormattedError list" where
  "formatValidationErrors parentPath [] = []"
| "formatValidationErrors parentPath (ValidationError prop constraints children # errors) =
     (let field = (if parentPath \<noteq> [] then parentPath @ ''.'' @ prop else prop)
      in (case constraints of
            None \<Rightarrow> []
          | Some cs \<Rightarrow> [\<lparr>fe_field = field, fe_message = str_join ''; '' (map snd cs),
                         fe_constraints = map fst cs\<rparr>]) @
         formatValidationErrors field children @
         formatValidationErrors parentPath errors)"

definition formatted_json :: "FormattedError \<Rightarrow> json" where
  "formatted_json e = JObj [(''field'', JStr (fe_field e)), (''message'', JStr (fe_message e)),
     (''constraints'', JArr (map JStr (fe_constraints e)))]"

text \<open>The input is \<open>None\<close> for \<open>undefined\<close> and \<open>null\<close>; \<open>validator\<close> instantiates and validates.\<close>

definition ValidateInput ::
  "('i \<Rightarrow> 'd \<times> ValidationError list) \<Rightarrow> ('d \<Rightarrow> ('s, exn, ('a, AppError) Result) proc) \<Rightarrow> 'i option \<Rightarrow>
   ('s, exn, ('a, AppError) Result) proc" where
  "ValidateInput validator originalMethod input =
     (case input of
        None \<Rightarrow> returnP (AResult_fail \<lparr>ae_code = ''VALIDATION_ERROR'',
          ae_message = ''Request body is required.'', ae_details = None\<rparr>)
      | Some i \<Rightarrow>
          (case validator i of (dtoInstance, errors) \<Rightarrow>
             if length errors > 0
             then returnP (AResult_fail \<lparr>ae_code = ''VALIDATION_ERROR'',
               ae_message = ''Input validation failed.'',
               ae_details = Some [(''errors'', JArr (map formatted_json (formatValidationErrors '''' errors)))]\<rparr>)
             else originalMethod dtoInstance))"

section \<open>Unit of work\<close>

text \<open>
  \<open>transaction\<close> is \<open>PrismaService.transaction\<close> (Prisma's interactive transaction): it runs the callback
  with a transaction client \<open>'tx\<close>. The callback here hands out the ordinary repository.
\<close>

definition UnitOfWork_execute ::
  "(('tx \<Rightarrow> ('s, exn, 'a) proc) \<Rightarrow> ('s, exn, 'a) proc) \<Rightarrow> 's user_repo \<Rightarrow>
   ('s user_repo \<Rightarrow> ('s, exn, 'a) proc) \<Rightarrow> ('s, exn, 'a) proc" where
  "UnitOfWork_execute transaction userRepo fn =
     catchP (bindP (transaction (\<lambda>tx. let repos = userRepo in fn repos)) (\<lambda>result. returnP result))
       (\<lambda>error. throwP error)"

section \<open>Mapping users to DTOs\<close>

record UserResponseDto =
  ur_dto_id :: string
  ur_dto_email :: string
  ur_dto_firstName :: string
  ur_dto_lastName :: string
  ur_dto_fullName :: string
  ur_dto_status :: UserStatus
  ur_dto_emailVerified :: bool
  ur_dto_lastLoginAt :: "int option"
  ur_dto_createdAt :: int
  ur_dto_updatedAt :: int
  ur_dto_roleIds :: "string list"

definition UserMapper_toDTO :: "User \<Rightarrow> UserResponseDto" where
  "UserMapper_toDTO user =
     \<lparr>ur_dto_id = UniqueId_toString (e_id user), ur_dto_email = email_value (u_email user),
      ur_dto_firstName = u_firstName user, ur_dto_lastName = u_lastName user,
      ur_dto_fullName = User_fullName user, ur_dto_status = u_status user,
      ur_dto_emailVerified = u_emailVerified user, ur_dto_lastLoginAt = u_lastLoginAt user,
      ur_dto_createdAt = e_createdAt user, ur_dto_updatedAt = e_updatedAt user, ur_dto_roleIds = []\<rparr>"

record CreateUserDto =
  cd_email :: string
  cd_firstName :: string
  cd_lastName :: string
  cd_password :: string

definition UserMapper_toCreateParams :: "CreateUserDto \<Rightarrow> CreateUserDto" where
  "UserMapper_toCreateParams dto =
     \<lparr>cd_email = str_lower (str_trim (cd_email dto)), cd_firstName = str_trim (cd_firstName dto),
      cd_lastName = str_trim (cd_lastName dto), cd_password = cd_password dto\<rparr>"

definition UserMapper_toDTOList :: "User list \<Rightarrow> UserResponseDto list" where
  "UserMapper_toDTOList users = map UserMapper_toDTO users"

section \<open>Creating a user\<close>

text \<open>
  \<open>result.fail\<close> of a caught domain exception. \<open>register\<close> is the domain service's \<open>registerUser\<close> with
  the email, the raw password and the names; \<open>uow\<close> is the unit of work's \<open>execute\<close>. This is the method's body;
  theory \<open>CreateUser\<close> puts its two decorators around it.
\<close>

definition fail_of_exn :: "exn \<Rightarrow> ('a, AppError) Result" where
  "fail_of_exn error = AResult_fail \<lparr>ae_code = domain_exn_code error,
     ae_message = domain_exn_message error, ae_details = Some (domain_exn_metadata error)\<rparr>"

fun is_EmailAlreadyExists :: "exn \<Rightarrow> bool" where
  "is_EmailAlreadyExists (EmailAlreadyExistsException e) = True"
| "is_EmailAlreadyExists _ = False"

definition CreateUser_body ::
  "(('s, exn, User) proc \<Rightarrow> ('s, exn, User) proc) \<Rightarrow>
   (Email \<Rightarrow> Password \<Rightarrow> string \<Rightarrow> string \<Rightarrow> ('s, exn, User) proc) \<Rightarrow> CreateUserDto \<Rightarrow>
   ('s, exn, (UserResponseDto, AppError) Result) proc" where
  "CreateUser_body uow register dto =
     catchP
       (case bindE (Email_create (cd_email dto)) (\<lambda>email.
              bindE (Password_create (cd_password dto)) (\<lambda>rawPassword. Inr (email, rawPassword))) of
          Inl error \<Rightarrow>
            if is_Error error
            then returnP (AResult_fail \<lparr>ae_code = ''VALIDATION_ERROR'', ae_message = exn_message error,
                   ae_details = None\<rparr>)
            else throwP error
        | Inr (email, rawPassword) \<Rightarrow>
            bindP (uow (register email rawPassword (cd_firstName dto) (cd_lastName dto)))
              (\<lambda>user. returnP (AResult_ok (UserMapper_toDTO user))))
       (\<lambda>error.
          if is_EmailAlreadyExists error then returnP (fail_of_exn error)
          else if is_DomainException error then returnP (fail_of_exn error)
          else throwP error)"

section \<open>Sessions and tokens: the ports\<close>

record SessionSnapshot =
  ss_id :: string
  ss_userId :: string
  ss_refreshToken :: string
  ss_userAgent :: "string option"
  ss_ipAddress :: "string option"
  ss_expiresAt :: int
  ss_createdAt :: int
  ss_revokedAt :: "int option"

record NewSession =
  ns_userId :: string
  ns_refreshToken :: string
  ns_userAgent :: "string option"
  ns_ipAddress :: "string option"
  ns_expiresAt :: int

record 's session_repo =
  sr_findByRefreshToken :: "string \<Rightarrow> ('s, exn, SessionSnapshot option) proc"
  sr_create :: "NewSession \<Rightarrow> ('s, exn, SessionSnapshot) proc"
  sr_revoke :: "string \<Rightarrow> ('s, exn, unit) proc"
  sr_revokeAllForUser :: "string \<Rightarrow> ('s, exn, nat) proc"

text \<open>\<open>ts_refresh\<close> is the fresh token the call draws; the access token is made from \<open>sub\<close> and \<open>email\<close>.\<close>

record token_service =
  ts_access :: "string \<Rightarrow> string \<Rightarrow> string"
  ts_refresh :: string
  ts_accessTtl :: int
  ts_refreshTtl :: int

record AuthTokens =
  at_accessToken :: string
  at_refreshToken :: string
  at_expiresIn :: int
  at_tokenType :: string
  at_userId :: string
  at_userEmail :: string
  at_userFullName :: string

definition tokens_for :: "token_service \<Rightarrow> User \<Rightarrow> AuthTokens" where
  "tokens_for ts user =
     \<lparr>at_accessToken = ts_access ts (UniqueId_toString (e_id user)) (email_value (u_email user)),
      at_refreshToken = ts_refresh ts, at_expiresIn = ts_accessTtl ts, at_tokenType = ''Bearer'',
      at_userId = UniqueId_toString (e_id user), at_userEmail = email_value (u_email user),
      at_userFullName = User_fullName user\<rparr>"

section \<open>Authenticating\<close>

record AuthParams =
  ap_email :: string
  ap_password :: string
  ap_userAgent :: "string option"
  ap_ipAddress :: "string option"

definition INVALID_CREDENTIALS_FAILURE :: AppError where
  "INVALID_CREDENTIALS_FAILURE = \<lparr>ae_code = ''INVALID_CREDENTIALS'',
     ae_message = ''Invalid email or password.'', ae_details = None\<rparr>"

fun is_UserSuspended :: "exn \<Rightarrow> bool" where
  "is_UserSuspended (UserSuspendedException u) = True"
| "is_UserSuspended _ = False"

text \<open>
  \<open>authenticate\<close> is the domain service's; \<open>sessionId\<close> the UUID drawn for the event, \<open>eid\<close> the
  event's own; \<open>now\<close> is \<open>Date.now()\<close> for the expiry, \<open>now'\<close> the event's time.
\<close>

definition AuthenticateUser_execute ::
  "(Email \<Rightarrow> string \<Rightarrow> ('s, exn, User option) proc) \<Rightarrow> 's session_repo \<Rightarrow> token_service \<Rightarrow> 's publisher \<Rightarrow>
   string \<Rightarrow> string \<Rightarrow> int \<Rightarrow> int \<Rightarrow> AuthParams \<Rightarrow> ('s, exn, (AuthTokens, AppError) Result) proc" where
  "AuthenticateUser_execute authenticate sr ts publish sessionId eid now now' params =
     catchP
       (case Email_create (ap_email params) of
          Inl error \<Rightarrow> returnP (AResult_fail INVALID_CREDENTIALS_FAILURE)
        | Inr email \<Rightarrow>
            bindP (authenticate email (ap_password params)) (\<lambda>found. case found of
              None \<Rightarrow> returnP (AResult_fail INVALID_CREDENTIALS_FAILURE)
            | Some user \<Rightarrow>
                bindP (sr_create sr
                    \<lparr>ns_userId = UniqueId_toString (e_id user), ns_refreshToken = ts_refresh ts,
                     ns_userAgent = ap_userAgent params, ns_ipAddress = ap_ipAddress params,
                     ns_expiresAt = now + ts_refreshTtl ts * 1000\<rparr>) (\<lambda>_.
                bindP (catchP (publish [new_UserAuthenticatedEvent eid (UniqueId_toString (e_id user))
                                 sessionId (ap_ipAddress params) (ap_userAgent params) now'])
                         (\<lambda>err. returnP ())) (\<lambda>_.
                  returnP (AResult_ok (tokens_for ts user))))))
       (\<lambda>error.
          if is_UserSuspended error
          then returnP (AResult_fail \<lparr>ae_code = domain_exn_code error,
                 ae_message = ''This account has been suspended. Please contact support.'',
                 ae_details = Some (domain_exn_metadata error)\<rparr>)
          else if is_DomainException error then returnP (fail_of_exn error)
          else throwP error)"

section \<open>Refreshing\<close>

record RefreshParams =
  rf_refreshToken :: string
  rf_userAgent :: "string option"
  rf_ipAddress :: "string option"

definition nullish :: "'a option \<Rightarrow> 'a option \<Rightarrow> 'a option" where
  "nullish a b = (case a of Some x \<Rightarrow> Some x | None \<Rightarrow> b)"

definition refresh_failure :: "string \<Rightarrow> string \<Rightarrow> AppError" where
  "refresh_failure code message = \<lparr>ae_code = code, ae_message = message, ae_details = None\<rparr>"

definition RefreshToken_execute ::
  "'s user_repo \<Rightarrow> 's session_repo \<Rightarrow> token_service \<Rightarrow> int \<Rightarrow> int \<Rightarrow> RefreshParams \<Rightarrow>
   ('s, exn, (AuthTokens, AppError) Result) proc" where
  "RefreshToken_execute repo sr ts now now' params =
     bindP (sr_findByRefreshToken sr (rf_refreshToken params)) (\<lambda>found. case found of
       None \<Rightarrow> returnP (AResult_fail (refresh_failure ''TOKEN_INVALID'' ''Invalid refresh token.''))
     | Some session \<Rightarrow>
         if ss_revokedAt session \<noteq> None
         then bindP (sr_revokeAllForUser sr (ss_userId session)) (\<lambda>_.
                returnP (AResult_fail (refresh_failure ''REFRESH_TOKEN_REVOKED''
                  ''This refresh token has been revoked. All sessions have been terminated for security.'')))
         else if ss_expiresAt session < now
         then returnP (AResult_fail (refresh_failure ''TOKEN_EXPIRED''
                ''Refresh token has expired. Please log in again.''))
         else bindP (catchP (bindP (liftP (UniqueId_fromString (ss_userId session))) (\<lambda>userId.
                       bindP (rp_findById repo userId) (\<lambda>u. returnP (Inr u))))
                (\<lambda>error. if is_UserNotFound error
                   then returnP (Inl \<lparr>ae_code = domain_exn_code error,
                     ae_message = ''User associated with this token no longer exists.'',
                     ae_details = Some (domain_exn_metadata error)\<rparr>)
                   else throwP error)) (\<lambda>loaded. case loaded of
                Inl failure \<Rightarrow> returnP (AResult_fail failure)
              | Inr user \<Rightarrow>
                  if \<not> User_isActive user
                  then returnP (AResult_fail (refresh_failure ''USER_INACTIVE'' ''This account is no longer active.''))
                  else bindP (sr_revoke sr (ss_id session)) (\<lambda>_.
                       bindP (sr_create sr
                         \<lparr>ns_userId = UniqueId_toString (e_id user), ns_refreshToken = ts_refresh ts,
                          ns_userAgent = nullish (rf_userAgent params) (ss_userAgent session),
                          ns_ipAddress = nullish (rf_ipAddress params) (ss_ipAddress session),
                          ns_expiresAt = now' + ts_refreshTtl ts * 1000\<rparr>) (\<lambda>_.
                         returnP (AResult_ok (tokens_for ts user))))))"

section \<open>Hypotheses on the ports\<close>

text \<open>
  A callback that does not use its transaction client runs as it would outside the transaction: its
  queries go through another connection, which Prisma neither commits nor rolls back.
\<close>

definition tx_transparent :: "(('tx \<Rightarrow> ('s, exn, 'a) proc) \<Rightarrow> ('s, exn, 'a) proc) \<Rightarrow> bool" where
  "tx_transparent transaction \<longleftrightarrow> (\<forall>m s. transaction (\<lambda>tx. m) s = m s)"

text \<open>A session table, \<open>sess s\<close>: what the comments of the port say of its operations.\<close>

definition revoke_where :: "(SessionSnapshot \<Rightarrow> bool) \<Rightarrow> int \<Rightarrow> SessionSnapshot list \<Rightarrow> SessionSnapshot list" where
  "revoke_where P now = map (\<lambda>x. if P x \<and> ss_revokedAt x = None then x\<lparr>ss_revokedAt := Some now\<rparr> else x)"

definition session_laws :: "'s session_repo \<Rightarrow> ('s \<Rightarrow> SessionSnapshot list) \<Rightarrow> bool" where
  "session_laws sr sess \<longleftrightarrow>
     (\<forall>t s. sr_findByRefreshToken sr t s = (Inr (find (\<lambda>x. ss_refreshToken x = t) (sess s)), s)) \<and>
     (\<forall>i s. \<exists>s' now. sr_revoke sr i s = (Inr (), s') \<and> sess s' = revoke_where (\<lambda>x. ss_id x = i) now (sess s)) \<and>
     (\<forall>u s. \<exists>s' now n. sr_revokeAllForUser sr u s = (Inr n, s') \<and>
        sess s' = revoke_where (\<lambda>x. ss_userId x = u) now (sess s)) \<and>
     (\<forall>x s. \<exists>s' y. sr_create sr x s = (Inr y, s') \<and> sess s' = sess s @ [y] \<and>
        ss_userId y = ns_userId x \<and> ss_refreshToken y = ns_refreshToken x \<and> ss_revokedAt y = None \<and> ss_expiresAt y = ns_expiresAt x)"

section \<open>Lemmas\<close>

lemma find_revoke_where:
  "find (\<lambda>x. ss_refreshToken x = t) (revoke_where P now xs) =
     map_option (\<lambda>x. if P x \<and> ss_revokedAt x = None then x\<lparr>ss_revokedAt := Some now\<rparr> else x)
       (find (\<lambda>x. ss_refreshToken x = t) xs)"
  by (induction xs) (auto simp: revoke_where_def)

lemma revoke_where_all:
  "x \<in> set (revoke_where P now xs) \<Longrightarrow> P x \<Longrightarrow> (\<And>y t. P (y\<lparr>ss_revokedAt := t\<rparr>) = P y) \<Longrightarrow>
     ss_revokedAt x \<noteq> None"
  by (auto simp: revoke_where_def split: if_splits)

lemma find_append_Some: "find P xs = Some x \<Longrightarrow> find P (xs @ ys) = Some x"
  by (induction xs) auto

section \<open>Properties\<close>


definition mem_sessions :: "(nat \<times> SessionSnapshot list) session_repo" where
  "mem_sessions =
     \<lparr>sr_findByRefreshToken = (\<lambda>t (n, xs). (Inr (find (\<lambda>x. ss_refreshToken x = t) xs), (n, xs))),
      sr_create = (\<lambda>x (n, xs). let y = \<lparr>ss_id = show_nat n, ss_userId = ns_userId x,
         ss_refreshToken = ns_refreshToken x, ss_userAgent = ns_userAgent x, ss_ipAddress = ns_ipAddress x,
         ss_expiresAt = ns_expiresAt x, ss_createdAt = int n, ss_revokedAt = None\<rparr>
         in (Inr y, (n + 1, xs @ [y]))),
      sr_revoke = (\<lambda>i (n, xs). (Inr (), (n + 1, revoke_where (\<lambda>x. ss_id x = i) (int n) xs))),
      sr_revokeAllForUser = (\<lambda>u (n, xs). (Inr (length xs), (n + 1, revoke_where (\<lambda>x. ss_userId x = u) (int n) xs)))\<rparr>"

lemma mem_session_laws: "session_laws mem_sessions snd"
  by (auto simp: session_laws_def mem_sessions_def Let_def split: prod.split)

definition sample_snapshot :: SessionSnapshot where
  "sample_snapshot = \<lparr>ss_id = ''s1'', ss_userId = sample_uuid, ss_refreshToken = ''tok'', ss_userAgent = None,
     ss_ipAddress = None, ss_expiresAt = 900, ss_createdAt = 1, ss_revokedAt = None\<rparr>"

definition sample_tokens :: token_service where
  "sample_tokens = \<lparr>ts_access = (\<lambda>a b. ''acc''), ts_refresh = ''tok2'', ts_accessTtl = 60, ts_refreshTtl = 600\<rparr>"

definition only_stored_user :: "'s user_repo" where
  "only_stored_user = \<lparr>rp_findById = (\<lambda>i. returnP stored_user), rp_findByEmail = (\<lambda>e. returnP stored_user),
     rp_existsByEmail = (\<lambda>e. returnP True), rp_save = returnP, rp_delete = (\<lambda>i. returnP ())\<rparr>"


text \<open>
  The unit of work is not atomic: it hands out the ordinary repository, so a save that succeeded
  inside it stays when the callback throws afterwards.
\<close>
theorem UnitOfWork_keeps_writes:
  assumes "tx_transparent transaction" and "rp_save repo u s = (Inr u', s')"
  shows "UnitOfWork_execute transaction repo (\<lambda>repos. bindP (rp_save repos u) (\<lambda>_. throwP e)) s = (Inl e, s')"
  using assms by (simp add: UnitOfWork_execute_def tx_transparent_def Let_def bindP_def catchP_def)

theorem UnitOfWork_keeps_writes_witness:
  "\<exists>u' s'. UnitOfWork_execute (\<lambda>body. body ()) (UserRepositoryImpl mem_delegate (\<lambda>e i. e) fst)
      (\<lambda>repos. bindP (rp_save repos stored_user) (\<lambda>_. throwP (JsError ''later''))) (30, []) = (Inl (JsError ''later''), s') \<and>
     users_of (snd s') sample_uuid = Some u'"
proof -
  obtain u' s' where save: "rp_save (UserRepositoryImpl mem_delegate (\<lambda>e i. e) fst) stored_user (30, []) = (Inr u', s')"
    and "users_of (snd s') sample_uuid = Some u'"
    using memdb.impl.save_new [of "(30, [])" stored_user "\<lambda>e i. e" fst] storable_stored_user
    by (auto simp: table_ok_def users_of_Nil email_free_def)
  moreover have "tx_transparent (\<lambda>body. body ())" by (simp add: tx_transparent_def)
  from UnitOfWork_keeps_writes [OF this save] calculation show ?thesis by blast
qed

lemma Password_create_cases:
  "Password_create raw = (if strength_errors raw = [] then Inr \<lparr>pw_rawValue = raw, pw_hashedValue = None\<rparr>
     else Inl (JsError (if raw = [] then ''Password must be a non-empty string''
       else ''Password validation failed: '' @ str_join ''; '' (strength_errors raw))))"
  by (auto simp: Password_create_def Password_validateStrength_def Let_def strength_errors_def
      Password_MIN_LENGTH_def)

lemma Email_create_Inl: "Email_create raw = Inl e \<Longrightarrow> \<exists>m. e = JsError m"
  by (auto simp: Email_create_def Let_def split: if_splits)

text \<open>
  The body of the use case over the repository and publisher implementations, whatever DTO it is given.
\<close>
lemma CreateUser_body_decides:
  assumes "prisma_users d tbl" and "queue_apart addBulk tbl" and ok: "table_ok (tbl s)"
    and tx: "tx_transparent transaction" and bh: "\<And>pl. bh pl 12 = Inr (hv pl) \<and> hv pl \<noteq> []"
    and ids: "UniqueId_fromString (uid_value newId) = Inr newId" "users_of (tbl s) (uid_value newId) = None"
    and impl: "impl = UserRepositoryImpl d te clock"
    and result: "result = CreateUser_body (\<lambda>m. UnitOfWork_execute transaction impl (\<lambda>repos. m))
      (Service_registerUser impl (PasswordHasherImpl bh bc) (Publisher_publish addBulk pclk) newId eid clk) dto s"
  shows "case Email_create (cd_email dto) of
      Inl e \<Rightarrow> result = (Inr (Fail \<lparr>ae_code = ''VALIDATION_ERROR'', ae_message = exn_message e, ae_details = None\<rparr>), s)
    | Inr email \<Rightarrow>
        if strength_errors (cd_password dto) \<noteq> []
        then \<exists>m. result = (Inr (Fail \<lparr>ae_code = ''VALIDATION_ERROR'', ae_message = m, ae_details = None\<rparr>), s)
        else if \<exists>k v. users_of (tbl s) k = Some v \<and> u_email v = email
        then result = (Inr (fail_of_exn (EmailAlreadyExistsException (email_value email))), s)
        else if \<not> (str_trim (cd_firstName dto) \<noteq> [] \<and> length (str_trim (cd_firstName dto)) \<le> 100 \<and>
                   str_trim (cd_lastName dto) \<noteq> [] \<and> length (str_trim (cd_lastName dto)) \<le> 100)
        then \<exists>m. result = (Inl (JsError m), s)
        else \<exists>u s'. result = (Inr (Ok (UserMapper_toDTO u)), s') \<and>
          users_of (tbl s') = (users_of (tbl s))(uid_value newId \<mapsto> u) \<and> u_email u = email"
proof (cases "Email_create (cd_email dto)")
  case (Inl e)
  then show ?thesis
    using Email_create_Inl [OF Inl]
    by (auto simp: result CreateUser_body_def catchP_def AResult_fail_def)
next
  case (Inr email)
  let ?reg = "Service_registerUser impl (PasswordHasherImpl bh bc) (Publisher_publish addBulk pclk) newId eid clk"
  note contract = service_contract [where clk = pclk and te = te and clock = clock, OF assms(1,2), folded impl]
  let ?raw = "\<lparr>pw_rawValue = cd_password dto, pw_hashedValue = None\<rparr>"
  have res: "result = (case ?reg email ?raw (cd_firstName dto) (cd_lastName dto) s of
      (Inr u, s') \<Rightarrow> (Inr (Ok (UserMapper_toDTO u)), s')
    | (Inl e, s') \<Rightarrow> if is_DomainException e then (Inr (fail_of_exn e), s') else (Inl e, s'))"
    if "strength_errors (cd_password dto) = []"
    using that tx Inr
    by (auto simp: result CreateUser_body_def Password_create_cases UnitOfWork_execute_def tx_transparent_def
        catchP_def bindP_def Let_def AResult_ok_def elim: is_EmailAlreadyExists.elims split: prod.split sum.split)
  have weak: "\<exists>m. result = (Inr (Fail \<lparr>ae_code = ''VALIDATION_ERROR'', ae_message = m, ae_details = None\<rparr>), s)"
    if "strength_errors (cd_password dto) \<noteq> []"
    using that Inr by (simp add: result CreateUser_body_def Password_create_cases catchP_def AResult_fail_def)
  have hash: "ha_hash (PasswordHasherImpl bh bc) (pw_rawValue ?raw) = Inr (hv (cd_password dto))"
    "hv (cd_password dto) \<noteq> []" if "strength_errors (cd_password dto) = []"
    using that bh by (auto simp: PasswordHasherImpl_def Hasher_hash_def Hasher_saltRounds_def
        strength_errors_def Password_MIN_LENGTH_def)
  have em: "Email_fromPersistence (email_value email) = email" by (rule Email_create_stored [OF Inr])
  consider (weak) "strength_errors (cd_password dto) \<noteq> []"
    | (taken) k v where "strength_errors (cd_password dto) = []" "users_of (tbl s) k = Some v" "u_email v = email"
    | (free) "strength_errors (cd_password dto) = []" "\<forall>k v. users_of (tbl s) k = Some v \<longrightarrow> u_email v \<noteq> email"
    by blast
  then show ?thesis
  proof cases
    case weak
    with \<open>strength_errors (cd_password dto) \<noteq> [] \<Longrightarrow> _\<close> Inr show ?thesis by simp
  next
    case taken
    have "?reg email ?raw (cd_firstName dto) (cd_lastName dto) s =
        (Inl (EmailAlreadyExistsException (email_value email)), s)"
      by (rule user_service.register_taken [OF contract, OF ok taken(2,3)])
    with taken Inr show ?thesis by (auto simp: res)
  next
    case free
    note hv = hash [OF free(1)]
    have notex: "\<not> (\<exists>k v. users_of (tbl s) k = Some v \<and> u_email v = email)" using free(2) by blast
    let ?names = "str_trim (cd_firstName dto) \<noteq> [] \<and> length (str_trim (cd_firstName dto)) \<le> 100 \<and>
      str_trim (cd_lastName dto) \<noteq> [] \<and> length (str_trim (cd_lastName dto)) \<le> 100"
    show ?thesis
    proof (cases ?names)
      case True
      then obtain u where u: "User_create newId eid clk email
          \<lparr>pw_rawValue = [], pw_hashedValue = Some (hv (cd_password dto))\<rparr> (cd_firstName dto) (cd_lastName dto) = Inr u"
        using User_create_ok by blast
      from user_service.register_ok [OF contract, OF ok free(2) hv u ids em] obtain u' s' where
        "?reg email ?raw (cd_firstName dto) (cd_lastName dto) s = (Inr u', s')"
        "users_of (tbl s') = (users_of (tbl s))(uid_value newId \<mapsto> u')" "saved_as u u'" by blast
      with True free(1) Inr User_create_Inr [OF u] show ?thesis
        by (auto simp add: res saved_as_def notex)
    next
      case False
      then obtain m where "User_create newId eid clk email
          \<lparr>pw_rawValue = [], pw_hashedValue = Some (hv (cd_password dto))\<rparr> (cd_firstName dto) (cd_lastName dto) =
          Inl (JsError m)"
        using User_create_bad by blast
      from user_service.register_bad_names [OF contract, OF ok free(2) hv this]
      show ?thesis using False free(1) Inr by (simp add: res notex)
    qed
  qed
qed

text \<open>
  Status disclosure at login: for an account that is not active a wrong password gives the generic
  failure, but the right one makes the use case throw the entity's plain error (an internal error for
  the client); so the password of a suspended account can be confirmed, and the branch that reports
  \<open>UserSuspendedException\<close> is never taken.
\<close>
theorem AuthenticateUser_confirms_password:
  assumes "prisma_users d tbl" and "queue_apart addBulk tbl" and ok: "table_ok (tbl s)"
    and email: "Email_create (ap_email params) = Inr email"
    and r: "r \<in> set (tbl s)" "ur_email r = email_value email" "ur_status r \<noteq> ACTIVE"
    and pw: "ap_password params \<noteq> []"
    and result: "result = AuthenticateUser_execute
      (Service_authenticate (UserRepositoryImpl d te clock) (PasswordHasherImpl bh bc) (Publisher_publish addBulk pclk) clk)
      sr ts publish sessionId eid now now' params s"
  shows "if bc (ap_password params) (ur_passwordHash r) = Inr True
    then \<exists>m. result = (Inl (JsError m), s)
    else result = (Inr (Fail INVALID_CREDENTIALS_FAILURE), s)"
proof -
  note contract = service_contract [where clk = pclk and te = te and clock = clock, OF assms(1,2)]
  have v: "users_of (tbl s) (ur_id r) = Some (user_of_row r)" by (rule users_of_row [OF ok r(1)])
  have e: "u_email (user_of_row r) = email" using r(2) by (cases email) simp
  have sel: "pw_hashedValue (u_password (user_of_row r)) = Some (ur_passwordHash r)"
    "u_status (user_of_row r) = ur_status r"
    by (simp_all add: user_of_row_def User_reconstitute_def new_User_def)
  have ne: "ur_passwordHash r \<noteq> []" using ok r(1) by (auto simp: table_ok_def list_all_iff row_ok_def)
  note known = user_service.authenticate_known [OF contract, OF ok v e sel(1),
      where h = "PasswordHasherImpl bh bc" and clk = clk and pw = "ap_password params"]
  show ?thesis
    using known email ne pw r(3) sel(2)
    by (cases "bc (ap_password params) (ur_passwordHash r)")
      (auto simp: result AuthenticateUser_execute_def PasswordHasherImpl_def Hasher_compare_def catchP_def bindP_def
        AResult_fail_def split: bool.splits)
qed

theorem AuthenticateUser_confirms_password_witness:
  "\<forall>sr publish. \<exists>m. AuthenticateUser_execute
      (Service_authenticate (UserRepositoryImpl world_delegate (\<lambda>e i. e) (fst \<circ> fst))
        (PasswordHasherImpl sample_bcrypt sample_compare) (Publisher_publish world_addBulk (\<lambda>k. 7)) (\<lambda>k. 50))
      sr sample_tokens publish ''sid'' ''e'' 50 51
      \<lparr>ap_email = ''a@b.c'', ap_password = ''Passw0rd!'', ap_userAgent = None, ap_ipAddress = None\<rparr>
      ((5, [login_row\<lparr>ur_status := SUSPENDED\<rparr>]), []) =
      (Inl (JsError m), ((5, [login_row\<lparr>ur_status := SUSPENDED\<rparr>]), []))"
proof (intro allI, goal_cases)
  case (1 sr publish)
  let ?p = "\<lparr>ap_email = ''a@b.c'', ap_password = ''Passw0rd!'', ap_userAgent = None, ap_ipAddress = None\<rparr>"
  let ?r = "login_row\<lparr>ur_status := SUSPENDED\<rparr>"
  have apart: "queue_apart world_addBulk world_rows"
    by (auto simp: queue_apart_def world_addBulk_def world_rows_def split: prod.splits)
  have ok: "table_ok (world_rows ((5, [?r]), []))"
    using login_row_ok(1) by (simp add: world_rows_def table_ok_def row_ok_def)
  have h: "Email_create (ap_email ?p) = Inr (Email ''a@b.c'')" "?r \<in> set (world_rows ((5, [?r]), []))"
    "ur_email ?r = email_value (Email ''a@b.c'')" "ur_status ?r \<noteq> ACTIVE" "ap_password ?p \<noteq> []"
    by (simp_all add: sample_ids world_rows_def login_row_ok)
  from AuthenticateUser_confirms_password [where tbl = world_rows and s = "((5, [?r]), [])" and params = ?p
        and te = "\<lambda>e i. e" and clock = "fst \<circ> fst" and bh = sample_bcrypt and bc = sample_compare
        and pclk = "\<lambda>k. 7" and clk = "\<lambda>k. 50" and sr = sr and ts = sample_tokens and publish = publish
        and sessionId = "''sid''" and eid = "''e''" and now = 50 and now' = 51,
      OF worlddb.prisma_users_axioms apart ok h refl]
  show ?case by (simp add: sample_compare_def login_row_ok)
qed

end
