(* ===== verification/Pagination.thy ===== *)
theory Pagination
  imports Errors
begin

text \<open>
  Pagination and the response envelope: \<open>src/common/types/pagination.type.ts\<close>, \<open>PaginatedResult\<close> of
  \<open>src/application/dto/pagination.dto.ts\<close>, the generic repository
  \<open>src/infrastructure/database/base.repository.ts\<close>, and the two transform interceptors
  (\<open>src/common/interceptors\<close>, \<open>src/presentation/rest/interceptors\<close>). Counts, pages and limits are
  integers; \<open>Math.ceil(total / limit)\<close> is a \<open>pages\<close>, since dividing by zero gives an infinity or NaN.
\<close>

section \<open>Page numbers\<close>

datatype pages = Pages int | PosInfinity | NegInfinity | NaN

definition ceil_div_pages :: "int \<Rightarrow> int \<Rightarrow> pages" where
  "ceil_div_pages n limit =
     (if limit = 0 then (if n > 0 then PosInfinity else if n < 0 then NegInfinity else NaN)
      else Pages (- ((- n) div limit)))"

text \<open>\<open>page < totalPages\<close>\<close>

fun before_last :: "int \<Rightarrow> pages \<Rightarrow> bool" where
  "before_last page (Pages n) = (page < n)"
| "before_last page PosInfinity = True"
| "before_last page NegInfinity = False"
| "before_last page NaN = False"

text \<open>As JSON the other numbers are \<open>null\<close>.\<close>

fun pages_json :: "pages \<Rightarrow> json" where
  "pages_json (Pages n) = JNum n"
| "pages_json _ = JNull"

record OffsetPagination =
  op_page :: int
  op_limit :: int

record OffsetPaginationMeta =
  om_page :: int
  om_limit :: int
  om_totalItems :: int
  om_totalPages :: pages
  om_hasNext :: bool
  om_hasPrevious :: bool

record CursorPaginationMeta =
  cm_startCursor :: "string option"
  cm_endCursor :: "string option"
  cm_hasNextPage :: bool
  cm_hasPreviousPage :: bool

definition DEFAULT_PAGE :: int where "DEFAULT_PAGE = 1"
definition DEFAULT_LIMIT :: int where "DEFAULT_LIMIT = 20"
definition MAX_LIMIT :: int where "MAX_LIMIT = 100"

definition normalizeOffsetPagination :: "int option \<Rightarrow> int option \<Rightarrow> OffsetPagination" where
  "normalizeOffsetPagination page limit =
     (let normalizedPage = max 1 (case page of Some p \<Rightarrow> p | None \<Rightarrow> DEFAULT_PAGE);
          normalizedLimit = min (max 1 (case limit of Some l \<Rightarrow> l | None \<Rightarrow> DEFAULT_LIMIT)) MAX_LIMIT
      in \<lparr>op_page = normalizedPage, op_limit = normalizedLimit\<rparr>)"

definition buildOffsetMeta :: "int \<Rightarrow> int \<Rightarrow> int \<Rightarrow> OffsetPaginationMeta" where
  "buildOffsetMeta page limit totalItems =
     (let totalPages = ceil_div_pages totalItems limit
      in \<lparr>om_page = page, om_limit = limit, om_totalItems = totalItems, om_totalPages = totalPages,
          om_hasNext = before_last page totalPages, om_hasPrevious = page > 1\<rparr>)"

text \<open>The nodes are given by their \<open>id\<close>s.\<close>

definition buildCursorMeta :: "string list \<Rightarrow> int \<Rightarrow> bool \<Rightarrow> CursorPaginationMeta" where
  "buildCursorMeta data first hasMore =
     \<lparr>cm_startCursor = (case data of [] \<Rightarrow> None | x # xs \<Rightarrow> Some x),
      cm_endCursor = (case data of [] \<Rightarrow> None | x # xs \<Rightarrow> Some (last (x # xs))),
      cm_hasNextPage = hasMore, cm_hasPreviousPage = False\<rparr>"

section \<open>PaginatedResult\<close>

record 'a PaginatedResult =
  pr_data :: "'a list"
  pr_total :: int
  pr_limit :: int
  pr_offset :: int
  pr_nextCursor :: "string option"

definition has_cursor :: "'a PaginatedResult \<Rightarrow> bool" where
  "has_cursor r \<longleftrightarrow> pr_nextCursor r \<noteq> None \<and> pr_nextCursor r \<noteq> Some []"

definition PaginatedResult_hasNextPage :: "'a PaginatedResult \<Rightarrow> bool" where
  "PaginatedResult_hasNextPage r = (if has_cursor r then True else pr_offset r + pr_limit r < pr_total r)"

definition PaginatedResult_hasPreviousPage :: "'a PaginatedResult \<Rightarrow> bool" where
  "PaginatedResult_hasPreviousPage r = (pr_offset r > 0)"

definition PaginatedResult_count :: "'a PaginatedResult \<Rightarrow> nat" where
  "PaginatedResult_count r = length (pr_data r)"

definition PaginatedResult_toJSON :: "json PaginatedResult \<Rightarrow> json" where
  "PaginatedResult_toJSON r =
     JObj [(''data'', JArr (pr_data r)),
       (''meta'', JObj ([(''total'', JNum (pr_total r)), (''limit'', JNum (pr_limit r)), (''offset'', JNum (pr_offset r)),
          (''count'', JNum (int (PaginatedResult_count r))), (''hasNextPage'', JBool (PaginatedResult_hasNextPage r)),
          (''hasPreviousPage'', JBool (PaginatedResult_hasPreviousPage r))] @
          (if has_cursor r then [(''nextCursor'', JStr (case pr_nextCursor r of Some c \<Rightarrow> c | None \<Rightarrow> []))] else [])))]"

section \<open>The generic repository\<close>

text \<open>The delegate of a table, and what a subclass provides. \<open>findMany\<close> takes \<open>skip\<close> and \<open>take\<close>; the
  other arguments of a query are part of the delegate. Logging is left out: the handlers rethrow.\<close>

record ('s, 'm, 'c, 'u) delegate =
  dg_findUnique :: "string \<Rightarrow> ('s, exn, 'm option) proc"
  dg_findMany :: "int \<Rightarrow> int \<Rightarrow> ('s, exn, 'm list) proc"
  dg_count :: "('s, exn, nat) proc"
  dg_create :: "'c \<Rightarrow> ('s, exn, 'm) proc"
  dg_update :: "string \<Rightarrow> 'u \<Rightarrow> ('s, exn, 'm) proc"
  dg_delete :: "string \<Rightarrow> ('s, exn, 'm) proc"

record ('m, 'd, 'c, 'u) mapping_methods =
  mm_toDomain :: "'m \<Rightarrow> exn + 'd"
  mm_toCreateInput :: "'d \<Rightarrow> exn + 'c"
  mm_toUpdateInput :: "'d \<Rightarrow> exn + 'u"
  mm_id :: "'d \<Rightarrow> string"

record 'd RepositoryPage =
  pg_items :: "'d list"
  pg_total :: nat
  pg_page :: int
  pg_limit :: int
  pg_totalPages :: pages

fun map_thrown :: "('m \<Rightarrow> 'e + 'd) \<Rightarrow> 'm list \<Rightarrow> 'e + 'd list" where
  "map_thrown f [] = Inr []"
| "map_thrown f (x # xs) = bindE (f x) (\<lambda>y. bindE (map_thrown f xs) (\<lambda>ys. Inr (y # ys)))"

definition BaseRepository_findById ::
  "('s, 'm, 'c, 'u) delegate \<Rightarrow> ('m, 'd, 'c, 'u) mapping_methods \<Rightarrow> string \<Rightarrow> ('s, exn, 'd option) proc" where
  "BaseRepository_findById d mm i =
     bindP (dg_findUnique d i) (\<lambda>model. case model of
         None \<Rightarrow> returnP None
       | Some m \<Rightarrow> bindP (liftP (mm_toDomain mm m)) (\<lambda>x. returnP (Some x)))"

definition BaseRepository_findPaginated ::
  "('s, 'm, 'c, 'u) delegate \<Rightarrow> ('m, 'd, 'c, 'u) mapping_methods \<Rightarrow> int \<Rightarrow> int \<Rightarrow> ('s, exn, 'd RepositoryPage) proc" where
  "BaseRepository_findPaginated d mm page limit =
     (let skip = (page - 1) * limit
      in bindP (dg_findMany d skip limit) (\<lambda>items.
         bindP (dg_count d) (\<lambda>total.
         bindP (liftP (map_thrown (mm_toDomain mm) items)) (\<lambda>xs.
           returnP \<lparr>pg_items = xs, pg_total = total, pg_page = page, pg_limit = limit,
             pg_totalPages = ceil_div_pages (int total) limit\<rparr>))))"

definition BaseRepository_create ::
  "('s, 'm, 'c, 'u) delegate \<Rightarrow> ('m, 'd, 'c, 'u) mapping_methods \<Rightarrow> 'd \<Rightarrow> ('s, exn, 'd) proc" where
  "BaseRepository_create d mm entity =
     bindP (liftP (mm_toCreateInput mm entity)) (\<lambda>data.
     bindP (dg_create d data) (\<lambda>model. liftP (mm_toDomain mm model)))"

definition BaseRepository_update ::
  "('s, 'm, 'c, 'u) delegate \<Rightarrow> ('m, 'd, 'c, 'u) mapping_methods \<Rightarrow> 'd \<Rightarrow> ('s, exn, 'd) proc" where
  "BaseRepository_update d mm entity =
     bindP (liftP (mm_toUpdateInput mm entity)) (\<lambda>data.
     bindP (dg_update d (mm_id mm entity) data) (\<lambda>model. liftP (mm_toDomain mm model)))"

definition BaseRepository_delete :: "('s, 'm, 'c, 'u) delegate \<Rightarrow> string \<Rightarrow> ('s, exn, unit) proc" where
  "BaseRepository_delete d i = bindP (dg_delete d i) (\<lambda>_. returnP ())"

section \<open>The response envelope\<close>

text \<open>What the interceptors read of the request, and the clock; the version is \<open>process.env.API_VERSION\<close>.\<close>

record EnvelopeContext =
  ec_headerRequestId :: "string option"
  ec_contextRequestId :: "string option"
  ec_requestId :: "string option"
  ec_apiVersion :: "string option"
  ec_protocol :: string
  ec_host :: string
  ec_originalUrl :: string
  ec_now :: int

text \<open>\<open>a || b || c\<close> on strings that may be absent.\<close>

fun first_nonempty :: "string option list \<Rightarrow> string \<Rightarrow> string" where
  "first_nonempty [] d = d"
| "first_nonempty (x # xs) d = (case x of Some s \<Rightarrow> if s = [] then first_nonempty xs d else s | None \<Rightarrow> first_nonempty xs d)"

fun has_key :: "string \<Rightarrow> json \<Rightarrow> bool" where
  "has_key k (JObj ps) = (k \<in> fst ` set ps)"
| "has_key k _ = False"

fun get_key :: "string \<Rightarrow> json \<Rightarrow> json" where
  "get_key k (JObj ps) = json_get k ps"
| "get_key k _ = JUndef"

fun is_array :: "json \<Rightarrow> bool" where
  "is_array (JArr xs) = True"
| "is_array _ = False"

text \<open>The properties a spread \<open>...v\<close> adds: those of an object, the elements of an array or the
  characters of a string under their indices, nothing of any other value (the characters of an ISO
  instant are left out).\<close>

fun spread_of :: "json \<Rightarrow> (string \<times> json) list" where
  "spread_of (JObj ps) = ps"
| "spread_of (JArr xs) = indexed 0 xs"
| "spread_of (JStr s) = indexed 0 (map (\<lambda>c. JStr [c]) s)"
| "spread_of _ = []"

definition CommonTransform_isAlreadyWrapped :: "json \<Rightarrow> bool" where
  "CommonTransform_isAlreadyWrapped data \<longleftrightarrow>
     has_key ''data'' data \<and> has_key ''meta'' data \<and> is_array (get_key ''data'' data)"

definition CommonTransform_meta :: "EnvelopeContext \<Rightarrow> (string \<times> json) list" where
  "CommonTransform_meta c =
     [(''timestamp'', JDate (ec_now c)),
      (''requestId'', JStr (first_nonempty [ec_headerRequestId c, ec_contextRequestId c] ''unknown'')),
      (''version'', JStr (first_nonempty [ec_apiVersion c] ''1.0.0''))]"

definition CommonTransform_intercept :: "EnvelopeContext \<Rightarrow> json \<Rightarrow> json" where
  "CommonTransform_intercept c data =
     (if CommonTransform_isAlreadyWrapped data
      then JObj (obj_put ''meta'' (JObj (put_all (CommonTransform_meta c) (spread_of (get_key ''meta'' data)))) (spread_of data))
      else JObj [(''data'', data), (''meta'', JObj (CommonTransform_meta c)),
             (''links'', JObj [(''self'', JStr (ec_protocol c @ ''://'' @ ec_host c @ ec_originalUrl c))])])"

text \<open>The presentation layer's interceptor: its page numbers are computed with the numbers it finds
  (anything else makes them \<open>NaN\<close>).\<close>

fun page_count :: "json \<Rightarrow> json \<Rightarrow> pages" where
  "page_count (JNum t) (JNum l) = ceil_div_pages t l"
| "page_count _ _ = NaN"

definition PresentationTransform_intercept :: "EnvelopeContext \<Rightarrow> json \<Rightarrow> json" where
  "PresentationTransform_intercept c data =
     (if has_key ''data'' data \<and> has_key ''meta'' data then data
      else
        let meta = [(''requestId'', undef_or_str (ec_requestId c)), (''timestamp'', JDate (ec_now c))]
        in if has_key ''items'' data \<and> has_key ''total'' data
           then let page = get_key ''page'' data; totalPages = page_count (get_key ''total'' data) (get_key ''limit'' data)
                in JObj [(''data'', get_key ''items'' data),
                     (''meta'', JObj (meta @ [(''total'', get_key ''total'' data), (''page'', page),
                        (''limit'', get_key ''limit'' data), (''totalPages'', pages_json totalPages),
                        (''hasNext'', JBool (case page of JNum p \<Rightarrow> before_last p totalPages | _ \<Rightarrow> False)),
                        (''hasPrev'', JBool (case page of JNum p \<Rightarrow> p > 1 | _ \<Rightarrow> False))]))]
           else JObj [(''data'', data), (''meta'', JObj meta)])"

section \<open>Lemmas\<close>

lemma map_thrown_total: "(\<And>x. x \<in> set xs \<Longrightarrow> f x = Inr (g x)) \<Longrightarrow> map_thrown f xs = Inr (map g xs)"
  by (induction xs) auto

text \<open>The last page of \<open>n\<close> rows in pages of \<open>l\<close>.\<close>

lemma page_count_bounds:
  fixes n l :: int
  assumes "0 < l"
  shows "- ((- n) div l) * l \<ge> n" and "(- ((- n) div l) - 1) * l < n"
proof -
  have "- n = l * ((- n) div l) + (- n) mod l" by simp
  moreover have "0 \<le> (- n) mod l" "(- n) mod l < l" using assms by simp_all
  moreover have "l * ((- n) div l) = - (- ((- n) div l) * l)" by simp
  moreover have "(- ((- n) div l) - 1) * l = - ((- n) div l) * l - l" by (simp add: algebra_simps)
  ultimately show "- ((- n) div l) * l \<ge> n" "(- ((- n) div l) - 1) * l < n" by linarith+
qed

lemma before_last_iff:
  fixes n l p :: int
  assumes "0 < l"
  shows "before_last p (ceil_div_pages n l) \<longleftrightarrow> p * l < n"
proof -
  let ?k = "- ((- n) div l)"
  have "p < ?k \<longleftrightarrow> p * l < n"
  proof
    assume "p < ?k"
    then have "p * l \<le> (?k - 1) * l" using assms by (intro mult_right_mono) auto
    with page_count_bounds(2) [OF assms, of n] show "p * l < n" by linarith
  next
    assume "p * l < n"
    with page_count_bounds(1) [OF assms, of n] have "p * l < ?k * l" by linarith
    then show "p < ?k" using assms by (meson mult_right_mono not_less order_less_imp_le)
  qed
  then show ?thesis using assms by (simp add: ceil_div_pages_def)
qed

lemma chunks: "concat (map (\<lambda>i. take l (drop (i * l) xs)) [0..<k]) = take (k * l) xs"
proof (induction k)
  case (Suc k)
  then have "concat (map (\<lambda>i. take l (drop (i * l) xs)) [0..<Suc k]) = take (k * l) xs @ take l (drop (k * l) xs)" by simp
  also have "\<dots> = take (k * l + l) xs" by (rule take_add [symmetric])
  finally show ?case by (simp add: add.commute)
qed simp
lemma length_chunk_full:
  assumes "0 < l" "(p + 1) * l \<le> int (length xs)" "0 \<le> p"
  shows "length (take (nat l) (drop (nat (p * l)) xs)) = nat l"
proof -
  have "p * l + l \<le> int (length xs)" using assms(2) by (simp add: algebra_simps)
  moreover have "0 \<le> p * l" using assms by simp
  ultimately have "nat (p * l) + nat l \<le> length xs" using assms(1) by linarith
  then show ?thesis by simp
qed

text \<open>Over a delegate that answers like a table, a page is a slice of the rows.\<close>

lemma findPaginated_slice:
  assumes "0 < l" "0 \<le> p"
    and find: "\<And>skip. 0 \<le> skip \<Longrightarrow> dg_findMany d skip l s = (Inr (take (nat l) (drop (nat skip) rows)), s)"
    and count: "dg_count d s = (Inr (length rows), s)"
    and domain: "\<And>m. m \<in> set rows \<Longrightarrow> mm_toDomain mm m = Inr (f m)"
  shows "BaseRepository_findPaginated d mm (p + 1) l s =
    (Inr \<lparr>pg_items = map f (take (nat l) (drop (nat p * nat l) rows)), pg_total = length rows, pg_page = p + 1,
       pg_limit = l, pg_totalPages = ceil_div_pages (int (length rows)) l\<rparr>, s)"
proof -
  have "0 \<le> p * l" and n: "nat (p * l) = nat p * nat l" using assms(1,2) by (simp_all add: nat_mult_distrib)
  then have "dg_findMany d (p * l) l s = (Inr (take (nat l) (drop (nat p * nat l) rows)), s)" using find by simp
  moreover have "map_thrown (mm_toDomain mm) (take (nat l) (drop (nat p * nat l) rows)) =
      Inr (map f (take (nat l) (drop (nat p * nat l) rows)))"
    by (rule map_thrown_total) (metis domain in_set_dropD in_set_takeD)
  ultimately show ?thesis by (simp add: BaseRepository_findPaginated_def count)
qed

section \<open>Properties\<close>

text \<open>
  C16. The pages of \<open>findPaginated\<close> partition the table: over a delegate that answers \<open>skip\<close> and \<open>take\<close>
  with the slice of its rows and \<open>count\<close> with their number, for a limit of at least one, the pages
  1 to \<open>totalPages\<close> are found, put together they are all rows in order, each once, every page but
  the last is full, and each page states the same \<open>totalPages\<close>.
\<close>
theorem findPaginated_partitions:
  fixes l :: int
  assumes l: "0 < l"
    and find: "\<And>skip. 0 \<le> skip \<Longrightarrow> dg_findMany d skip l s = (Inr (take (nat l) (drop (nat skip) rows)), s)"
    and count: "dg_count d s = (Inr (length rows), s)"
    and domain: "\<And>m. m \<in> set rows \<Longrightarrow> mm_toDomain mm m = Inr (f m)"
  shows "\<exists>pages. map (\<lambda>i. BaseRepository_findPaginated d mm (int i + 1) l s) [0..<length pages] = map (\<lambda>p. (Inr p, s)) pages
    \<and> (\<forall>p\<in>set pages. pg_totalPages p = Pages (int (length pages)) \<and> pg_total p = length rows)
    \<and> concat (map pg_items pages) = map f rows
    \<and> (\<forall>p\<in>set (butlast pages). length (pg_items p) = nat l)"
proof -
  let ?n = "int (length rows)"
  define k where "k = nat (- ((- ?n) div l))"
  define page where "page i = \<lparr>pg_items = map f (take (nat l) (drop (i * nat l) rows)), pg_total = length rows,
    pg_page = int i + 1, pg_limit = l, pg_totalPages = ceil_div_pages ?n l\<rparr>" for i :: nat
  have "0 \<le> - ((- ?n) div l)" using l by (simp add: div_nonpos_pos_le0)
  then have k: "int k = - ((- ?n) div l)" by (simp add: k_def)
  note b = page_count_bounds [OF l, of ?n, folded k]
  have total: "ceil_div_pages ?n l = Pages (int k)" using l by (simp add: ceil_div_pages_def k)
  have "int (length rows) \<le> int (k * nat l)" unfolding of_nat_mult using b(1) l by simp
  then have "length rows \<le> k * nat l" by (simp only: of_nat_le_iff)
  then have all: "concat (map (\<lambda>i. take (nat l) (drop (i * nat l) rows)) [0..<k]) = rows" by (simp add: chunks)
  have full: "length (pg_items (page i)) = nat l" if "i < k - 1" for i
  proof -
    have "(int i + 1) * l \<le> (int k - 1) * l" using that l by (intro mult_right_mono) auto
    then have "(int i + 1) * l \<le> ?n" using b(2) by linarith
    from length_chunk_full [OF l this] have "length (take (nat l) (drop (nat (int i * l)) rows)) = nat l" by simp
    then show ?thesis using l by (simp add: page_def nat_mult_distrib)
  qed
  have run: "BaseRepository_findPaginated d mm (int i + 1) l s = (Inr (page i), s)" for i
    using findPaginated_slice [OF l _ find count domain, of "int i"] by (simp add: page_def)
  have maps: "map (\<lambda>i. (Inr (page i), s)) [0..<k] = map (\<lambda>p. (Inr p, s)) (map page [0..<k])" by (simp add: comp_def)
  have cc: "concat (map pg_items (map page [0..<k])) =
      map f (concat (map (\<lambda>i. take (nat l) (drop (i * nat l) rows)) [0..<k]))"
    by (simp add: page_def comp_def map_concat)
  have "concat (map pg_items (map page [0..<k])) = map f rows" unfolding cc all ..
  moreover have "butlast (map page [0..<k]) = map page [0..<k - 1]"
    by (cases k) simp_all
  moreover have "pg_totalPages (page i) = Pages (int k)" "pg_total (page i) = length rows" for i
    by (simp_all add: page_def total)
  ultimately show ?thesis using full by (intro exI [of _ "map page [0..<k]"]) (auto simp: run maps simp del: map_map)
qed

definition demo_table :: "(unit, string, string, string) delegate" where
  "demo_table = \<lparr>dg_findUnique = (\<lambda>i. returnP None),
     dg_findMany = (\<lambda>skip n. returnP (take (nat n) (drop (nat skip) [''a'', ''b'', ''c'']))),
     dg_count = returnP 3, dg_create = returnP, dg_update = (\<lambda>i u. returnP u), dg_delete = returnP\<rparr>"

definition demo_methods :: "(string, string, string, string) mapping_methods" where
  "demo_methods = \<lparr>mm_toDomain = Inr, mm_toCreateInput = Inr, mm_toUpdateInput = Inr, mm_id = id\<rparr>"

theorem findPaginated_partitions_witness:
  "\<exists>pages. map (\<lambda>i. BaseRepository_findPaginated demo_table demo_methods (int i + 1) 2 ()) [0..<length pages] =
      map (\<lambda>p. (Inr p, ())) pages
    \<and> (\<forall>p\<in>set pages. pg_totalPages p = Pages (int (length pages)) \<and> pg_total p = length [''a'', ''b'', ''c''])
    \<and> concat (map pg_items pages) = map (\<lambda>x. x) [''a'', ''b'', ''c'']
    \<and> (\<forall>p\<in>set (butlast pages). length (pg_items p) = nat 2)"
  by (rule findPaginated_partitions) (simp_all add: demo_table_def demo_methods_def)

text \<open>
  The three computations of a next page agree. For a limit of at least one, \<open>buildOffsetMeta\<close>
  says there is a next page iff the pages up to this one do not hold every row; \<open>PaginatedResult\<close>
  says the same at the offset of that page when it has no cursor; and so does the envelope the
  presentation interceptor builds for the page's object.
\<close>

theorem next_page_agrees:
  fixes p l n :: int
  assumes "0 < l"
  shows "(om_hasNext (buildOffsetMeta p l n) \<longleftrightarrow> p * l < n) \<and>
    (PaginatedResult_hasNextPage \<lparr>pr_data = xs, pr_total = n, pr_limit = l, pr_offset = (p - 1) * l, pr_nextCursor = None\<rparr>
      \<longleftrightarrow> om_hasNext (buildOffsetMeta p l n)) \<and>
    get_key ''hasNext'' (get_key ''meta'' (PresentationTransform_intercept c
        (JObj [(''items'', items), (''total'', JNum n), (''page'', JNum p), (''limit'', JNum l)])))
      = JBool (om_hasNext (buildOffsetMeta p l n))"
proof (intro conjI)
  have m: "om_hasNext (buildOffsetMeta p l n) \<longleftrightarrow> p * l < n" if "0 < l" for p l n :: int
    by (simp add: buildOffsetMeta_def Let_def before_last_iff that)
  show "om_hasNext (buildOffsetMeta p l n) \<longleftrightarrow> p * l < n" using assms by (rule m)
  show "PaginatedResult_hasNextPage \<lparr>pr_data = xs, pr_total = n, pr_limit = l, pr_offset = (p - 1) * l, pr_nextCursor = None\<rparr>
      \<longleftrightarrow> om_hasNext (buildOffsetMeta p l n)"
    unfolding m [OF assms] by (simp add: PaginatedResult_hasNextPage_def has_cursor_def algebra_simps)
  show "get_key ''hasNext'' (get_key ''meta'' (PresentationTransform_intercept c
        (JObj [(''items'', items), (''total'', JNum n), (''page'', JNum p), (''limit'', JNum l)])))
      = JBool (om_hasNext (buildOffsetMeta p l n))"
    by (simp add: PresentationTransform_intercept_def Let_def json_get_def buildOffsetMeta_def)
qed

theorem next_page_agrees_witness:
  "om_hasNext (buildOffsetMeta 2 10 25) \<and> \<not> om_hasNext (buildOffsetMeta 3 10 25)"
  using conjunct1 [OF next_page_agrees [of 10 2 25]] conjunct1 [OF next_page_agrees [of 10 3 25]] by simp

text \<open>
  \<open>normalizeOffsetPagination\<close> always gives a page of at least 1 and a limit between 1 and 100,
  keeps every request within those bounds, and normalising again changes nothing; so the page count
  of a normalised request is a number and no page before the first is asked for.
\<close>

theorem normalize_bounds:
  "1 \<le> op_page (normalizeOffsetPagination p l) \<and> 1 \<le> op_limit (normalizeOffsetPagination p l) \<and>
   op_limit (normalizeOffsetPagination p l) \<le> 100 \<and>
   normalizeOffsetPagination (Some (op_page (normalizeOffsetPagination p l))) (Some (op_limit (normalizeOffsetPagination p l))) =
     normalizeOffsetPagination p l \<and>
   (\<forall>n. \<exists>k. om_totalPages (buildOffsetMeta (op_page (normalizeOffsetPagination p l)) (op_limit (normalizeOffsetPagination p l)) n) = Pages k)"
  by (auto simp: normalizeOffsetPagination_def Let_def MAX_LIMIT_def buildOffsetMeta_def ceil_div_pages_def split: option.split)
lemma has_key_map_of: "has_key k (JObj ps) \<longleftrightarrow> map_of ps k \<noteq> None"
  by (simp add: map_of_eq_None_iff)

lemma has_key_obj_put: "has_key k (JObj (obj_put j v ps)) \<longleftrightarrow> k = j \<or> has_key k (JObj ps)"
  unfolding has_key_map_of map_of_obj_put by simp

lemma isAlreadyWrapped_obj: "CommonTransform_isAlreadyWrapped v \<Longrightarrow> has_key k v \<Longrightarrow> has_key k (JObj (spread_of v))"
  by (cases v) auto

text \<open>
  Both transform interceptors are registered globally, and they compose in one order only. Applied
  after the common one, the presentation layer's changes nothing, whatever the handler returned: no
  response gets its page numbers. Applied before it, the common one wraps a second time the envelope
  of every payload that is not an array.
\<close>

theorem transform_interceptors_compose:
  "PresentationTransform_intercept c (CommonTransform_intercept c' v) = CommonTransform_intercept c' v \<and>
   (has_key ''data'' v \<and> has_key ''meta'' v \<or> has_key ''items'' v \<and> has_key ''total'' v \<or>
   get_key ''data'' (CommonTransform_intercept c' (PresentationTransform_intercept c v)) =
     (if is_array v then v else PresentationTransform_intercept c v))"
proof
  have "has_key ''data'' (CommonTransform_intercept c' v) \<and> has_key ''meta'' (CommonTransform_intercept c' v)"
  proof (cases "CommonTransform_isAlreadyWrapped v")
    case True
    then have "has_key ''data'' v" by (simp add: CommonTransform_isAlreadyWrapped_def)
    from isAlreadyWrapped_obj [OF True this] True show ?thesis
      by (simp add: CommonTransform_intercept_def has_key_obj_put del: has_key.simps)
  qed (simp add: CommonTransform_intercept_def)
  then show "PresentationTransform_intercept c (CommonTransform_intercept c' v) = CommonTransform_intercept c' v"
    by (simp add: PresentationTransform_intercept_def)
next
  show "has_key ''data'' v \<and> has_key ''meta'' v \<or> has_key ''items'' v \<and> has_key ''total'' v \<or>
   get_key ''data'' (CommonTransform_intercept c' (PresentationTransform_intercept c v)) =
     (if is_array v then v else PresentationTransform_intercept c v)"
    by (auto simp: PresentationTransform_intercept_def CommonTransform_intercept_def Let_def
      CommonTransform_isAlreadyWrapped_def json_get_def map_of_obj_put)
qed

end
