(* ===== verification/Filters.thy ===== *)
theory Filters
  imports Pagination
begin

text \<open>
  Exception filters and the timeout interceptor: \<open>src/common/filters/all-exceptions.filter.ts\<close>,
  \<open>src/presentation/rest/filters\<close>, \<open>src/presentation/rest/interceptors/timeout.interceptor.ts\<close> and
  \<open>src/common/constants/http-status.contant.ts\<close>. A filter maps what was thrown and the request to
  the answer; logging is left out.
\<close>

section \<open>What a filter reads and answers\<close>

text \<open>What reaches a filter: an error of the modelled code, an \<open>HttpException\<close> with its status, body
  and message, the presentation layer's own \<open>DomainException\<close>, or any other value.\<close>

datatype thrown =
    Thrown exn
  | HttpException nat json string
  | PresentationDomainException DomainError
  | ThrownValue json

record FilterRequest =
  fr_headerRequestId :: "string option"
  fr_contextRequestId :: "string option"
  fr_requestId :: "string option"
  fr_url :: string

text \<open>The process and the libraries: \<open>NODE_ENV\<close>, the clock, the next UUID, NestJS's names of status
  codes (\<open>HttpStatus[status]\<close>) and the text of an ISO instant.\<close>

record FilterEnv =
  fe_nodeEnv :: string
  fe_now :: int
  fe_uuid :: string
  fe_statusName :: "nat \<Rightarrow> string option"
  fe_dateString :: "int \<Rightarrow> string"

record FilterResponse =
  rs_status :: nat
  rs_headers :: "(string \<times> string) list"
  rs_body :: "(string \<times> json) list"

text \<open>The body of an \<open>HttpException\<close> built by a guard.\<close>

definition problem_json :: "problem \<Rightarrow> json" where
  "problem_json b =
     JObj ([(''type'', JStr (pb_type b)), (''title'', JStr (pb_title b)), (''status'', JNum (int (pb_status b))),
        (''detail'', JStr (pb_detail b)), (''code'', JStr (error_code_string (pb_code b)))] @ pb_extra b)"

text \<open>\<open>String(v)\<close>\<close>

fun js_String :: "(int \<Rightarrow> string) \<Rightarrow> json \<Rightarrow> string" where
  "js_String d JNull = ''null''"
| "js_String d JUndef = ''undefined''"
| "js_String d (JBool b) = (if b then ''true'' else ''false'')"
| "js_String d (JNum n) = show_int n"
| "js_String d (JStr s) = s"
| "js_String d (JDate t) = d t"
| "js_String d (JArr xs) = str_join '','' (map (\<lambda>x. if x = JNull \<or> x = JUndef then '''' else js_String d x) xs)"
| "js_String d (JObj ps) = ''[object Object]''"

fun is_nullish :: "json \<Rightarrow> bool" where
  "is_nullish JNull = True"
| "is_nullish JUndef = True"
| "is_nullish _ = False"

definition nullish_or :: "json \<Rightarrow> json \<Rightarrow> json" where
  "nullish_or a b = (if is_nullish a then b else a)"

fun js_truthy :: "json \<Rightarrow> bool" where
  "js_truthy JNull = False"
| "js_truthy JUndef = False"
| "js_truthy (JBool b) = b"
| "js_truthy (JNum n) = (n \<noteq> 0)"
| "js_truthy (JStr s) = (s \<noteq> [])"
| "js_truthy _ = True"

section \<open>AllExceptionsFilter\<close>

definition all_exceptions_statuses :: "(ErrorCode \<times> nat) list" where
  "all_exceptions_statuses =
     [(VALIDATION_ERROR, 422), (INVALID_EMAIL, 422), (INVALID_PASSWORD, 422), (INVALID_CREDENTIALS, 401),
      (TOKEN_EXPIRED, 401), (TOKEN_INVALID, 401), (FORBIDDEN, 403), (ACCOUNT_LOCKED, 423),
      (TOO_MANY_ATTEMPTS, 429), (REFRESH_TOKEN_REVOKED, 401), (USER_NOT_FOUND, 404),
      (USER_ALREADY_EXISTS, 409), (USER_SUSPENDED, 403), (USER_INACTIVE, 403),
      (INVALID_STATUS_TRANSITION, 422), (ROLE_NOT_FOUND, 404), (ROLE_ALREADY_ASSIGNED, 409),
      (NOT_FOUND, 404), (CONCURRENCY_CONFLICT, 409), (TRANSACTION_FAILED, 500),
      (EXTERNAL_SERVICE_ERROR, 502), (INTERNAL_ERROR, 500)]"

definition status_of_code :: "(ErrorCode \<times> nat) list \<Rightarrow> string \<Rightarrow> nat" where
  "status_of_code table code =
     (case map_of (map (\<lambda>(c, n). (error_code_string c, n)) table) code of Some n \<Rightarrow> n | None \<Rightarrow> 500)"

definition AllExceptions_mapErrorCodeToStatus :: "string \<Rightarrow> nat" where
  "AllExceptions_mapErrorCodeToStatus = status_of_code all_exceptions_statuses"

definition AllExceptions_humanizeErrorCode :: "string \<Rightarrow> string" where
  "AllExceptions_humanizeErrorCode code =
     str_join '' '' (map (\<lambda>w. take 1 w @ str_lower (drop 1 w)) (str_split (CHR ''_'') code))"

definition quoted :: "string \<Rightarrow> string" where
  "quoted s = CHR 0x27 # s @ [CHR 0x27]"

text \<open>\<open>'property' in v\<close> throws unless \<open>v\<close> is an object.\<close>

definition js_in :: "(int \<Rightarrow> string) \<Rightarrow> string \<Rightarrow> json \<Rightarrow> exn + bool" where
  "js_in d k v =
     (if is_object v then Inr (has_key k v)
      else Inl (JsTypeError (''Cannot use '' @ quoted ''in'' @ '' operator to search for '' @ quoted k @ '' in '' @ js_String d v)))"

fun AllExceptions_isValidationError :: "(int \<Rightarrow> string) \<Rightarrow> thrown \<Rightarrow> exn + bool" where
  "AllExceptions_isValidationError d (ThrownValue (JArr (x # xs))) =
     bindE (js_in d ''property'' x) (\<lambda>p. if p then js_in d ''constraints'' x else Inr False)"
| "AllExceptions_isValidationError d _ = Inr False"

definition AllExceptions_requestId :: "FilterRequest \<Rightarrow> string" where
  "AllExceptions_requestId r = first_nonempty [fr_headerRequestId r, fr_contextRequestId r] ''unknown''"

definition errors_url :: "string \<Rightarrow> json" where
  "errors_url s = JStr (''https://enterprise.system/errors/'' @ s)"

definition AllExceptions_domain :: "FilterRequest \<Rightarrow> exn \<Rightarrow> FilterResponse" where
  "AllExceptions_domain r e =
     (let code = domain_exn_code e; status = AllExceptions_mapErrorCodeToStatus code
      in \<lparr>rs_status = status, rs_headers = [],
          rs_body = [(''type'', errors_url code), (''title'', JStr (AllExceptions_humanizeErrorCode code)),
            (''status'', JNum (int status)), (''detail'', JStr (domain_exn_message e)), (''code'', JStr code),
            (''instance'', JStr (fr_url r)), (''requestId'', JStr (AllExceptions_requestId r)), (''errors'', JUndef)]\<rparr>)"

definition AllExceptions_http :: "FilterEnv \<Rightarrow> FilterRequest \<Rightarrow> nat \<Rightarrow> json \<Rightarrow> FilterResponse" where
  "AllExceptions_http env r status body =
     \<lparr>rs_status = status, rs_headers = [],
      rs_body =
        (if is_object body
         then put_all (spread_of body) [(''instance'', JStr (fr_url r)), (''requestId'', JStr (AllExceptions_requestId r))]
         else [(''type'', errors_url (''http-'' @ show_nat status)),
            (''title'', JStr (first_nonempty [fe_statusName env status] ''Error'')),
            (''status'', JNum (int status)), (''detail'', JStr (js_String (fe_dateString env) body)),
            (''instance'', JStr (fr_url r)), (''requestId'', JStr (AllExceptions_requestId r))])\<rparr>"

definition AllExceptions_validation :: "FilterRequest \<Rightarrow> json \<Rightarrow> FilterResponse" where
  "AllExceptions_validation r errors =
     \<lparr>rs_status = 422, rs_headers = [],
      rs_body = [(''type'', errors_url ''validation-error''), (''title'', JStr ''Validation Failed''), (''status'', JNum 422),
        (''detail'', JStr ''Input validation failed. Check the errors field for details.''),
        (''instance'', JStr (fr_url r)), (''requestId'', JStr (AllExceptions_requestId r)), (''errors'', errors)]\<rparr>"

text \<open>\<open>exception instanceof Error ? exception.message : String(exception)\<close>; \<open>throw undefined\<close> and
  \<open>throw null\<close> of the modelled code are one value here, whose text is that of \<open>undefined\<close>.\<close>

fun thrown_message :: "(int \<Rightarrow> string) \<Rightarrow> thrown \<Rightarrow> string" where
  "thrown_message d (Thrown e) = (if is_Error e then exn_message e else ''undefined'')"
| "thrown_message d (HttpException st b m) = m"
| "thrown_message d (PresentationDomainException de) = de_message de"
| "thrown_message d (ThrownValue v) = js_String d v"

definition AllExceptions_unknown :: "FilterEnv \<Rightarrow> FilterRequest \<Rightarrow> thrown \<Rightarrow> FilterResponse" where
  "AllExceptions_unknown env r t =
     \<lparr>rs_status = 500, rs_headers = [],
      rs_body = [(''type'', errors_url ''internal''), (''title'', JStr ''Internal Server Error''), (''status'', JNum 500),
        (''detail'', JStr ''An unexpected error occurred. Please try again later.''),
        (''instance'', JStr (fr_url r)), (''requestId'', JStr (AllExceptions_requestId r))] @
        (if fe_nodeEnv env \<noteq> ''production''
         then [(''debug'', JObj [(''errorId'', JStr (fe_uuid env)), (''message'', JStr (thrown_message (fe_dateString env) t))])]
         else [])\<rparr>"

definition AllExceptions_catch :: "FilterEnv \<Rightarrow> FilterRequest \<Rightarrow> thrown \<Rightarrow> exn + FilterResponse" where
  "AllExceptions_catch env r t =
     (let rest = bindE (AllExceptions_isValidationError (fe_dateString env) t) (\<lambda>validation.
          Inr (if validation then AllExceptions_validation r (case t of ThrownValue v \<Rightarrow> v | _ \<Rightarrow> JUndef)
               else AllExceptions_unknown env r t))
      in case t of
           Thrown e \<Rightarrow> if is_DomainException e then Inr (AllExceptions_domain r e)
             else (case e of HttpExc st b \<Rightarrow> Inr (AllExceptions_http env r st (problem_json b)) | _ \<Rightarrow> rest)
         | HttpException st b m \<Rightarrow> Inr (AllExceptions_http env r st b)
         | _ \<Rightarrow> rest)"

section \<open>The presentation layer's filters\<close>

text \<open>\<open>toUpperCase\<close> of one code unit below 128, and the titles: underscores to blanks, then a capital at
  the start of every word.\<close>

definition char_upper :: "char \<Rightarrow> char" where
  "char_upper c = (if is_lower c then char_of (of_char c - 32 :: nat) else c)"

definition word_char :: "char \<Rightarrow> bool" where
  "word_char c \<longleftrightarrow> is_upper c \<or> is_lower c \<or> is_digit c \<or> c = CHR ''_''"

fun capitalize_words :: "bool \<Rightarrow> string \<Rightarrow> string" where
  "capitalize_words inside [] = []"
| "capitalize_words inside (c # cs) =
     (if word_char c \<and> \<not> inside then char_upper c else c) # capitalize_words (word_char c) cs"

definition DomainExceptionFilter_getHumanReadableTitle :: "ErrorCode \<Rightarrow> string" where
  "DomainExceptionFilter_getHumanReadableTitle code =
     capitalize_words False (map (\<lambda>c. if c = CHR ''_'' then CHR '' '' else c) (str_lower (error_code_string code)))"

definition domain_filter_statuses :: "(ErrorCode \<times> nat) list" where
  "domain_filter_statuses =
     [(VALIDATION_ERROR, 422), (INVALID_EMAIL, 422), (INVALID_PASSWORD, 422), (USER_NOT_FOUND, 404),
      (ROLE_NOT_FOUND, 404), (NOT_FOUND, 404), (USER_ALREADY_EXISTS, 409), (ROLE_ALREADY_ASSIGNED, 409),
      (CONCURRENCY_CONFLICT, 409), (INVALID_CREDENTIALS, 401), (TOKEN_EXPIRED, 401), (TOKEN_INVALID, 401),
      (REFRESH_TOKEN_REVOKED, 401), (FORBIDDEN, 403), (USER_SUSPENDED, 403), (ACCOUNT_LOCKED, 403),
      (USER_INACTIVE, 400), (INVALID_STATUS_TRANSITION, 400), (TOO_MANY_ATTEMPTS, 429),
      (TRANSACTION_FAILED, 500), (EXTERNAL_SERVICE_ERROR, 502), (INTERNAL_ERROR, 500)]"

definition DomainExceptionFilter_mapErrorCodeToHttpStatus :: "ErrorCode \<Rightarrow> nat" where
  "DomainExceptionFilter_mapErrorCodeToHttpStatus code = status_of_code domain_filter_statuses (error_code_string code)"

definition DomainExceptionFilter_catch :: "FilterEnv \<Rightarrow> FilterRequest \<Rightarrow> DomainError \<Rightarrow> FilterResponse" where
  "DomainExceptionFilter_catch env r de =
     (let code = error_code_string (de_code de); status = DomainExceptionFilter_mapErrorCodeToHttpStatus (de_code de);
          errors = (case de_details de of Some ps \<Rightarrow> json_get ''errors'' ps | None \<Rightarrow> JUndef)
      in \<lparr>rs_status = status, rs_headers = [],
          rs_body = [(''type'', errors_url (map (\<lambda>c. if c = CHR ''_'' then CHR ''-'' else c) (str_lower code))),
            (''title'', JStr (DomainExceptionFilter_getHumanReadableTitle (de_code de))), (''status'', JNum (int status)),
            (''detail'', JStr (de_message de)), (''instance'', JStr (fr_url r)), (''code'', JStr code),
            (''timestamp'', JDate (fe_now env)), (''requestId'', undef_or_str (fr_requestId r))] @
            (if js_truthy errors then [(''errors'', errors)] else [])\<rparr>)"

definition http_error_types :: "(nat \<times> string) list" where
  "http_error_types =
     [(400, ''bad-request''), (401, ''unauthorized''), (403, ''forbidden''), (404, ''not-found''),
      (405, ''method-not-allowed''), (408, ''timeout''), (409, ''conflict''), (422, ''validation''),
      (429, ''rate-limited''), (500, ''internal''), (502, ''bad-gateway''), (503, ''service-unavailable'')]"

definition HttpExceptionFilter_getErrorType :: "nat \<Rightarrow> json" where
  "HttpExceptionFilter_getErrorType status =
     errors_url (case map_of http_error_types status of Some t \<Rightarrow> t | None \<Rightarrow> ''unknown'')"

definition http_error_titles :: "(nat \<times> string) list" where
  "http_error_titles =
     [(400, ''Bad Request''), (401, ''Unauthorized''), (403, ''Forbidden''), (404, ''Not Found''),
      (405, ''Method Not Allowed''), (408, ''Request Timeout''), (409, ''Conflict''), (422, ''Unprocessable Entity''),
      (429, ''Too Many Requests''), (500, ''Internal Server Error''), (502, ''Bad Gateway''), (503, ''Service Unavailable'')]"

definition HttpExceptionFilter_getErrorTitle :: "nat \<Rightarrow> string" where
  "HttpExceptionFilter_getErrorTitle status = (case map_of http_error_titles status of Some t \<Rightarrow> t | None \<Rightarrow> ''Error'')"

definition HttpExceptionFilter_catch :: "FilterEnv \<Rightarrow> FilterRequest \<Rightarrow> nat \<Rightarrow> json \<Rightarrow> exn + FilterResponse" where
  "HttpExceptionFilter_catch env r status body =
     (let head = (\<lambda>ty ti. [(''type'', ty), (''title'', ti), (''status'', JNum (int status)), (''instance'', JStr (fr_url r)),
            (''timestamp'', JDate (fe_now env)), (''requestId'', undef_or_str (fr_requestId r))]);
          ty = HttpExceptionFilter_getErrorType status; ti = JStr (HttpExceptionFilter_getErrorTitle status)
      in case body of
           JStr s \<Rightarrow> Inr \<lparr>rs_status = status, rs_headers = [], rs_body = head ty ti @ [(''detail'', JStr s)]\<rparr>
         | JDate t \<Rightarrow> Inr \<lparr>rs_status = status, rs_headers = [], rs_body = head ty ti @ [(''detail'', JDate t)]\<rparr>
         | JNull \<Rightarrow> Inl (JsTypeError (''Cannot read properties of null (reading '' @ quoted ''type'' @ '')''))
         | _ \<Rightarrow> if is_object body
             then Inr \<lparr>rs_status = status,
               rs_headers = (if js_truthy (get_key ''retryAfter'' body)
                 then [(''Retry-After'', js_String (fe_dateString env) (get_key ''retryAfter'' body))] else []),
               rs_body = head (nullish_or (get_key ''type'' body) ty) (nullish_or (get_key ''title'' body) ti) @
                 [(''detail'', nullish_or (get_key ''detail'' body) (get_key ''message'' body)),
                  (''code'', get_key ''code'' body), (''errors'', get_key ''errors'' body)]\<rparr>
             else Inr \<lparr>rs_status = status, rs_headers = [], rs_body = head ty ti\<rparr>)"

section \<open>Which filter answers\<close>

datatype exception_filter = DomainExceptionFilter | HttpExceptionFilter | AllExceptionsFilter

text \<open>The class given to \<open>@Catch\<close>: \<open>@Catch()\<close> takes anything; \<open>DomainExceptionFilter\<close> names the class
  of its own file, not that of the domain.\<close>

fun catches :: "exception_filter \<Rightarrow> thrown \<Rightarrow> bool" where
  "catches AllExceptionsFilter t = True"
| "catches HttpExceptionFilter (HttpException st b m) = True"
| "catches HttpExceptionFilter (Thrown (HttpExc st b)) = True"
| "catches DomainExceptionFilter (PresentationDomainException de) = True"
| "catches _ t = False"

text \<open>In the order they are declared: the providers of the presentation module, then the bootstrap.\<close>

definition presentation_filters :: "exception_filter list" where
  "presentation_filters = [DomainExceptionFilter, HttpExceptionFilter]"

definition global_filters :: "exception_filter list" where
  "global_filters = presentation_filters @ [AllExceptionsFilter]"

section \<open>Timeout interceptor\<close>

text \<open>\<open>timeoutMs / 1000\<close> as a decimal number.\<close>

definition show_thousandths :: "nat \<Rightarrow> string" where
  "show_thousandths n =
     (let r = n mod 1000; digits = show_nat (1000 + r)
      in show_nat (n div 1000) @ (if r = 0 then '''' else ''.'' @ rev (dropWhile (\<lambda>c. c = CHR ''0'') (rev (drop 1 digits)))))"

definition DEFAULT_TIMEOUT :: nat where "DEFAULT_TIMEOUT = 30000"

definition timeout_body :: "nat \<Rightarrow> json" where
  "timeout_body timeoutMs =
     JObj [(''type'', errors_url ''timeout''), (''title'', JStr ''Request Timeout''), (''status'', JNum 408),
       (''detail'', JStr (''The request did not complete within '' @ show_thousandths timeoutMs @
          '' seconds. Please try again or reduce the request scope.'')),
       (''code'', JStr (error_code_string INTERNAL_ERROR)), (''timeout'', JNum (int timeoutMs))]"

text \<open>The handler settles after some milliseconds with what it threw or returned, or never; one that
  settles at the very deadline counts as late. What it threw itself passes through.\<close>

definition Timeout_intercept :: "nat option \<Rightarrow> (nat \<times> (thrown + json)) option \<Rightarrow> thrown + json" where
  "Timeout_intercept customTimeout handler =
     (let timeoutMs = (case customTimeout of Some ms \<Rightarrow> ms | None \<Rightarrow> DEFAULT_TIMEOUT);
          late = Inl (HttpException 408 (timeout_body timeoutMs) ''Request Timeout Exception'')
      in case handler of Some (t, out) \<Rightarrow> if t < timeoutMs then out else late | None \<Rightarrow> late)"

section \<open>Response helpers\<close>

definition buildSuccessResponse :: "int \<Rightarrow> json \<Rightarrow> (string \<times> json) list \<Rightarrow> json" where
  "buildSuccessResponse now data meta =
     JObj [(''data'', data), (''meta'', JObj (put_all [(''timestamp'', JDate now)] meta))]"

definition buildErrorResponse :: "string \<Rightarrow> string \<Rightarrow> nat \<Rightarrow> string option \<Rightarrow> (string \<times> json) list \<Rightarrow> json" where
  "buildErrorResponse ty title status detail extras =
     JObj (put_all [(''type'', errors_url ty), (''title'', JStr title), (''status'', JNum (int status)),
       (''detail'', undef_or_str detail)] extras)"

definition isSuccessStatus :: "nat \<Rightarrow> bool" where "isSuccessStatus status \<longleftrightarrow> 200 \<le> status \<and> status < 300"
definition isClientError :: "nat \<Rightarrow> bool" where "isClientError status \<longleftrightarrow> 400 \<le> status \<and> status < 500"
definition isServerError :: "nat \<Rightarrow> bool" where "isServerError status \<longleftrightarrow> 500 \<le> status \<and> status < 600"

text \<open>The tables of \<open>http-status.contant.ts\<close>.\<close>

definition CUSTOM_HTTP_STATUS :: "(string \<times> nat) list" where
  "CUSTOM_HTTP_STATUS =
     [(''RATE_LIMITED'', 429), (''GONE_RECOVERABLE'', 410), (''CONFLICT'', 409), (''UNPROCESSABLE_ENTITY'', 422),
      (''PAYLOAD_TOO_LARGE'', 413), (''TOO_MANY_CONCURRENT'', 429), (''VERSION_DEPRECATED'', 400), (''DEPENDENCY_FAILURE'', 502),
      (''SERVICE_UNAVAILABLE'', 503), (''GATEWAY_TIMEOUT'', 504)]"

definition RESPONSE_MESSAGES :: "(string \<times> string) list" where
  "RESPONSE_MESSAGES =
     [(''SUCCESS'', ''Operation completed successfully.''), (''CREATED'', ''Resource created successfully.''),
      (''UPDATED'', ''Resource updated successfully.''), (''DELETED'', ''Resource deleted successfully.''),
      (''NO_CONTENT'', ''No content.''), (''BAD_REQUEST'', ''The request is invalid or malformed.''),
      (''UNAUTHORIZED'', ''Authentication is required to access this resource.''),
      (''FORBIDDEN'', ''You do not have permission to perform this action.''),
      (''NOT_FOUND'', ''The requested resource was not found.''),
      (''CONFLICT'', ''The request conflicts with the current state of the resource.''),
      (''UNPROCESSABLE'', ''The request was well-formed but contains semantic errors.''),
      (''PAYLOAD_TOO_LARGE'', ''The request body exceeds the maximum allowed size.''),
      (''RATE_LIMITED'', ''Too many requests. Please try again later.''),
      (''VALIDATION_FAILED'', ''Input validation failed. Check the errors field for details.''),
      (''INTERNAL_ERROR'', ''An unexpected error occurred. Please try again later.''),
      (''SERVICE_UNAVAILABLE'', ''The service is temporarily unavailable. Please try again later.''),
      (''DEPENDENCY_FAILURE'', ''An upstream service is unavailable. Please try again later.''),
      (''NOT_IMPLEMENTED'', ''This feature is not yet implemented.'')]"

section \<open>Lemmas\<close>

lemma map_of_code_table:
  "map_of (map (\<lambda>(c, n). (error_code_string c, n)) table) (error_code_string c) = map_of table c"
  by (induction table) (auto simp: inj_eq [OF error_code_string_inj])

lemma status_of_error_code:
  "status_of_code table (error_code_string c) = (case map_of table c of Some n \<Rightarrow> n | None \<Rightarrow> 500)"
  by (simp add: status_of_code_def map_of_code_table)

text \<open>What neither a domain exception, an \<open>HttpException\<close> nor a list of validation errors is.\<close>

fun internal_cause :: "thrown \<Rightarrow> bool" where
  "internal_cause (Thrown (HttpExc st b)) = False"
| "internal_cause (Thrown e) = (\<not> is_DomainException e)"
| "internal_cause (HttpException st b m) = False"
| "internal_cause (PresentationDomainException de) = True"
| "internal_cause (ThrownValue (JArr (x # xs))) = False"
| "internal_cause (ThrownValue v) = True"

lemma internal_not_validation: "internal_cause t \<Longrightarrow> AllExceptions_isValidationError d t = Inr False"
  by (cases "(d, t)" rule: AllExceptions_isValidationError.cases) auto

lemma internal_unknown: "internal_cause t \<Longrightarrow> AllExceptions_catch env r t = Inr (AllExceptions_unknown env r t)"
  using internal_not_validation [of t "fe_dateString env"]
  by (cases t rule: internal_cause.cases) (simp_all add: AllExceptions_catch_def Let_def)

lemma domain_not_http: "is_DomainException e \<Longrightarrow> AllExceptions_catch env r (Thrown e) = Inr (AllExceptions_domain r e)"
  by (simp add: AllExceptions_catch_def)

lemma http_passes:
  "AllExceptions_catch env r (Thrown (HttpExc st b)) = Inr (AllExceptions_http env r st (problem_json b))"
  "AllExceptions_catch env r (HttpException st body m) = Inr (AllExceptions_http env r st body)"
  by (simp_all add: AllExceptions_catch_def)

text \<open>On capital letters and underscores the two ways to a title agree.\<close>

definition CAPITALS :: string where
  "CAPITALS = ''ABCDEFGHIJKLMNOPQRSTUVWXYZ''"

lemma CAPITALS_upper: "c \<in> set CAPITALS \<Longrightarrow> is_upper c"
  by (auto simp: CAPITALS_def char_class_defs)

lemma upper_lower:
  assumes "is_upper c"
  shows "char_upper (char_lower c) = c" "word_char (char_lower c)" "char_lower c \<noteq> CHR ''_''" "c \<noteq> CHR ''_''"
proof -
  let ?k = "of_char c :: nat"
  have k: "65 \<le> ?k" "?k \<le> 90" using assms by (simp_all add: char_class_defs)
  then have low: "char_lower c = char_of (?k + 32)" by (simp add: char_lower_def)
  have of: "(of_char (char_lower c) :: nat) = ?k + 32" using k by (simp add: low)
  then have l: "is_lower (char_lower c)" using k by (simp add: char_class_defs)
  then show "word_char (char_lower c)" by (simp add: word_char_def)
  show "char_upper (char_lower c) = c" using l of by (simp add: char_upper_def)
  show "char_lower c \<noteq> CHR ''_''" using l by (auto simp: char_class_defs)
  show "c \<noteq> CHR ''_''" using assms by (auto simp: char_class_defs)
qed

lemma underscore_facts: "\<not> word_char (CHR '' '')" "char_lower (CHR ''_'') = CHR ''_''"
  by (simp_all add: word_char_def char_class_defs char_lower_def)

lemma titles_of_capitals:
  assumes "set s \<subseteq> insert (CHR ''_'') (set CAPITALS)"
  shows "capitalize_words inside (map (\<lambda>c. if c = CHR ''_'' then CHR '' '' else c) (str_lower s)) =
    str_join '' '' ((if inside then str_lower (hd (str_split (CHR ''_'') s))
        else take 1 (hd (str_split (CHR ''_'') s)) @ str_lower (drop 1 (hd (str_split (CHR ''_'') s)))) #
      map (\<lambda>w. take 1 w @ str_lower (drop 1 w)) (tl (str_split (CHR ''_'') s)))"
  using assms
proof (induction s arbitrary: inside)
  case Nil
  then show ?case by (simp add: str_lower_def)
next
  case (Cons c cs)
  obtain w ws where w: "str_split (CHR ''_'') cs = w # ws" using str_split_nonempty by (metis neq_Nil_conv)
  show ?case
  proof (cases "c = CHR ''_''")
    case True
    then show ?thesis using Cons.IH [of False] Cons.prems w by (simp add: str_lower_def underscore_facts)
  next
    case False
    then have "is_upper c" using Cons.prems CAPITALS_upper by auto
    then show ?thesis using Cons.IH [of True] Cons.prems w
      by (cases ws) (simp_all add: str_lower_def upper_lower)
  qed
qed

lemma titles_agree: "AllExceptions_humanizeErrorCode (error_code_string c) = DomainExceptionFilter_getHumanReadableTitle c"
proof -
  have "set (error_code_string c) \<subseteq> insert (CHR ''_'') (set CAPITALS)" by (cases c) (simp_all add: CAPITALS_def)
  from titles_of_capitals [OF this, of False] show ?thesis
    unfolding AllExceptions_humanizeErrorCode_def DomainExceptionFilter_getHumanReadableTitle_def
    by (cases "str_split (CHR ''_'') (error_code_string c)") simp_all
qed

text \<open>Every custom status is that of a client's or a server's error, never both.\<close>

lemma custom_statuses_are_errors:
  "list_all (\<lambda>(name, status). isClientError status \<noteq> isServerError status) CUSTOM_HTTP_STATUS"
  by (simp add: CUSTOM_HTTP_STATUS_def isClientError_def isServerError_def)

section \<open>Properties\<close>

text \<open>
  C24. No leak in production. Two internal errors of any kind (an error of the runtime, the database, the
  network or the presentation layer's own exception, any value that is not a list) get the very same answer: the answer
  is a function of the request, with status 500, no \<open>debug\<close> field and no trace of the error, the clock
  or the error's identifier.
\<close>
theorem no_leak_in_production:
  assumes "internal_cause t" "internal_cause t'" and "fe_nodeEnv env = ''production''" "fe_nodeEnv env' = ''production''"
  shows "AllExceptions_catch env r t = AllExceptions_catch env' r t' \<and>
    (\<exists>rs. AllExceptions_catch env r t = Inr rs \<and> rs_status rs = 500 \<and> map_of (rs_body rs) ''debug'' = None)"
  using assms by (simp_all add: internal_unknown AllExceptions_unknown_def)

definition production_env :: FilterEnv where
  "production_env = \<lparr>fe_nodeEnv = ''production'', fe_now = 0, fe_uuid = ''e'', fe_statusName = Map.empty, fe_dateString = (\<lambda>t. [])\<rparr>"

definition sample_filter_request :: FilterRequest where
  "sample_filter_request = \<lparr>fr_headerRequestId = Some ''r-1'', fr_contextRequestId = None, fr_requestId = Some ''r-1'', fr_url = ''/users''\<rparr>"

theorem no_leak_in_production_witness:
  "AllExceptions_catch production_env sample_filter_request (Thrown (JsError ''password=hunter2'')) =
   AllExceptions_catch production_env sample_filter_request (ThrownValue (JStr ''x''))"
  by (rule conjunct1 [OF no_leak_in_production]) (simp_all add: production_env_def)

text \<open>
  The two filters' tables. For every error code both give the same title, and the same status except
  for a locked account (423 or 403), an inactive user (403 or 400) and an invalid status transition
  (422 or 400); every status is an error status.
\<close>

theorem filters_agree_except:
  "AllExceptions_humanizeErrorCode (error_code_string c) = DomainExceptionFilter_getHumanReadableTitle c \<and>
   (AllExceptions_mapErrorCodeToStatus (error_code_string c) = DomainExceptionFilter_mapErrorCodeToHttpStatus c \<longleftrightarrow>
     c \<notin> {ACCOUNT_LOCKED, USER_INACTIVE, INVALID_STATUS_TRANSITION}) \<and>
   (isClientError (AllExceptions_mapErrorCodeToStatus (error_code_string c)) \<or>
     isServerError (AllExceptions_mapErrorCodeToStatus (error_code_string c)))"
proof (intro conjI)
  show "AllExceptions_humanizeErrorCode (error_code_string c) = DomainExceptionFilter_getHumanReadableTitle c"
    by (rule titles_agree)
  show "AllExceptions_mapErrorCodeToStatus (error_code_string c) = DomainExceptionFilter_mapErrorCodeToHttpStatus c \<longleftrightarrow>
     c \<notin> {ACCOUNT_LOCKED, USER_INACTIVE, INVALID_STATUS_TRANSITION}"
    unfolding AllExceptions_mapErrorCodeToStatus_def DomainExceptionFilter_mapErrorCodeToHttpStatus_def status_of_error_code
    by (cases c) (simp_all add: all_exceptions_statuses_def domain_filter_statuses_def)
  show "isClientError (AllExceptions_mapErrorCodeToStatus (error_code_string c)) \<or>
     isServerError (AllExceptions_mapErrorCodeToStatus (error_code_string c))"
    unfolding AllExceptions_mapErrorCodeToStatus_def status_of_error_code
    by (cases c) (simp_all add: all_exceptions_statuses_def isClientError_def isServerError_def)
qed

text \<open>
  What a domain exception becomes: a missing user 404, an invalid password 422, a suspended user
  403; but an email that is taken and a violated invariant, whose codes the filter's table does not
  know, an internal error 500, with the exception's message in the answer and its details never.
\<close>
theorem domain_exceptions_answered:
  assumes "is_DomainException e"
  shows "\<exists>rs. AllExceptions_catch env r (Thrown e) = Inr rs \<and>
    rs_status rs = (case e of UserNotFoundException i ty \<Rightarrow> 404 | InvalidPasswordException why \<Rightarrow> 422
      | UserSuspendedException u \<Rightarrow> 403 | _ \<Rightarrow> 500) \<and>
    map_of (rs_body rs) ''detail'' = Some (JStr (exn_message e)) \<and> map_of (rs_body rs) ''errors'' = Some JUndef"
proof -
  have s: "AllExceptions_mapErrorCodeToStatus ''USER_NOT_FOUND'' = 404" "AllExceptions_mapErrorCodeToStatus ''INVALID_PASSWORD'' = 422"
    "AllExceptions_mapErrorCodeToStatus ''USER_SUSPENDED'' = 403" "AllExceptions_mapErrorCodeToStatus ''EMAIL_ALREADY_EXISTS'' = 500"
    "AllExceptions_mapErrorCodeToStatus ''INVARIANT_VIOLATION'' = 500" by code_simp+
  show ?thesis using assms by (cases e) (simp_all add: domain_not_http AllExceptions_domain_def Let_def s)
qed

theorem domain_exceptions_answered_witness:
  "\<exists>rs. AllExceptions_catch production_env sample_filter_request (Thrown (EmailAlreadyExistsException ''a@b.c'')) = Inr rs \<and>
    rs_status rs = 500"
  using domain_exceptions_answered [of "EmailAlreadyExistsException ''a@b.c''" production_env sample_filter_request] by auto

text \<open>
  The last line of defence answers everything but one thing: \<open>AllExceptionsFilter\<close> throws exactly
  when what it catches is a non-empty list whose first element is not an object.
\<close>

theorem filter_throws_iff:
  "(\<exists>e. AllExceptions_catch env r t = Inl e) \<longleftrightarrow> (\<exists>x xs. t = ThrownValue (JArr (x # xs)) \<and> \<not> is_object x)"
proof (cases "internal_cause t")
  case True
  then show ?thesis by (cases t rule: internal_cause.cases) (simp_all add: internal_unknown)
next
  case False
  then show ?thesis
    by (cases t rule: internal_cause.cases)
      (auto simp: http_passes domain_not_http AllExceptions_catch_def Let_def js_in_def bindE_eq_Inl)
qed

text \<open>
  The catch-all filter is declared last, so it answers everything: when the framework uses, of the
  filters declared, the last one that catches a value, the two filters of the presentation layer are
  never used, while in the opposite order each would get what it names.
\<close>
theorem catch_all_shadows_filters:
  assumes "\<And>fs f t. select (fs @ [f]) t = (if catches f t then Some f else select fs t)"
  shows "select global_filters t = Some AllExceptionsFilter \<and>
    (\<forall>f\<in>set presentation_filters. catches f t \<longrightarrow> select (AllExceptionsFilter # presentation_filters) t = Some f)"
proof
  show "select global_filters t = Some AllExceptionsFilter"
    by (simp add: global_filters_def assms)
  have split: "AllExceptionsFilter # presentation_filters = ([AllExceptionsFilter] @ [DomainExceptionFilter]) @ [HttpExceptionFilter]"
    by (simp add: presentation_filters_def)
  have "catches f t \<Longrightarrow> f \<in> set presentation_filters \<Longrightarrow> select (AllExceptionsFilter # presentation_filters) t = Some f" for f
    unfolding split assms by (cases "(f, t)" rule: catches.cases) (auto simp: presentation_filters_def)
  then show "\<forall>f\<in>set presentation_filters. catches f t \<longrightarrow> select (AllExceptionsFilter # presentation_filters) t = Some f" by blast
qed

theorem catch_all_shadows_filters_witness:
  "find (\<lambda>f. catches f (ThrownValue JNull)) (rev global_filters) = Some AllExceptionsFilter"
  by (rule conjunct1 [OF catch_all_shadows_filters [where select = "\<lambda>fs t. find (\<lambda>f. catches f t) (rev fs)"]]) simp

text \<open>
  The timeout: a handler that settles before the deadline is untouched, and one that does not is
  answered, by the timeout interceptor and the filter together, with status 408 and a body that says
  the time allowed; a request without a limit of its own is given 30 seconds.
\<close>

theorem timeout_answer:
  "(case h of Some (t, out) \<Rightarrow> t < (case custom of Some ms \<Rightarrow> ms | None \<Rightarrow> 30000) \<and> Timeout_intercept custom h = out | None \<Rightarrow> False) \<or>
   (\<exists>e rs. Timeout_intercept custom h = Inl e \<and> AllExceptions_catch env r e = Inr rs \<and> rs_status rs = 408 \<and>
      map_of (rs_body rs) ''timeout'' = Some (JNum (int (case custom of Some ms \<Rightarrow> ms | None \<Rightarrow> 30000))) \<and>
      map_of (rs_body rs) ''instance'' = Some (JStr (fr_url r)) \<and>
      map_of (rs_body rs) ''requestId'' = Some (JStr (AllExceptions_requestId r)))"
proof -
  have "AllExceptions_catch env r (HttpException 408 (timeout_body ms) m) = Inr rs \<Longrightarrow> rs_status rs = 408 \<and>
      map_of (rs_body rs) ''timeout'' = Some (JNum (int ms)) \<and>
      map_of (rs_body rs) ''instance'' = Some (JStr (fr_url r)) \<and>
      map_of (rs_body rs) ''requestId'' = Some (JStr (AllExceptions_requestId r))" for ms m rs
    by (auto simp: http_passes AllExceptions_http_def timeout_body_def put_all_def map_of_obj_put)
  then show ?thesis
    by (auto simp: Timeout_intercept_def DEFAULT_TIMEOUT_def Let_def http_passes split: option.split)
qed

end
