(* ===== verification/Validation.thy ===== *)
theory Validation
  imports Filters ValueObjects
begin

text \<open>
  Input checks and requests to the application: the custom validators of \<open>src/common/validators\<close>, the
  validation pipe's exception (\<open>src/presentation/rest/pipes/validation.pipe.ts\<close>), and the command and query
  objects of \<open>src/application\<close>. class-validator is third-party: its errors are arguments of the pipe. The
  Prisma tables a validator asks are a map from names to their \<open>findFirst\<close>.
\<close>

section \<open>IsUuidV4\<close>

fun IsUuidV4_validate :: "json \<Rightarrow> bool" where
  "IsUuidV4_validate (JStr v) = rx_test UUID_V4_REGEX v"
| "IsUuidV4_validate _ = False"

definition IsUuidV4_defaultMessage :: "string \<Rightarrow> string" where
  "IsUuidV4_defaultMessage property =
     property @ '' must be a valid UUID v4 (e.g., \"550e8400-e29b-41d4-a716-446655440000\")''"

section \<open>IsUnique\<close>

record where_clause =
  wc_column :: string
  wc_value :: json
  wc_notId :: "json option"

type_synonym row = "(string \<times> json) list"

definition IsUnique_validate ::
  "(string \<rightharpoonup> (where_clause \<Rightarrow> exn + row option)) \<Rightarrow> string \<Rightarrow> string \<Rightarrow> string option \<Rightarrow> row \<Rightarrow> json \<Rightarrow> bool" where
  "IsUnique_validate prisma table column excludeIdColumn object v =
     (if v = JNull \<or> v = JUndef \<or> v = JStr [] then True
      else
        let notId = (case excludeIdColumn of
               Some k \<Rightarrow> if k \<noteq> [] \<and> js_truthy (json_get k object) then Some (json_get k object) else None
             | None \<Rightarrow> None)
        in case prisma table of
             None \<Rightarrow> False
           | Some findFirst \<Rightarrow>
               (case findFirst \<lparr>wc_column = column, wc_value = v, wc_notId = notId\<rparr> of
                  Inr record' \<Rightarrow> record' = None
                | Inl e \<Rightarrow> False))"

definition IsUnique_defaultMessage :: "string \<Rightarrow> string \<Rightarrow> string \<Rightarrow> string" where
  "IsUnique_defaultMessage property table column =
     property @ '' must be unique in '' @ table @ ''.'' @ column @ ''. A record with this value already exists.''"

section \<open>The validation pipe\<close>

record ValidationError =
  ve_property :: string
  ve_constraints :: "(string \<times> string) list option"
  ve_value :: json

definition field_error :: "ValidationError \<Rightarrow> json" where
  "field_error error =
     JObj [(''field'', JStr (ve_property error)),
       (''message'', JStr (str_join ''; '' (map snd (case ve_constraints error of Some cs \<Rightarrow> cs | None \<Rightarrow> [])))),
       (''value'', ve_value error)]"

definition createValidationPipe_exception :: "ValidationError list \<Rightarrow> thrown" where
  "createValidationPipe_exception errors =
     HttpException 400
       (JObj [(''type'', errors_url ''validation''), (''title'', JStr ''Validation Error''), (''status'', JNum 422),
          (''detail'', JStr ''The request body contains invalid fields.''),
          (''code'', JStr (error_code_string VALIDATION_ERROR)), (''errors'', JArr (map field_error errors))])
       ''Bad Request Exception''"

section \<open>Commands and queries\<close>

text \<open>The identifier and the clock are arguments; a command's correlation identifier is that of its context.\<close>

record BaseCommand =
  bc_commandId :: string
  bc_timestamp :: int
  bc_correlationId :: "string option"
  bc_causationId :: "string option"

record CreateUserCommand = BaseCommand +
  cc_email :: string
  cc_firstName :: string
  cc_lastName :: string
  cc_password :: string

record AssignRoleCommand = BaseCommand +
  ar_userId :: string
  ar_roleId :: string

record ChangeUserStatusCommand = BaseCommand +
  cs_userId :: string
  cs_newStatus :: string

record BaseQuery =
  bq_queryId :: string
  bq_timestamp :: int

record GetUserQuery = BaseQuery +
  gq_userId :: string

record ListUsersQuery = BaseQuery +
  lq_limit :: int
  lq_cursor :: "string option"
  lq_offset :: "int option"
  lq_status :: "string option"
  lq_search :: "string option"
  lq_sortBy :: string
  lq_sortOrder :: string

definition BaseCommand_new :: "string \<Rightarrow> int \<Rightarrow> string option \<Rightarrow> string option \<Rightarrow> BaseCommand" where
  "BaseCommand_new uuid now correlationId causationId =
     \<lparr>bc_commandId = uuid, bc_timestamp = now, bc_correlationId = correlationId, bc_causationId = causationId\<rparr>"

definition CreateUserCommand_new ::
  "string \<Rightarrow> int \<Rightarrow> string option \<Rightarrow> string \<Rightarrow> string \<Rightarrow> string \<Rightarrow> string \<Rightarrow> CreateUserCommand" where
  "CreateUserCommand_new uuid now correlationId email firstName lastName password =
     BaseCommand.extend (BaseCommand_new uuid now correlationId None)
       \<lparr>cc_email = email, cc_firstName = firstName, cc_lastName = lastName, cc_password = password\<rparr>"

definition AssignRoleCommand_new :: "string \<Rightarrow> int \<Rightarrow> string option \<Rightarrow> string \<Rightarrow> string \<Rightarrow> AssignRoleCommand" where
  "AssignRoleCommand_new uuid now correlationId userId roleId =
     BaseCommand.extend (BaseCommand_new uuid now correlationId None) \<lparr>ar_userId = userId, ar_roleId = roleId\<rparr>"

definition ChangeUserStatusCommand_new :: "string \<Rightarrow> int \<Rightarrow> string option \<Rightarrow> string \<Rightarrow> string \<Rightarrow> ChangeUserStatusCommand" where
  "ChangeUserStatusCommand_new uuid now correlationId userId newStatus =
     BaseCommand.extend (BaseCommand_new uuid now correlationId None) \<lparr>cs_userId = userId, cs_newStatus = newStatus\<rparr>"

definition BaseQuery_new :: "string \<Rightarrow> int \<Rightarrow> BaseQuery" where
  "BaseQuery_new uuid now = \<lparr>bq_queryId = uuid, bq_timestamp = now\<rparr>"

definition GetUserQuery_new :: "string \<Rightarrow> int \<Rightarrow> string \<Rightarrow> GetUserQuery" where
  "GetUserQuery_new uuid now userId = BaseQuery.extend (BaseQuery_new uuid now) \<lparr>gq_userId = userId\<rparr>"

definition ListUsersQuery_new ::
  "string \<Rightarrow> int \<Rightarrow> int option \<Rightarrow> string option \<Rightarrow> int option \<Rightarrow> string option \<Rightarrow> string option \<Rightarrow> string option \<Rightarrow>
     string option \<Rightarrow> ListUsersQuery" where
  "ListUsersQuery_new uuid now limit cursor offset status search sortBy sortOrder =
     BaseQuery.extend (BaseQuery_new uuid now)
       \<lparr>lq_limit = (case limit of Some l \<Rightarrow> l | None \<Rightarrow> 20), lq_cursor = cursor, lq_offset = offset, lq_status = status,
        lq_search = search, lq_sortBy = (case sortBy of Some c \<Rightarrow> c | None \<Rightarrow> ''createdAt''),
        lq_sortOrder = (case sortOrder of Some x \<Rightarrow> x | None \<Rightarrow> ''desc'')\<rparr>"

section \<open>Lemmas\<close>

text \<open>What Prisma documents of \<open>findFirst\<close>: the first row the clause describes.\<close>

definition row_matches :: "where_clause \<Rightarrow> row \<Rightarrow> bool" where
  "row_matches w r \<longleftrightarrow> json_get (wc_column w) r = wc_value w \<and> (\<forall>i. wc_notId w = Some i \<longrightarrow> json_get ''id'' r \<noteq> i)"

lemma uuid_validators_agree:
  "IsUuidV4_validate (JStr v) \<longleftrightarrow> UniqueId_fromString v = Inr (UniqueId v)"
  using UUID_trim [of v] UUID_nonempty [of v] by (auto simp: UniqueId_fromString_def Let_def)

section \<open>Properties\<close>

text \<open>
  What \<open>IsUnique\<close> accepts. Over a table whose \<open>findFirst\<close> answers with the first matching row, a value
  is accepted exactly when it is missing or empty, or no row holds it in that column other than the
  record whose identifier the object itself names. When the query fails or the table is unknown, no
  value that is there is accepted.
\<close>
theorem IsUnique_accepts_iff:
  assumes "prisma table = Some (\<lambda>w. Inr (find (row_matches w) rows))"
  shows "(IsUnique_validate prisma table column excludeIdColumn object v \<longleftrightarrow>
      v \<in> {JNull, JUndef, JStr []} \<or>
      \<not> (\<exists>r\<in>set rows. json_get column r = v \<and>
        \<not> (\<exists>k. excludeIdColumn = Some k \<and> k \<noteq> [] \<and> js_truthy (json_get k object) \<and> json_get ''id'' r = json_get k object))) \<and>
    (IsUnique_validate (prisma(table := None)) table column excludeIdColumn object v \<longleftrightarrow> v \<in> {JNull, JUndef, JStr []}) \<and>
    (IsUnique_validate (prisma(table \<mapsto> (\<lambda>w. Inl e))) table column excludeIdColumn object v \<longleftrightarrow> v \<in> {JNull, JUndef, JStr []})"
proof (intro conjI)
  have n: "find P rows = None \<longleftrightarrow> \<not> (\<exists>r\<in>set rows. P r)" for P by (auto simp: find_None_iff)
  show "IsUnique_validate prisma table column excludeIdColumn object v \<longleftrightarrow>
      v \<in> {JNull, JUndef, JStr []} \<or>
      \<not> (\<exists>r\<in>set rows. json_get column r = v \<and>
        \<not> (\<exists>k. excludeIdColumn = Some k \<and> k \<noteq> [] \<and> js_truthy (json_get k object) \<and> json_get ''id'' r = json_get k object))"
    by (cases excludeIdColumn) (auto simp: IsUnique_validate_def Let_def assms n row_matches_def)
qed (simp_all add: IsUnique_validate_def Let_def)

theorem IsUnique_accepts_iff_witness:
  "\<not> IsUnique_validate [''user'' \<mapsto> (\<lambda>w. Inr (find (row_matches w) [[(''id'', JStr ''1''), (''email'', JStr ''a@b.c'')]]))]
      ''user'' ''email'' None [] (JStr ''a@b.c'') \<and>
   IsUnique_validate [''user'' \<mapsto> (\<lambda>w. Inr (find (row_matches w) [[(''id'', JStr ''1''), (''email'', JStr ''a@b.c'')]]))]
      ''user'' ''email'' (Some ''userId'') [(''userId'', JStr ''1'')] (JStr ''a@b.c'')"
proof -
  let ?rows = "[[(''id'', JStr ''1''), (''email'', JStr ''a@b.c'')]]"
  let ?prisma = "[''user'' \<mapsto> (\<lambda>w. Inr (find (row_matches w) ?rows))]"
  have p: "?prisma ''user'' = Some (\<lambda>w. Inr (find (row_matches w) ?rows))" by simp
  show ?thesis
    using conjunct1 [OF IsUnique_accepts_iff [where prisma = ?prisma and table = "''user''" and rows = ?rows and column = "''email''" and
          excludeIdColumn = None and object = "[]" and v = "JStr ''a@b.c''", OF p]]
      conjunct1 [OF IsUnique_accepts_iff [where prisma = ?prisma and table = "''user''" and rows = ?rows and column = "''email''" and
          excludeIdColumn = "Some ''userId''" and object = "[(''userId'', JStr ''1'')]" and v = "JStr ''a@b.c''", OF p]]
    by (simp add: json_get_def)
qed

text \<open>
  A rejected body comes back to the client. What the validation pipe throws is answered, through the
  filter, with HTTP status 400 under a problem that says 422, and its \<open>errors\<close> hold one entry for each
  field in order, with the rejected value itself: a password that is too short is echoed in the answer.
\<close>

theorem validation_echoes_values:
  "\<exists>rs errs. AllExceptions_catch env r (createValidationPipe_exception errors) = Inr rs \<and> rs_status rs = 400 \<and>
    map_of (rs_body rs) ''status'' = Some (JNum 422) \<and> map_of (rs_body rs) ''errors'' = Some (JArr errs) \<and>
    map (get_key ''field'') errs = map (JStr \<circ> ve_property) errors \<and> map (get_key ''value'') errs = map ve_value errors"
  by (simp add: createValidationPipe_exception_def http_passes AllExceptions_http_def put_all_def map_of_obj_put
      field_error_def json_get_def comp_def)

end
