(* ===== verification/Dtos.thy ===== *)
theory Dtos
  imports Validation
begin

text \<open>
  The input DTOs of the application layer (\<open>src/application/dto\<close>) and of the controllers
  (\<open>src/presentation/rest/controllers\<close>) as data: each property with its decorators, in the source's order. The
  two global validation pipes run them (\<open>main.ts\<close>, \<open>presentation.module.ts\<close>). class-validator and class-transformer
  are third-party: what a rule accepts, what \<open>plainToInstance\<close> converts and what \<open>validate\<close> reports are the
  fields of \<open>class_validator\<close>, and their documentation is \<open>validator_laws\<close>.
\<close>

section \<open>Rules and properties\<close>

datatype rule =
    IsEmail | IsString | IsInt
  | MinLength nat | MaxLength nat
  | Min_rule int | Max_rule int
  | Matches "string \<Rightarrow> bool"
  | IsIn "string list" | IsEnum "string list"

text \<open>A rule with the message the source gives it, if any.\<close>

record dto_property =
  dp_name :: string
  dp_optional :: bool
  dp_rules :: "(rule \<times> string option) list"
  dp_default :: "json option"

type_synonym dto_schema = "dto_property list"

definition required :: "string \<Rightarrow> (rule \<times> string option) list \<Rightarrow> dto_property" where
  "required name rules = \<lparr>dp_name = name, dp_optional = False, dp_rules = rules, dp_default = None\<rparr>"

definition optional :: "string \<Rightarrow> (rule \<times> string option) list \<Rightarrow> dto_property" where
  "optional name rules = \<lparr>dp_name = name, dp_optional = True, dp_rules = rules, dp_default = None\<rparr>"

section \<open>DTOs of the application layer\<close>

text \<open>
  \<open>/^(?=.*[a-z])(?=.*[A-Z])(?=.*\d)(?=.*[^A-Za-z0-9]).+$/\<close>. The dot does not match a line terminator and \<open>.+\<close> has to
  reach the end, so the lookaheads see the whole text.
\<close>

definition line_terminator :: "char \<Rightarrow> bool" where
  "line_terminator c \<longleftrightarrow> c = CHR 0x0A \<or> c = CHR 0x0D"

definition password_pattern :: "string \<Rightarrow> bool" where
  "password_pattern s \<longleftrightarrow>
     list_ex is_lower s \<and> list_ex is_upper s \<and> list_ex is_digit s \<and>
     list_ex (\<lambda>c. \<not> (is_upper c \<or> is_lower c \<or> is_digit c)) s \<and> list_all (\<lambda>c. \<not> line_terminator c) s"

definition CreateUserDto_schema :: dto_schema where
  "CreateUserDto_schema =
     [required ''email'' [(IsEmail, Some ''Email must be a valid email address.''), (MaxLength 320, Some ''Email must not exceed 320 characters.'')],
      required ''firstName'' [(IsString, Some ''First name is required.''), (MinLength 1, Some ''First name must not be empty.''),
        (MaxLength 100, Some ''First name must not exceed 100 characters.'')],
      required ''lastName'' [(IsString, Some ''Last name is required.''), (MinLength 1, Some ''Last name must not be empty.''),
        (MaxLength 100, Some ''Last name must not exceed 100 characters.'')],
      required ''password'' [(IsString, Some ''Password is required.''), (MinLength 8, Some ''Password must be at least 8 characters.''),
        (MaxLength 128, Some ''Password must not exceed 128 characters.''),
        (Matches password_pattern, Some ''Password must contain at least one uppercase letter, one lowercase letter, one digit, and one special character.'')]]"

definition UserStatus_values :: "string list" where
  "UserStatus_values = [''ACTIVE'', ''INACTIVE'', ''SUSPENDED'', ''PENDING_VERIFICATION'']"

definition UpdateUserDto_schema :: dto_schema where
  "UpdateUserDto_schema =
     [optional ''email'' [(IsEmail, Some ''Email must be a valid email address.''), (MaxLength 320, Some ''Email must not exceed 320 characters.'')],
      optional ''firstName'' [(IsString, Some ''First name must be a string.''), (MinLength 1, Some ''First name must not be empty.''),
        (MaxLength 100, Some ''First name must not exceed 100 characters.'')],
      optional ''lastName'' [(IsString, Some ''Last name must be a string.''), (MinLength 1, Some ''Last name must not be empty.''),
        (MaxLength 100, Some ''Last name must not exceed 100 characters.'')],
      optional ''status'' [(IsEnum UserStatus_values, Some (''Status must be one of: '' @ str_join '', '' UserStatus_values))]]"

definition PaginationQuery :: dto_schema where
  "PaginationQuery =
     [optional ''cursor'' [(IsString, None)],
      optional ''offset'' [(IsInt, None), (Min_rule 0, None)],
      (optional ''limit'' [(IsInt, None), (Min_rule 1, None), (Max_rule 100, None)])\<lparr>dp_default := Some (JNum 20)\<rparr>,
      (optional ''sortBy'' [(IsIn [''createdAt'', ''email'', ''lastName''], None)])\<lparr>dp_default := Some (JStr ''createdAt'')\<rparr>,
      (optional ''sortOrder'' [(IsIn [''asc'', ''desc''], None)])\<lparr>dp_default := Some (JStr ''desc'')\<rparr>]"

section \<open>DTOs of the controllers\<close>

definition UserController_CreateUserDto :: dto_schema where
  "UserController_CreateUserDto =
     [required ''email'' [(IsEmail, Some ''Must be a valid email address'')],
      required ''password'' [(IsString, None), (MinLength 8, Some ''Password must be at least 8 characters''),
        (MaxLength 128, Some ''Password must not exceed 128 characters'')],
      required ''firstName'' [(IsString, None), (MinLength 1, None), (MaxLength 100, None)],
      required ''lastName'' [(IsString, None), (MinLength 1, None), (MaxLength 100, None)]]"

definition UserController_UpdateUserDto :: dto_schema where
  "UserController_UpdateUserDto =
     [optional ''firstName'' [(IsString, None), (MinLength 1, None), (MaxLength 100, None)],
      optional ''lastName'' [(IsString, None), (MinLength 1, None), (MaxLength 100, None)],
      optional ''status'' [(IsEnum [''ACTIVE'', ''INACTIVE'', ''SUSPENDED'', ''PENDING_VERIFICATION''],
        Some ''Status must be one of: ACTIVE, INACTIVE, SUSPENDED, PENDING_VERIFICATION'')]]"

definition UserController_ListUsersQueryDto :: dto_schema where
  "UserController_ListUsersQueryDto =
     [(optional ''page'' [])\<lparr>dp_default := Some (JNum 1)\<rparr>,
      (optional ''limit'' [])\<lparr>dp_default := Some (JNum 20)\<rparr>,
      optional ''status'' [(IsEnum [''ACTIVE'', ''INACTIVE'', ''SUSPENDED'', ''PENDING_VERIFICATION''], None)],
      optional ''email'' [(IsEmail, None)]]"

text \<open>The four DTOs of the authentication controller declare their properties without any decorator, so
  class-validator knows none of them.\<close>

definition AuthController_dtos :: dto_schema where
  "AuthController_dtos = []"
section \<open>The pipes\<close>

record class_validator =
  cv_check :: "rule \<Rightarrow> json \<Rightarrow> bool"
  cv_convert :: "dto_schema \<Rightarrow> row \<Rightarrow> row"
  cv_validate :: "bool \<Rightarrow> dto_schema \<Rightarrow> row \<Rightarrow> ValidationError list"

text \<open>
  Both pipes set \<open>whitelist\<close>, \<open>forbidNonWhitelisted\<close> and \<open>transform\<close>; they differ in \<open>forbidUnknownValues\<close> and in the
  exception. The pipe of the presentation module is registered while the modules are scanned, the one of
  the bootstrap after that, so the bootstrap's pipe sees what the other one passed on.
\<close>

record pipe_options =
  po_forbidUnknownValues :: bool
  po_exception :: "ValidationError list \<Rightarrow> thrown"

definition presentation_pipe :: pipe_options where
  "presentation_pipe = \<lparr>po_forbidUnknownValues = False, po_exception = createValidationPipe_exception\<rparr>"

definition bootstrap_pipe :: "(ValidationError list \<Rightarrow> thrown) \<Rightarrow> pipe_options" where
  "bootstrap_pipe nest_exception = \<lparr>po_forbidUnknownValues = True, po_exception = nest_exception\<rparr>"

definition run_pipe :: "class_validator \<Rightarrow> dto_schema \<Rightarrow> pipe_options \<Rightarrow> row \<Rightarrow> thrown + row" where
  "run_pipe cv schema pipe body =
     (let entity = cv_convert cv schema body; errors = cv_validate cv (po_forbidUnknownValues pipe) schema entity
      in if errors = [] then Inr entity else Inl (po_exception pipe errors))"

definition global_pipes ::
  "class_validator \<Rightarrow> (ValidationError list \<Rightarrow> thrown) \<Rightarrow> dto_schema \<Rightarrow> row \<Rightarrow> thrown + row" where
  "global_pipes cv nest_exception schema body =
     bindE (run_pipe cv schema presentation_pipe body) (run_pipe cv schema (bootstrap_pipe nest_exception))"

section \<open>What class-validator promises\<close>

text \<open>A property passes if it is optional and absent, or if all of its rules accept its value.\<close>

definition property_ok :: "(rule \<Rightarrow> json \<Rightarrow> bool) \<Rightarrow> row \<Rightarrow> dto_property \<Rightarrow> bool" where
  "property_ok check ob p \<longleftrightarrow>
     (dp_optional p \<and> (json_get (dp_name p) ob = JNull \<or> json_get (dp_name p) ob = JUndef)) \<or>
     (\<forall>(r, m)\<in>set (dp_rules p). check r (json_get (dp_name p) ob))"

definition schema_ok :: "(rule \<Rightarrow> json \<Rightarrow> bool) \<Rightarrow> dto_schema \<Rightarrow> row \<Rightarrow> bool" where
  "schema_ok check schema ob \<longleftrightarrow> fst ` set ob \<subseteq> dp_name ` set schema \<and> (\<forall>p\<in>set schema. property_ok check ob p)"

text \<open>The documented meaning of the rules; of \<open>IsEmail\<close> only that it accepts nothing but texts, and none whose
  local part is longer than 64 characters or whose domain is longer than 254.\<close>

definition rule_laws :: "(rule \<Rightarrow> json \<Rightarrow> bool) \<Rightarrow> bool" where
  "rule_laws check \<longleftrightarrow>
     (\<forall>v. check IsEmail v \<longrightarrow> (\<exists>s. v = JStr s \<and> length s \<le> 64 + 1 + 254)) \<and>
     (\<forall>v. check IsString v \<longleftrightarrow> (\<exists>s. v = JStr s)) \<and>
     (\<forall>n v. check (MinLength n) v \<longleftrightarrow> (\<exists>s. v = JStr s \<and> n \<le> length s)) \<and>
     (\<forall>n v. check (MaxLength n) v \<longleftrightarrow> (\<exists>s. v = JStr s \<and> length s \<le> n)) \<and>
     (\<forall>f v. check (Matches f) v \<longleftrightarrow> (\<exists>s. v = JStr s \<and> f s)) \<and>
     (\<forall>xs v. check (IsEnum xs) v \<longleftrightarrow> v \<in> JStr ` set xs) \<and>
     (\<forall>xs v. check (IsIn xs) v \<longleftrightarrow> v \<in> JStr ` set xs)"

text \<open>\<open>plainToInstance\<close> keeps every property but \<open>__proto__\<close> and \<open>constructor\<close>, which it skips.\<close>

definition validator_laws :: "class_validator \<Rightarrow> bool" where
  "validator_laws cv \<longleftrightarrow>
     rule_laws (cv_check cv) \<and>
     (\<forall>schema ob. fst ` set ob - {''__proto__'', ''constructor''} \<subseteq> fst ` set (cv_convert cv schema ob)) \<and>
     (\<forall>unknown schema ob. cv_validate cv unknown schema ob = [] \<longleftrightarrow>
        (unknown \<longrightarrow> schema \<noteq> []) \<and> schema_ok (cv_check cv) schema ob)"

section \<open>Lemmas\<close>

lemma validate_iff:
  "validator_laws cv \<Longrightarrow> cv_validate cv unknown schema ob = [] \<longleftrightarrow>
     (unknown \<longrightarrow> schema \<noteq> []) \<and> schema_ok (cv_check cv) schema ob"
  by (simp add: validator_laws_def)

lemma rules_of: "validator_laws cv \<Longrightarrow> rule_laws (cv_check cv)"
  by (simp add: validator_laws_def)

lemma rule_texts:
  assumes "rule_laws check"
  shows "check IsString v \<longleftrightarrow> (\<exists>s. v = JStr s)"
    "check (MinLength n) v \<longleftrightarrow> (\<exists>s. v = JStr s \<and> n \<le> length s)" "check (MaxLength n) v \<longleftrightarrow> (\<exists>s. v = JStr s \<and> length s \<le> n)"
    "check (Matches f) v \<longleftrightarrow> (\<exists>s. v = JStr s \<and> f s)"
  using assms by (auto simp: rule_laws_def)

lemma email_text: "rule_laws check \<Longrightarrow> \<nexists>s. v = JStr s \<Longrightarrow> \<not> check IsEmail v"
  by (auto simp: rule_laws_def)

lemma required_ok: "property_ok check ob (required name rules) \<longleftrightarrow> (\<forall>(r, m)\<in>set rules. check r (json_get name ob))"
  by (simp add: property_ok_def required_def)

lemma name_property_ok:
  assumes "rule_laws check"
  shows "property_ok check ob (required name [(IsString, m1), (MinLength n, m2), (MaxLength k, m3)]) \<longleftrightarrow>
    (\<exists>t. json_get name ob = JStr t \<and> n \<le> length t \<and> length t \<le> k)"
  unfolding required_ok by (cases "json_get name ob") (simp_all add: rule_texts [OF assms])

lemma schema_ok_Cons:
  "schema_ok check [p, q, r, s] ob \<longleftrightarrow> fst ` set ob \<subseteq> {dp_name p, dp_name q, dp_name r, dp_name s} \<and>
     property_ok check ob p \<and> property_ok check ob q \<and> property_ok check ob r \<and> property_ok check ob s"
  by (simp add: schema_ok_def)

lemma dp_name_required [simp]: "dp_name (required name rules) = name"
  by (simp add: required_def)

text \<open>Both schemas of a new user, spelled out.\<close>

lemma application_properties:
  assumes "rule_laws check"
  shows "(\<forall>p\<in>set CreateUserDto_schema. property_ok check ob p) \<longleftrightarrow>
    (\<exists>e. json_get ''email'' ob = JStr e \<and> check IsEmail (JStr e)) \<and>
    (\<exists>f. json_get ''firstName'' ob = JStr f \<and> 1 \<le> length f \<and> length f \<le> 100) \<and>
    (\<exists>l. json_get ''lastName'' ob = JStr l \<and> 1 \<le> length l \<and> length l \<le> 100) \<and>
    (\<exists>w. json_get ''password'' ob = JStr w \<and> 8 \<le> length w \<and> length w \<le> 128 \<and> password_pattern w)"
proof -
  have "check IsEmail (JStr e) \<Longrightarrow> length e \<le> 320" for e using assms by (auto simp: rule_laws_def)
  then have "property_ok check ob (required ''email'' [(IsEmail, m1), (MaxLength 320, m2)]) \<longleftrightarrow>
      (\<exists>e. json_get ''email'' ob = JStr e \<and> check IsEmail (JStr e))" for m1 m2
    unfolding required_ok by (cases "json_get ''email'' ob") (auto simp add: rule_texts [OF assms] email_text [OF assms])
  moreover have "property_ok check ob (required ''password'' [(IsString, m1), (MinLength 8, m2), (MaxLength 128, m3), (Matches password_pattern, m4)]) \<longleftrightarrow>
      (\<exists>w. json_get ''password'' ob = JStr w \<and> 8 \<le> length w \<and> length w \<le> 128 \<and> password_pattern w)" for m1 m2 m3 m4
    unfolding required_ok by (cases "json_get ''password'' ob") (simp_all add: rule_texts [OF assms])
  ultimately show ?thesis
    unfolding CreateUserDto_schema_def list.set ball_simps name_property_ok [OF assms] by (simp only: simp_thms)
qed

lemma application_create_ok:
  assumes "rule_laws check"
  shows "schema_ok check CreateUserDto_schema ob \<longleftrightarrow>
    fst ` set ob \<subseteq> {''email'', ''firstName'', ''lastName'', ''password''} \<and>
    (\<exists>e. json_get ''email'' ob = JStr e \<and> check IsEmail (JStr e)) \<and>
    (\<exists>f. json_get ''firstName'' ob = JStr f \<and> 1 \<le> length f \<and> length f \<le> 100) \<and>
    (\<exists>l. json_get ''lastName'' ob = JStr l \<and> 1 \<le> length l \<and> length l \<le> 100) \<and>
    (\<exists>w. json_get ''password'' ob = JStr w \<and> 8 \<le> length w \<and> length w \<le> 128 \<and> password_pattern w)"
proof -
  have "dp_name ` set CreateUserDto_schema = {''email'', ''firstName'', ''lastName'', ''password''}"
    by (simp add: CreateUserDto_schema_def)
  then show ?thesis unfolding schema_ok_def application_properties [OF assms] by simp
qed

lemma controller_create_ok:
  assumes "rule_laws check"
  shows "schema_ok check UserController_CreateUserDto ob \<longleftrightarrow>
    fst ` set ob \<subseteq> {''email'', ''firstName'', ''lastName'', ''password''} \<and>
    (\<exists>e. json_get ''email'' ob = JStr e \<and> check IsEmail (JStr e)) \<and>
    (\<exists>f. json_get ''firstName'' ob = JStr f \<and> 1 \<le> length f \<and> length f \<le> 100) \<and>
    (\<exists>l. json_get ''lastName'' ob = JStr l \<and> 1 \<le> length l \<and> length l \<le> 100) \<and>
    (\<exists>w. json_get ''password'' ob = JStr w \<and> 8 \<le> length w \<and> length w \<le> 128)"
proof -
  have "property_ok check ob (required ''email'' [(IsEmail, m)]) \<longleftrightarrow>
      (\<exists>e. json_get ''email'' ob = JStr e \<and> check IsEmail (JStr e))" for m
    unfolding required_ok by (cases "json_get ''email'' ob") (simp_all add: rule_texts [OF assms] email_text [OF assms])
  moreover have "{a, b, c, d} = {a, c, d, b}" for a b c d :: string by blast
  from this [of "''email''" "''password''" "''firstName''" "''lastName''"]
  have "{''email'', ''password'', ''firstName'', ''lastName''} = {''email'', ''firstName'', ''lastName'', ''password''}" .
  ultimately show ?thesis
    unfolding UserController_CreateUserDto_def schema_ok_Cons name_property_ok [OF assms]
    by (simp only: dp_name_required) (simp only: conj_ac)
qed

section \<open>A validator with these laws\<close>

fun sample_check :: "rule \<Rightarrow> json \<Rightarrow> bool" where
  "sample_check IsEmail (JStr s) = (CHR ''@'' \<in> set s \<and> length s \<le> 254)"
| "sample_check IsString (JStr s) = True"
| "sample_check (MinLength n) (JStr s) = (n \<le> length s)"
| "sample_check (MaxLength n) (JStr s) = (length s \<le> n)"
| "sample_check (Matches f) (JStr s) = f s"
| "sample_check (IsEnum xs) (JStr s) = (s \<in> set xs)"
| "sample_check (IsIn xs) (JStr s) = (s \<in> set xs)"
| "sample_check IsInt (JNum i) = True"
| "sample_check (Min_rule n) (JNum i) = (n \<le> i)"
| "sample_check (Max_rule n) (JNum i) = (i \<le> n)"
| "sample_check _ _ = False"

definition sample_validator :: class_validator where
  "sample_validator = \<lparr>cv_check = sample_check, cv_convert = (\<lambda>schema ob. ob),
     cv_validate = (\<lambda>unknown schema ob. if (unknown \<longrightarrow> schema \<noteq> []) \<and> schema_ok sample_check schema ob then []
       else [\<lparr>ve_property = ''field'', ve_constraints = None, ve_value = JUndef\<rparr>])\<rparr>"

lemma sample_validator_laws: "validator_laws sample_validator"
proof -
  have "sample_check IsEmail v \<Longrightarrow> \<exists>s. v = JStr s \<and> length s \<le> 64 + 1 + 254" "sample_check IsString v \<longleftrightarrow> (\<exists>s. v = JStr s)"
    "sample_check (MinLength n) v \<longleftrightarrow> (\<exists>s. v = JStr s \<and> n \<le> length s)" "sample_check (MaxLength n) v \<longleftrightarrow> (\<exists>s. v = JStr s \<and> length s \<le> n)"
    "sample_check (Matches f) v \<longleftrightarrow> (\<exists>s. v = JStr s \<and> f s)" "sample_check (IsEnum xs) v \<longleftrightarrow> v \<in> JStr ` set xs"
    "sample_check (IsIn xs) v \<longleftrightarrow> v \<in> JStr ` set xs" for v n f xs
    by (cases v; auto)+
  then show ?thesis by (simp add: validator_laws_def rule_laws_def sample_validator_def)
qed

section \<open>Properties\<close>

text \<open>
  No authentication request gets through the pipes. The DTOs of \<open>login\<close>, \<open>register\<close>, \<open>refresh\<close> and \<open>logout\<close>
  have no validation decorators, so every property of a body is unknown and the first pipe refuses it, with
  status 400; a body without properties (or with none but the two that are skipped) is refused by the second, which
  forbids objects it knows nothing of.
\<close>
theorem auth_bodies_refused:
  assumes "validator_laws cv"
  shows "\<exists>t. global_pipes cv nest_exception AuthController_dtos body = Inl t \<and>
    (\<not> fst ` set body \<subseteq> {''__proto__'', ''constructor''} \<longrightarrow> (\<exists>rs. AllExceptions_catch env r t = Inr rs \<and> rs_status rs = 400))"
proof -
  let ?one = "cv_convert cv [] body"
  have keys: "fst ` set body - {''__proto__'', ''constructor''} \<subseteq> fst ` set ?one" using assms by (simp add: validator_laws_def)
  have two: "cv_validate cv True [] x \<noteq> []" for x using validate_iff [OF assms, of True "[]" x] by simp
  show ?thesis
  proof (cases "cv_validate cv False [] ?one = []")
    case True
    then have "fst ` set body \<subseteq> {''__proto__'', ''constructor''}" using keys validate_iff [OF assms, of False "[]" ?one] by (auto simp: schema_ok_def)
    then show ?thesis using True two
      by (simp add: global_pipes_def run_pipe_def AuthController_dtos_def presentation_pipe_def bootstrap_pipe_def Let_def)
  next
    case False
    then show ?thesis
      by (simp add: global_pipes_def run_pipe_def AuthController_dtos_def presentation_pipe_def Let_def
          createValidationPipe_exception_def http_passes AllExceptions_http_def)
  qed
qed

theorem auth_bodies_refused_witness:
  "\<exists>t rs. global_pipes sample_validator (\<lambda>es. ThrownValue JNull) AuthController_dtos
      [(''email'', JStr ''a@b.c''), (''password'', JStr ''Secret-1'')] = Inl t \<and>
    AllExceptions_catch production_env sample_filter_request t = Inr rs \<and> rs_status rs = 400"
  using auth_bodies_refused [OF sample_validator_laws, of "\<lambda>es. ThrownValue JNull" "[(''email'', JStr ''a@b.c''), (''password'', JStr ''Secret-1'')]"
      production_env sample_filter_request] by auto

text \<open>
  C20. The three checks of a new user. The DTO of the use case accepts a body exactly when the controller's accepts
  it and the password has a character of each class and no line terminator: its limit of 320 characters for
  the email adds nothing to \<open>IsEmail\<close>. A password both accept is accepted by \<open>Password.create\<close> exactly when
  it has one of the listed special characters: the DTO counts every other character, a space among them, as
  special. A password that the controller's DTO and \<open>Password.create\<close> accept passes the use case's pattern
  unless it has a line terminator.
\<close>
theorem create_user_layers:
  assumes "validator_laws cv" "json_get ''password'' body = JStr w"
  shows "(cv_validate cv unknown CreateUserDto_schema body = [] \<longleftrightarrow>
      cv_validate cv unknown UserController_CreateUserDto body = [] \<and> password_pattern w) \<and>
    (cv_validate cv unknown CreateUserDto_schema body = [] \<longrightarrow>
      ((\<exists>p. Password_create w = Inr p) \<longleftrightarrow> list_ex special_char w)) \<and>
    (cv_validate cv unknown UserController_CreateUserDto body = [] \<longrightarrow> (\<exists>p. Password_create w = Inr p) \<longrightarrow>
      list_all (\<lambda>c. \<not> line_terminator c) w \<longrightarrow> password_pattern w)"
proof -
  have ne: "CreateUserDto_schema \<noteq> []" "UserController_CreateUserDto \<noteq> []"
    by (simp_all add: CreateUserDto_schema_def UserController_CreateUserDto_def)
  note v = validate_iff [OF assms(1)] application_create_ok [OF rules_of [OF assms(1)]] controller_create_ok [OF rules_of [OF assms(1)]]
  have special: "special_char c \<Longrightarrow> \<not> (is_upper c \<or> is_lower c \<or> is_digit c)" for c
    by (auto simp: special_char_def char_class_defs)
  show ?thesis
  proof (intro conjI)
    show "cv_validate cv unknown CreateUserDto_schema body = [] \<longleftrightarrow>
        cv_validate cv unknown UserController_CreateUserDto body = [] \<and> password_pattern w"
      unfolding v using ne assms(2) by auto
    show "cv_validate cv unknown CreateUserDto_schema body = [] \<longrightarrow> ((\<exists>p. Password_create w = Inr p) \<longleftrightarrow> list_ex special_char w)"
      unfolding v Password_create_accepts_iff using assms(2) by (auto simp: password_pattern_def)
    show "cv_validate cv unknown UserController_CreateUserDto body = [] \<longrightarrow> (\<exists>p. Password_create w = Inr p) \<longrightarrow>
        list_all (\<lambda>c. \<not> line_terminator c) w \<longrightarrow> password_pattern w"
      unfolding Password_create_accepts_iff password_pattern_def using special by (auto simp: list_ex_iff)
  qed
qed

theorem create_user_layers_witness:
  "cv_validate sample_validator True CreateUserDto_schema
      [(''email'', JStr ''a@b.c''), (''firstName'', JStr ''A''), (''lastName'', JStr ''B''), (''password'', JStr ''Aa1 aaaa'')] = [] \<and>
    \<not> (\<exists>p. Password_create ''Aa1 aaaa'' = Inr p)"
proof -
  let ?body = "[(''email'', JStr ''a@b.c''), (''firstName'', JStr ''A''), (''lastName'', JStr ''B''), (''password'', JStr ''Aa1 aaaa'')]"
  have "cv_validate sample_validator True CreateUserDto_schema ?body = []" by code_simp
  moreover have "\<not> list_ex special_char ''Aa1 aaaa''" by code_simp
  moreover have "json_get ''password'' ?body = JStr ''Aa1 aaaa''"
    by (simp add: json_get_def)
  ultimately show ?thesis
    using create_user_layers [OF sample_validator_laws, of ?body "''Aa1 aaaa''" True] by blast
qed

end
