(* ===== verification/Redaction.thy ===== *)
theory Redaction
  imports Results
begin

text \<open>
  What is kept out of the logs: \<open>LoggerService\<close> (\<open>src/observability/logging/logger.service.ts\<close>),
  \<open>LoggingInterceptor\<close> (\<open>src/presentation/rest/interceptors/logging.interceptor.ts\<close>) and the \<open>Audit\<close>
  decorator (\<open>src/application/decorators/audit.decorator.ts\<close>). A redactor takes any JavaScript value without
  functions, \<open>logged\<close>, instances of classes included, and gives plain data, \<open>json\<close>. Winston is a parameter (\<open>enabled\<close>: its answer for a level); what reaches it is the list of entries. The
  contract of a redactor is the locale \<open>redactor\<close>, interpreted on both recursive redactors.
\<close>

section \<open>Values that are logged\<close>

text \<open>
  An object is \<open>LObj hidden ps\<close>: \<open>ps\<close> are its own enumerable properties, which is all that \<open>Object.entries\<close>
  gives, and \<open>hidden\<close> is everything else it holds, its class included. So a \<open>Date\<close> is \<open>LObj hidden []\<close> with its
  instant in \<open>hidden\<close>, an \<open>Error\<close> has its message and stack there, and an instance of a class has its fields
  in \<open>ps\<close>. \<open>LIso t\<close> is the text \<open>t.toISOString()\<close>.
\<close>

datatype logged =
    LNull | LUndef | LBool bool | LNum int | LStr string | LIso int
  | LArr "logged list"
  | LObj string "(string \<times> logged) list"

fun typeof_object :: "logged \<Rightarrow> bool" where
  "typeof_object (LArr xs) = True"
| "typeof_object (LObj hidden ps) = True"
| "typeof_object _ = False"

fun scalar_json :: "logged \<Rightarrow> json" where
  "scalar_json LUndef = JUndef"
| "scalar_json (LBool b) = JBool b"
| "scalar_json (LNum n) = JNum n"
| "scalar_json (LStr t) = JStr t"
| "scalar_json (LIso t) = JDate t"
| "scalar_json _ = JNull"

text \<open>Plain data as a value to be logged.\<close>

fun plain :: "json \<Rightarrow> logged" where
  "plain JNull = LNull"
| "plain JUndef = LUndef"
| "plain (JBool b) = LBool b"
| "plain (JNum n) = LNum n"
| "plain (JStr t) = LStr t"
| "plain (JDate t) = LIso t"
| "plain (JArr xs) = LArr (map plain xs)"
| "plain (JObj ps) = LObj ''Object'' (map (\<lambda>(k, v). (k, plain v)) ps)"

section \<open>LoggerService\<close>

definition Logger_SENSITIVE_FIELDS :: "string list" where
  "Logger_SENSITIVE_FIELDS =
     [''password'', ''passwordHash'', ''password_hash'', ''token'', ''accessToken'', ''access_token'',
      ''refreshToken'', ''refresh_token'', ''secret'', ''apiKey'', ''api_key'', ''authorization'',
      ''creditCard'', ''credit_card'', ''ssn'', ''cvv'', ''pin'']"

definition REDACTED :: json where
  "REDACTED = JStr ''[REDACTED]''"

fun Logger_redact :: "logged \<Rightarrow> json" where
  "Logger_redact (LArr xs) = JArr (map (\<lambda>item. Logger_redact item) xs)"
| "Logger_redact (LObj hidden ps) =
     JObj (map (\<lambda>(key, v).
       (key, if key \<in> set Logger_SENSITIVE_FIELDS then REDACTED
             else if typeof_object v then Logger_redact v else scalar_json v)) ps)"
| "Logger_redact obj = scalar_json obj"

type_synonym log_meta = "(string \<times> json) list"

record log_entry =
  lg_level :: string
  lg_message :: string
  lg_meta :: log_meta

definition redact_meta :: "(string \<times> logged) list \<Rightarrow> log_meta" where
  "redact_meta m = (case Logger_redact (LObj ''Object'' m) of JObj m' \<Rightarrow> m' | _ \<Rightarrow> [])"

definition plain_meta :: "log_meta \<Rightarrow> (string \<times> logged) list" where
  "plain_meta m = map (\<lambda>(k, v). (k, plain v)) m"

text \<open>The logger: its own context, and the fields winston adds to each entry of a child. Contexts
  hold strings.\<close>

record LoggerService =
  ls_context :: log_meta
  ls_bound :: log_meta

definition Logger_setContext :: "log_meta \<Rightarrow> LoggerService \<Rightarrow> LoggerService" where
  "Logger_setContext context l = l\<lparr>ls_context := put_all (ls_context l) context\<rparr>"

definition Logger_child :: "log_meta \<Rightarrow> LoggerService \<Rightarrow> LoggerService" where
  "Logger_child context l =
     \<lparr>ls_context = put_all (ls_context l) context, ls_bound = put_all (ls_bound l) (redact_meta (plain_meta context))\<rparr>"

definition Logger_getContextString :: "LoggerService \<Rightarrow> string" where
  "Logger_getContextString l =
     (case json_get ''requestId'' (ls_context l) of
        JStr i \<Rightarrow> if i = [] then ''application'' else ''req:'' @ i
      | _ \<Rightarrow> ''application'')"

datatype log_message = Text string | Lazy "unit \<Rightarrow> string"

fun Logger_resolveMessage :: "log_message \<Rightarrow> string" where
  "Logger_resolveMessage (Text m) = m"
| "Logger_resolveMessage (Lazy f) = f ()"

definition context_or :: "string option \<Rightarrow> LoggerService \<Rightarrow> json" where
  "context_or context l =
     JStr (case context of Some c \<Rightarrow> if c = [] then Logger_getContextString l else c | None \<Rightarrow> Logger_getContextString l)"

definition Logger_write ::
  "(string \<Rightarrow> bool) \<Rightarrow> string \<Rightarrow> log_message \<Rightarrow> string option \<Rightarrow> LoggerService \<Rightarrow> log_entry list" where
  "Logger_write enabled level message context l =
     (if \<not> enabled level then []
      else [\<lparr>lg_level = level, lg_message = Logger_resolveMessage message,
             lg_meta = put_all (ls_bound l) (put_all [(''context'', context_or context l)] (ls_context l))\<rparr>])"

definition Logger_error ::
  "log_message \<Rightarrow> string option \<Rightarrow> string option \<Rightarrow> LoggerService \<Rightarrow> log_entry list" where
  "Logger_error message trace context l =
     [\<lparr>lg_level = ''error'', lg_message = Logger_resolveMessage message,
       lg_meta = put_all (ls_bound l) (put_all [(''context'', context_or context l)]
         (redact_meta (case trace of Some t \<Rightarrow> if t = [] then [] else [(''stack'', LStr t)] | None \<Rightarrow> [])))\<rparr>]"

definition Logger_http :: "log_message \<Rightarrow> (string \<times> logged) list option \<Rightarrow> LoggerService \<Rightarrow> log_entry list" where
  "Logger_http message meta l =
     [\<lparr>lg_level = ''http'', lg_message = Logger_resolveMessage message,
       lg_meta = put_all (ls_bound l) (put_all (put_all [(''context'', JStr (Logger_getContextString l))]
         (redact_meta (case meta of Some m \<Rightarrow> m | None \<Rightarrow> []))) (ls_context l))\<rparr>]"

definition Logger_logWithMeta ::
  "(string \<Rightarrow> bool) \<Rightarrow> string \<Rightarrow> log_message \<Rightarrow> (string \<times> logged) list \<Rightarrow> LoggerService \<Rightarrow> log_entry list" where
  "Logger_logWithMeta enabled level messageSupplier meta l =
     (if \<not> enabled level then []
      else [\<lparr>lg_level = level, lg_message = Logger_resolveMessage messageSupplier,
             lg_meta = put_all (ls_bound l) (put_all (put_all [(''context'', JStr (Logger_getContextString l))]
               (redact_meta meta)) (ls_context l))\<rparr>])"

section \<open>LoggingInterceptor\<close>

definition Interceptor_SENSITIVE_FIELDS :: "string list" where
  "Interceptor_SENSITIVE_FIELDS =
     [''password'', ''passwordHash'', ''password_hash'', ''token'', ''accessToken'', ''access_token'',
      ''refreshToken'', ''refresh_token'', ''secret'', ''apiKey'', ''api_key'', ''authorization'',
      ''creditCard'', ''credit_card'', ''cvv'', ''ssn'']"

text \<open>Of an array the entries are its elements under their indices, none of them a sensitive name.\<close>

fun Interceptor_redactObject :: "logged \<Rightarrow> json" where
  "Interceptor_redactObject (LArr xs) =
     JArr (map (\<lambda>v. if typeof_object v then Interceptor_redactObject v else scalar_json v) xs)"
| "Interceptor_redactObject (LObj hidden ps) =
     JObj (map (\<lambda>(key, v).
       (key, if str_lower key \<in> set Interceptor_SENSITIVE_FIELDS then REDACTED
             else if typeof_object v then Interceptor_redactObject v else scalar_json v)) ps)"
| "Interceptor_redactObject obj = scalar_json obj"

record HttpRequestInfo =
  hi_method :: string
  hi_path :: string
  hi_query :: logged
  hi_ip :: "string option"
  hi_userAgent :: "string option"
  hi_requestId :: "string option"
  hi_correlationId :: "string option"
  hi_userId :: "string option"

definition request_log :: "HttpRequestInfo \<Rightarrow> log_meta" where
  "request_log r = [(''method'', JStr (hi_method r)), (''path'', JStr (hi_path r)),
     (''query'', Interceptor_redactObject (hi_query r)), (''ip'', undef_or_str (hi_ip r)),
     (''userAgent'', undef_or_str (hi_userAgent r)), (''requestId'', undef_or_str (hi_requestId r)),
     (''correlationId'', undef_or_str (hi_correlationId r)), (''userId'', undef_or_str (hi_userId r))]"

text \<open>\<open>next\<close> gives a body with the response's status code, or an error with its \<open>status\<close> (if it has
  one) and message; the two entries are logged and the outcome passes through.\<close>

definition LoggingInterceptor_intercept ::
  "HttpRequestInfo \<Rightarrow> int \<Rightarrow> int \<Rightarrow> ((int option \<times> string) + (int \<times> 'b)) \<Rightarrow>
     ((int option \<times> string) + (int \<times> 'b)) \<times> (string \<times> log_meta) list" where
  "LoggingInterceptor_intercept r startTime now outcome =
     (let duration = JNum (now - startTime);
          first = (''log'', (''type'', JStr ''request'') # request_log r)
      in case outcome of
           Inr (statusCode, body) \<Rightarrow>
             (outcome, [first, (''log'', (''type'', JStr ''response'') # request_log r @
                [(''statusCode'', JNum statusCode), (''duration'', duration)])])
         | Inl (status, message) \<Rightarrow>
             (outcome, [first, (''warn'', (''type'', JStr ''response_error'') # request_log r @
                [(''statusCode'', JNum (case status of Some s \<Rightarrow> s | None \<Rightarrow> 500)), (''error'', JStr message),
                 (''duration'', duration)])]))"

section \<open>Audit\<close>

definition Audit_sensitiveFields :: "string list" where
  "Audit_sensitiveFields =
     [''password'', ''passwordHash'', ''token'', ''refreshToken'', ''accessToken'', ''secret'', ''apiKey'']"

fun sanitizePayload :: "json \<Rightarrow> json" where
  "sanitizePayload (JObj ps) = JObj (map (\<lambda>(k, v). (k, if k \<in> set Audit_sensitiveFields then REDACTED else v)) ps)"
| "sanitizePayload (JArr xs) = JObj (indexed 0 xs)"
| "sanitizePayload payload = payload"

fun pick_keys :: "string list \<Rightarrow> log_meta \<Rightarrow> log_meta" where
  "pick_keys [] ps = []"
| "pick_keys (k # ks) ps = (case map_of ps k of Some v \<Rightarrow> (k, v) # pick_keys ks ps | None \<Rightarrow> pick_keys ks ps)"

fun sanitizeValue :: "json \<Rightarrow> json" where
  "sanitizeValue (JObj ps) =
     (let pick = pick_keys [''id'', ''email'', ''status'', ''fullName'', ''userId'', ''roleId''] ps
      in if 0 < length pick then JObj pick else JStr ''[omitted]'')"
| "sanitizeValue (JArr xs) = JStr ''[omitted]''"
| "sanitizeValue v = v"

text \<open>What a use case returns: a plain value, or the application layer's \<open>Result\<close> (of which \<open>value\<close> and
  \<open>error\<close> are undefined).\<close>

datatype audited = Plain json | Outcome "(json, string) Result"

fun sanitizeResult :: "audited \<Rightarrow> json" where
  "sanitizeResult (Plain v) = sanitizeValue v"
| "sanitizeResult (Outcome r) =
     (case r of
        Ok v \<Rightarrow> JObj [(''isSuccess'', JBool True),
          (''value'', sanitizeValue (if v = JNull then JUndef else v)), (''error'', JUndef)]
      | Fail message \<Rightarrow> JObj [(''isSuccess'', JBool False), (''value'', JUndef), (''error'', JStr message)])"

record AuditMetadata =
  am_action :: string
  am_resource :: string
  am_includePayload :: bool
  am_includeResult :: bool

record AuditContext =
  ac_userId :: "string option"
  ac_ipAddress :: "string option"
  ac_userAgent :: "string option"
  ac_correlationId :: "string option"

record AuditEntry =
  ae_action :: string
  ae_resource :: string
  ae_context :: AuditContext
  ae_timestamp :: int
  ae_duration :: int
  ae_success :: bool
  ae_error :: "string option"
  ae_payload :: "json option"
  ae_result :: "json option"

definition no_context :: AuditContext where
  "no_context = \<lparr>ac_userId = None, ac_ipAddress = None, ac_userAgent = None, ac_correlationId = None\<rparr>"

text \<open>The decorated method over the state of the original and the audit log: \<open>clk 0\<close>, \<open>clk 1\<close>, \<open>clk 2\<close> are
  the start, the timestamp and the end; \<open>shown\<close> and \<open>seen\<close> are input and result as the log sees them.\<close>

definition Audit ::
  "AuditMetadata \<Rightarrow> (nat \<Rightarrow> int) \<Rightarrow> ('i \<Rightarrow> json) \<Rightarrow> ('r \<Rightarrow> audited) \<Rightarrow>
     ('i \<Rightarrow> AuditContext option \<Rightarrow> ('s, exn, 'r) proc) \<Rightarrow>
     'i \<Rightarrow> AuditContext option \<Rightarrow> ('s \<times> AuditEntry list, exn, 'r) proc" where
  "Audit metadata clk shown seen originalMethod input context = (\<lambda>(s, logs).
     let entry = \<lparr>ae_action = am_action metadata, ae_resource = am_resource metadata,
           ae_context = (case context of Some c \<Rightarrow> c | None \<Rightarrow> no_context), ae_timestamp = clk 1, ae_duration = 0,
           ae_success = False, ae_error = None,
           ae_payload = (if am_includePayload metadata then Some (sanitizePayload (shown input)) else None), ae_result = None\<rparr>
     in case originalMethod input context s of
          (Inr result, s') \<Rightarrow>
            (Inr result, s', logs @ [entry\<lparr>ae_duration := clk 2 - clk 0, ae_success := True,
               ae_result := (if am_includeResult metadata then Some (sanitizeResult (seen result)) else None)\<rparr>])
        | (Inl error, s') \<Rightarrow>
            (Inl error, s', logs @ [entry\<lparr>ae_duration := clk 2 - clk 0, ae_success := False,
               ae_error := Some (if is_Error error then exn_message error else ''Unknown error'')\<rparr>]))"

section \<open>What a redactor promises\<close>

text \<open>Two values that agree on everything but what stands under sensitive keys and what objects hold beside
  their own enumerable properties.\<close>

fun public_eq :: "(string \<Rightarrow> bool) \<Rightarrow> logged \<Rightarrow> logged \<Rightarrow> bool" where
  "public_eq sensitive (LArr xs) (LArr ys) = list_all2 (\<lambda>x y. public_eq sensitive x y) xs ys"
| "public_eq sensitive (LObj hidden ps) (LObj hidden' qs) =
     list_all2 (\<lambda>(k, v) (k', v'). k = k' \<and> (sensitive k \<or> public_eq sensitive v v')) ps qs"
| "public_eq sensitive a b = (a = b)"

locale redactor =
  fixes redact :: "logged \<Rightarrow> json" and sensitive :: "string \<Rightarrow> bool"
  assumes arrays: "redact (LArr xs) = JArr (map redact xs)"
    and objects: "redact (LObj hidden ps) = JObj (map (\<lambda>(k, v). (k, if sensitive k then REDACTED else redact v)) ps)"
    and others: "\<not> typeof_object v \<Longrightarrow> redact v = scalar_json v"
begin

lemma redact_scalar_iff: "\<not> typeof_object a \<Longrightarrow> redact a = redact b \<longleftrightarrow> a = b"
  by (cases a; cases b; simp add: arrays objects others)

lemma redact_eq_iff: "redact a = redact b \<longleftrightarrow> public_eq sensitive a b"
proof (induction a arbitrary: b)
  case (LArr xs)
  show ?case
  proof (cases b)
    case (LArr ys)
    have "redact (LArr xs) = redact (LArr ys) \<longleftrightarrow> list_all2 (\<lambda>x y. redact x = redact y) xs ys"
      by (auto simp: arrays list_all2_conv_all_nth list_eq_iff_nth_eq)
    also have "\<dots> \<longleftrightarrow> list_all2 (public_eq sensitive) xs ys"
      using LArr.IH by (intro list.rel_cong) auto
    finally show ?thesis using LArr by simp
  qed (simp_all add: arrays objects others)
next
  case (LObj hidden ps)
  show ?case
  proof (cases b)
    case (LObj hidden' qs)
    let ?f = "\<lambda>(k, v). (k, if sensitive k then REDACTED else redact v)"
    have "redact (LObj hidden ps) = redact (LObj hidden' qs) \<longleftrightarrow> list_all2 (\<lambda>p q. ?f p = ?f q) ps qs"
      by (auto simp: objects list_all2_conv_all_nth list_eq_iff_nth_eq)
    also have "\<dots> \<longleftrightarrow> list_all2 (\<lambda>(k, v) (k', v'). k = k' \<and> (sensitive k \<or> public_eq sensitive v v')) ps qs"
    proof (rule list.rel_cong [OF refl refl])
      fix p q :: "string \<times> logged"
      assume "p \<in> set ps"
      obtain k v k' v' where eq: "p = (k, v)" "q = (k', v')" by (cases p; cases q)
      with LObj.IH [of p v v'] \<open>p \<in> set ps\<close> have "redact v = redact v' \<longleftrightarrow> public_eq sensitive v v'" by simp
      then show "(?f p = ?f q) = (\<lambda>(k, v) (k', v'). k = k' \<and> (sensitive k \<or> public_eq sensitive v v')) p q"
        by (auto simp: eq)
    qed
    finally show ?thesis using LObj by simp
  qed (simp_all add: arrays objects others)
qed (simp_all add: redact_scalar_iff)

end

lemma redact_scalar:
  "\<not> typeof_object v \<Longrightarrow> Logger_redact v = scalar_json v" "\<not> typeof_object v \<Longrightarrow> Interceptor_redactObject v = scalar_json v"
  by (cases v; simp)+

interpretation logger_redactor: redactor Logger_redact "\<lambda>k. k \<in> set Logger_SENSITIVE_FIELDS"
  by unfold_locales (auto simp: redact_scalar)

interpretation interceptor_redactor: redactor Interceptor_redactObject "\<lambda>k. str_lower k \<in> set Interceptor_SENSITIVE_FIELDS"
  by unfold_locales (auto simp: redact_scalar)

section \<open>Properties\<close>

text \<open>
  C25. The two redaction functions are exact: they map two values to the same plain data exactly when the
  values differ at most in what stands under a sensitive key, at any depth, and in what their objects hold beside
  their own enumerable properties (the instant of a \<open>Date\<close>, the message of an \<open>Error\<close>, the class of an instance).
  So no secret under such a key can be told from what the functions return. For the logger's \<open>redact\<close>
  the sensitive keys are the listed ones, for the interceptor's \<open>redactObject\<close> those whose lower-case form is
  listed. Nothing is said of what the logger writes without redacting it, which is its bound context.
\<close>
theorem redaction_exact:
  "(Logger_redact a = Logger_redact b \<longleftrightarrow> public_eq (\<lambda>k. k \<in> set Logger_SENSITIVE_FIELDS) a b) \<and>
   (Interceptor_redactObject a = Interceptor_redactObject b \<longleftrightarrow>
     public_eq (\<lambda>k. str_lower k \<in> set Interceptor_SENSITIVE_FIELDS) a b) \<and>
   Logger_redact (LObj hidden []) = JObj [] \<and> Interceptor_redactObject (LObj hidden []) = JObj []"
  by (simp add: logger_redactor.redact_eq_iff interceptor_redactor.redact_eq_iff)

lemma camel_case_lowered:
  "list_all (\<lambda>k. str_lower k \<notin> set Interceptor_SENSITIVE_FIELDS \<and> k \<in> set Interceptor_SENSITIVE_FIELDS \<and>
     k \<in> set Logger_SENSITIVE_FIELDS) [''passwordHash'', ''accessToken'', ''refreshToken'', ''apiKey'', ''creditCard'']"
  by code_simp

text \<open>
  The interceptor logs secrets in the clear: it compares lower-cased keys with a list that holds
  camel-case names, so a query parameter under any of these five names is logged as it is, while the
  logger redacts it.
\<close>
theorem interceptor_misses_camel_case:
  "list_all (\<lambda>k. Interceptor_redactObject (LObj hidden [(k, LStr secret)]) = JObj [(k, JStr secret)] \<and>
       Logger_redact (LObj hidden [(k, LStr secret)]) = JObj [(k, REDACTED)] \<and> k \<in> set Interceptor_SENSITIVE_FIELDS)
     [''passwordHash'', ''accessToken'', ''refreshToken'', ''apiKey'', ''creditCard'']"
  using camel_case_lowered by simp

text \<open>
  Auditing does not change what a use case does: outcome and state are those of the undecorated
  method, and exactly one entry is added. Its success flag only says that nothing was thrown: a
  \<open>Result.fail\<close> is logged as a success.
\<close>
theorem Audit_transparent:
  "case originalMethod input context s of (r, s') \<Rightarrow>
     \<exists>e. Audit metadata clk shown seen originalMethod input context (s, logs) = (r, s', logs @ [e]) \<and>
       (ae_success e \<longleftrightarrow> is_ok r) \<and> ae_duration e = clk 2 - clk 0 \<and>
       ae_payload e = (if am_includePayload metadata then Some (sanitizePayload (shown input)) else None)"
  by (auto simp: Audit_def Let_def split: sum.split)

end
