(* ===== verification/CreateUser.thy ===== *)
theory CreateUser
  imports UseCases Dtos Redaction
begin

text \<open>
  Registration as it is called: the method \<open>execute\<close> of \<open>src/application/use-cases/create-user.use-case.ts\<close> with
  its two decorators, \<open>@Audit\<close> around \<open>@ValidateInput\<close> around the body of theory \<open>UseCases\<close>. What
  \<open>plainToInstance\<close> and \<open>validate\<close> make of an input is a function to the instance, without the properties the
  whitelist strips, and its errors; \<open>validates_as\<close> is their documentation.
\<close>

section \<open>The decorated use case\<close>

definition CreateUser_audit :: AuditMetadata where
  "CreateUser_audit = \<lparr>am_action = ''user.create'', am_resource = ''User'', am_includePayload = True, am_includeResult = False\<rparr>"

text \<open>What the audit log would see of a result; this use case does not include it.\<close>

definition user_outcome :: "(UserResponseDto, AppError) Result \<Rightarrow> audited" where
  "user_outcome r = Outcome (case r of
     Ok u \<Rightarrow> Ok (JObj [(''id'', JStr (ur_dto_id u)), (''email'', JStr (ur_dto_email u)),
       (''fullName'', JStr (ur_dto_fullName u)), (''status'', JStr (status_string (ur_dto_status u)))])
   | Fail e \<Rightarrow> Fail (ae_message e))"

definition dto_field :: "json \<Rightarrow> string" where
  "dto_field v = (case v of JStr t \<Rightarrow> t | _ \<Rightarrow> [])"

definition create_dto_of :: "row \<Rightarrow> CreateUserDto" where
  "create_dto_of ob = \<lparr>cd_email = dto_field (json_get ''email'' ob), cd_firstName = dto_field (json_get ''firstName'' ob),
     cd_lastName = dto_field (json_get ''lastName'' ob), cd_password = dto_field (json_get ''password'' ob)\<rparr>"

definition given_input :: "json \<Rightarrow> json option" where
  "given_input input = (if input = JUndef \<or> input = JNull then None else Some input)"

definition CreateUser_execute ::
  "(json \<Rightarrow> row \<times> UseCases.ValidationError list) \<Rightarrow> (nat \<Rightarrow> int) \<Rightarrow> (('s, exn, User) proc \<Rightarrow> ('s, exn, User) proc) \<Rightarrow>
   (Email \<Rightarrow> Password \<Rightarrow> string \<Rightarrow> string \<Rightarrow> ('s, exn, User) proc) \<Rightarrow> json \<Rightarrow> AuditContext option \<Rightarrow>
   ('s \<times> AuditEntry list, exn, (UserResponseDto, AppError) Result) proc" where
  "CreateUser_execute validator aclk uow register =
     Audit CreateUser_audit aclk (\<lambda>i. i) user_outcome
       (\<lambda>input context. ValidateInput validator (\<lambda>instance. CreateUser_body uow register (create_dto_of instance))
          (given_input input))"

section \<open>What class-validator promises\<close>

definition validates_as ::
  "(rule \<Rightarrow> json \<Rightarrow> bool) \<Rightarrow> dto_schema \<Rightarrow> (json \<Rightarrow> row \<times> UseCases.ValidationError list) \<Rightarrow> bool" where
  "validates_as check schema validator \<longleftrightarrow> rule_laws check \<and>
     (\<forall>i. snd (validator i) = [] \<longleftrightarrow> (\<forall>p\<in>set schema. property_ok check (fst (validator i)) p))"

text \<open>An instance the decorator lets through.\<close>

definition text_where :: "(string \<Rightarrow> bool) \<Rightarrow> json \<Rightarrow> bool" where
  "text_where P v = (case v of JStr t \<Rightarrow> P t | _ \<Rightarrow> False)"

definition valid_new_user :: "(rule \<Rightarrow> json \<Rightarrow> bool) \<Rightarrow> row \<Rightarrow> bool" where
  "valid_new_user check ob \<longleftrightarrow>
     text_where (\<lambda>e. check IsEmail (JStr e)) (json_get ''email'' ob) \<and>
     text_where (\<lambda>f. 1 \<le> length f \<and> length f \<le> 100) (json_get ''firstName'' ob) \<and>
     text_where (\<lambda>l. 1 \<le> length l \<and> length l \<le> 100) (json_get ''lastName'' ob) \<and>
     text_where (\<lambda>w. 8 \<le> length w \<and> length w \<le> 128 \<and> password_pattern w) (json_get ''password'' ob)"

lemma text_where_iff: "text_where P v \<longleftrightarrow> (\<exists>t. v = JStr t \<and> P t)"
  by (cases v) (simp_all add: text_where_def)

lemma validated_iff:
  "validates_as check CreateUserDto_schema validator \<Longrightarrow> snd (validator i) = [] \<longleftrightarrow> valid_new_user check (fst (validator i))"
  unfolding validates_as_def valid_new_user_def text_where_iff using application_properties by blast

lemma validated_parts:
  assumes "valid_new_user check ob"
  shows "length (str_trim (cd_firstName (create_dto_of ob))) \<le> 100" "length (str_trim (cd_lastName (create_dto_of ob))) \<le> 100"
    "strength_errors (cd_password (create_dto_of ob)) = [] \<longleftrightarrow> list_ex special_char (cd_password (create_dto_of ob))"
proof -
  from assms obtain f l w where t: "json_get ''firstName'' ob = JStr f" "length f \<le> 100"
    "json_get ''lastName'' ob = JStr l" "length l \<le> 100"
    "json_get ''password'' ob = JStr w" "8 \<le> length w" "length w \<le> 128" "password_pattern w"
    unfolding valid_new_user_def text_where_iff by blast
  show "length (str_trim (cd_firstName (create_dto_of ob))) \<le> 100" "length (str_trim (cd_lastName (create_dto_of ob))) \<le> 100"
    using t(1-4) length_str_trim [of f] length_str_trim [of l] by (simp_all add: create_dto_of_def dto_field_def)
  show "strength_errors (cd_password (create_dto_of ob)) = [] \<longleftrightarrow> list_ex special_char (cd_password (create_dto_of ob))"
    using t(5-8) by (auto simp: create_dto_of_def dto_field_def strength_errors_def password_pattern_def
        Password_MIN_LENGTH_def Password_MAX_LENGTH_def)
qed

lemma CreateUser_audited:
  assumes "ValidateInput validator (\<lambda>instance. CreateUser_body uow register (create_dto_of instance)) (given_input input) s = (r, s')"
  shows "\<exists>e. CreateUser_execute validator aclk uow register input context (s, logs) = (r, s', logs @ [e]) \<and>
    ae_payload e = Some (sanitizePayload input)"
  using assms by (auto simp: CreateUser_execute_def Audit_def CreateUser_audit_def Let_def split: sum.split)

section \<open>Properties\<close>

text \<open>
  C10. Creating a user, decorators included, over the repository and publisher implementations. Without an input,
  or with one that violates the DTO, the call returns a failure and the table stays as it is. Of a valid input, an email
  the domain refuses, a password without one of the listed special characters and a taken email are returned
  as failures that leave the table alone, too; a name of blanks only, which the DTO accepts, is not: the plain error of the
  entity escapes from the use case. Every other input stores a user with that email and returns its DTO. Whatever happens, exactly one
  entry is added to the audit log, with the sanitised input.
\<close>
theorem CreateUser_decides:
  assumes "prisma_users d tbl" and "queue_apart addBulk tbl" and "table_ok (tbl s)"
    and "tx_transparent transaction" and "\<And>pl. bh pl 12 = Inr (hv pl) \<and> hv pl \<noteq> []"
    and "UniqueId_fromString (uid_value newId) = Inr newId" "users_of (tbl s) (uid_value newId) = None"
    and impl: "impl = UserRepositoryImpl d te clock" and valid: "validates_as check CreateUserDto_schema validator"
    and dto: "dto = create_dto_of (fst (validator input))"
    and result: "result = CreateUser_execute validator aclk (\<lambda>m. UnitOfWork_execute transaction impl (\<lambda>repos. m))
      (Service_registerUser impl (PasswordHasherImpl bh bc) (Publisher_publish addBulk pclk) newId eid clk) input ctx (s, logs)"
  shows "\<exists>r s' e. result = (r, s', logs @ [e]) \<and> ae_payload e = Some (sanitizePayload input) \<and>
    (if input = JUndef \<or> input = JNull
     then r = Inr (Fail \<lparr>ae_code = ''VALIDATION_ERROR'', ae_message = ''Request body is required.'', ae_details = None\<rparr>) \<and> s' = s
     else if \<not> valid_new_user check (fst (validator input))
     then (\<exists>details. r = Inr (Fail \<lparr>ae_code = ''VALIDATION_ERROR'', ae_message = ''Input validation failed.'', ae_details = Some details\<rparr>)) \<and> s' = s
     else case Email_create (cd_email dto) of
       Inl x \<Rightarrow> r = Inr (Fail \<lparr>ae_code = ''VALIDATION_ERROR'', ae_message = exn_message x, ae_details = None\<rparr>) \<and> s' = s
     | Inr email \<Rightarrow>
         if \<not> list_ex special_char (cd_password dto)
         then (\<exists>m. r = Inr (Fail \<lparr>ae_code = ''VALIDATION_ERROR'', ae_message = m, ae_details = None\<rparr>)) \<and> s' = s
         else if \<exists>k v. users_of (tbl s) k = Some v \<and> u_email v = email
         then r = Inr (fail_of_exn (EmailAlreadyExistsException (email_value email))) \<and> s' = s
         else if str_trim (cd_firstName dto) = [] \<or> str_trim (cd_lastName dto) = []
         then (\<exists>m. r = Inl (JsError m)) \<and> s' = s
         else \<exists>u. r = Inr (Ok (UserMapper_toDTO u)) \<and>
           users_of (tbl s') = (users_of (tbl s))(uid_value newId \<mapsto> u) \<and> u_email u = email)"
proof -
  let ?uow = "\<lambda>m. UnitOfWork_execute transaction impl (\<lambda>repos. m)"
  let ?register = "Service_registerUser impl (PasswordHasherImpl bh bc) (Publisher_publish addBulk pclk) newId eid clk"
  obtain r s' where run: "ValidateInput validator (\<lambda>instance. CreateUser_body ?uow ?register (create_dto_of instance)) (given_input input) s = (r, s')"
    by (cases "ValidateInput validator (\<lambda>instance. CreateUser_body ?uow ?register (create_dto_of instance)) (given_input input) s")
  from CreateUser_audited [OF run, of aclk ctx logs] obtain e where
    e: "result = (r, s', logs @ [e])" "ae_payload e = Some (sanitizePayload input)"
    unfolding result by blast
  obtain ob errors where v: "validator input = (ob, errors)" by (cases "validator input")
  note decided = validated_iff [OF valid, of input, unfolded v fst_conv snd_conv]
  show ?thesis
  proof (intro exI conjI, rule e(1), rule e(2), goal_cases)
    case 1
    consider (absent) "input = JUndef \<or> input = JNull"
    | (invalid) "\<not> (input = JUndef \<or> input = JNull)" "\<not> valid_new_user check ob"
    | (ok) "\<not> (input = JUndef \<or> input = JNull)" "valid_new_user check ob" by blast
  then show ?case
  proof cases
    case absent
    then show ?thesis using run by (simp add: ValidateInput_def given_input_def AResult_fail_def)
  next
    case invalid
    then have "errors \<noteq> []" using decided by simp
    then have "\<exists>details. r = Inr (Fail \<lparr>ae_code = ''VALIDATION_ERROR'', ae_message = ''Input validation failed.'', ae_details = Some details\<rparr>)" "s' = s"
      using run invalid(1) by (auto simp: ValidateInput_def given_input_def AResult_fail_def v)
    then show ?thesis using invalid by (simp only: v fst_conv if_True if_False simp_thms)
  next
    case ok
    then have "errors = []" using decided by simp
    then have body: "(r, s') = CreateUser_body ?uow ?register dto s"
      using run ok(1) by (simp add: ValidateInput_def given_input_def v dto)
    note parts = validated_parts [OF ok(2)]
    note c = CreateUser_body_decides [OF assms(1-8) body]
    have ob: "dto = create_dto_of ob" by (simp add: dto v)
    have strong: "(strength_errors (cd_password dto) \<noteq> []) = (\<not> list_ex special_char (cd_password dto))"
      using parts(3) by (simp add: ob)
    have names: "(str_trim (cd_firstName dto) \<noteq> [] \<and> length (str_trim (cd_firstName dto)) \<le> 100 \<and>
        str_trim (cd_lastName dto) \<noteq> [] \<and> length (str_trim (cd_lastName dto)) \<le> 100) =
        (\<not> (str_trim (cd_firstName dto) = [] \<or> str_trim (cd_lastName dto) = []))"
      using parts(1,2) by (simp add: ob)
    have same: "(\<exists>u t. (A u \<and> s' = t) \<and> B t u \<and> C u) = (\<exists>u. A u \<and> B s' u \<and> C u)" for A B C by blast
    note table = c [unfolded strong names not_not prod.inject ex_simps same]
    show ?thesis using table ok by (simp only: v fst_conv if_True if_False simp_thms)
  qed
  qed
qed

definition sample_create_validator :: "json \<Rightarrow> row \<times> UseCases.ValidationError list" where
  "sample_create_validator i =
     (let ob = (case i of JObj ps \<Rightarrow> ps | _ \<Rightarrow> [])
      in (ob, if list_all (property_ok sample_check ob) CreateUserDto_schema then [] else [UseCases.ValidationError ''dto'' None []]))"

lemma sample_create_validator_ok: "validates_as sample_check CreateUserDto_schema sample_create_validator"
  using rules_of [OF sample_validator_laws]
  by (simp add: validates_as_def sample_create_validator_def Let_def list_all_iff sample_validator_def)

definition blank_name_body :: json where
  "blank_name_body = JObj [(''email'', JStr ''a@b.c''), (''firstName'', JStr ''   ''), (''lastName'', JStr ''Lee''), (''password'', JStr ''Passw0rd!'')]"

theorem CreateUser_decides_witness:
  "\<exists>m e. CreateUser_execute sample_create_validator int
      (\<lambda>m. UnitOfWork_execute (\<lambda>body. body ()) (UserRepositoryImpl world_delegate (\<lambda>e i. e) (fst \<circ> fst)) (\<lambda>repos. m))
      (Service_registerUser (UserRepositoryImpl world_delegate (\<lambda>e i. e) (fst \<circ> fst))
        (PasswordHasherImpl sample_bcrypt sample_compare) (Publisher_publish world_addBulk (\<lambda>k. 7))
        (UniqueId sample_uuid) ''e'' (\<lambda>k. 5)) blank_name_body None (((5, []), []), []) =
      (Inl (JsError m), ((5, []), []), [e]) \<and>
    ae_payload e = Some (JObj [(''email'', JStr ''a@b.c''), (''firstName'', JStr ''   ''), (''lastName'', JStr ''Lee''), (''password'', REDACTED)])"
proof -
  have apart: "queue_apart world_addBulk world_rows"
    by (auto simp: queue_apart_def world_addBulk_def world_rows_def split: prod.splits)
  have ok: "table_ok (world_rows ((5, []), []))" by (simp add: world_rows_def table_ok_def)
  have tx: "tx_transparent (\<lambda>body. body ())" by (simp add: tx_transparent_def)
  have bh: "\<And>pl. sample_bcrypt pl 12 = Inr (''$'' @ show_nat 12 @ ''$'' @ pl) \<and> ''$'' @ show_nat 12 @ ''$'' @ pl \<noteq> []"
    by (simp add: sample_bcrypt_def)
  have ids: "UniqueId_fromString (uid_value (UniqueId sample_uuid)) = Inr (UniqueId sample_uuid)"
    "users_of (world_rows ((5, []), [])) (uid_value (UniqueId sample_uuid)) = None"
    by (simp_all add: sample_ids world_rows_def users_of_Nil)
  have v: "valid_new_user sample_check (fst (sample_create_validator blank_name_body))"
    "\<not> (blank_name_body = JUndef \<or> blank_name_body = JNull)"
    by (code_simp, simp add: blank_name_body_def)
  have parts: "list_ex special_char (cd_password (create_dto_of (fst (sample_create_validator blank_name_body))))"
    "str_trim (cd_firstName (create_dto_of (fst (sample_create_validator blank_name_body)))) = []"
    "cd_email (create_dto_of (fst (sample_create_validator blank_name_body))) = ''a@b.c''"
    "sanitizePayload blank_name_body = JObj [(''email'', JStr ''a@b.c''), (''firstName'', JStr ''   ''), (''lastName'', JStr ''Lee''), (''password'', REDACTED)]"
    by code_simp+
  from CreateUser_decides [where tbl = world_rows and s = "((5, []), [])" and bh = sample_bcrypt
        and hv = "\<lambda>pl. ''$'' @ show_nat 12 @ ''$'' @ pl" and newId = "UniqueId sample_uuid"
        and transaction = "\<lambda>body. body ()" and validator = sample_create_validator and check = sample_check
        and input = blank_name_body and te = "\<lambda>e i. e" and clock = "fst \<circ> fst" and bc = sample_compare
        and pclk = "\<lambda>k. 7" and eid = "''e''" and clk = "\<lambda>k. 5" and aclk = int and logs = "[]" and ctx = None,
      OF worlddb.prisma_users_axioms apart ok tx bh ids refl sample_create_validator_ok refl refl]
  show ?thesis using v parts by (simp add: sample_ids world_rows_def users_of_Nil) blast
qed

end
