(* ===== verification/SessionAuth.thy ===== *)
theory SessionAuth
  imports UseCases
begin

text \<open>
  Tokens and sessions: \<open>src/security/authentication/auth.service.ts\<close> (\<open>AuthService\<close>) and
  \<open>jwt.strategy.ts\<close> (\<open>JwtStrategy.validate\<close>). The Prisma tables are third-party: the record
  \<open>session_db\<close> of the calls made on them, with a \<open>where\<close> clause as the predicate it denotes on rows;
  bcrypt and the JWT library are functions that may throw. What Prisma documents of the calls is the
  locale \<open>prisma_sessions\<close>. A row is a \<open>SessionSnapshot\<close>: its token column holds bcrypt's hash. Days are
  days of 24 hours (\<open>setDate\<close> in a zone without clock changes).
\<close>

record AuthUserRow =
  au_id :: string
  au_email :: string
  au_status :: UserStatus
  au_roles :: "(string \<times> json) list"

record 's session_db =
  sd_create :: "NewSession \<Rightarrow> ('s, exn, SessionSnapshot) proc"
  sd_findMany :: "(SessionSnapshot \<Rightarrow> bool) \<Rightarrow> ('s, exn, SessionSnapshot list) proc"
  sd_findFirst :: "(SessionSnapshot \<Rightarrow> bool) \<Rightarrow> ('s, exn, SessionSnapshot option) proc"
  sd_update :: "string \<Rightarrow> int \<Rightarrow> ('s, exn, SessionSnapshot) proc"
  sd_updateMany :: "(SessionSnapshot \<Rightarrow> bool) \<Rightarrow> int \<Rightarrow> ('s, exn, nat) proc"
  sd_deleteMany :: "(SessionSnapshot \<Rightarrow> bool) \<Rightarrow> ('s, exn, nat) proc"
  sd_findUser :: "string \<Rightarrow> ('s, exn, AuthUserRow option) proc"

record TokenPair =
  tp_accessToken :: string
  tp_refreshToken :: string
  tp_expiresIn :: int

record TokenPayload =
  tk_sub :: string
  tk_email :: string
  tk_roles :: "string list"
  tk_jti :: string

text \<open>The configuration and the libraries the service holds.\<close>

record auth_env =
  en_accessTokenTtl :: int
  en_refreshTokenTtlDays :: int
  en_bcryptRounds :: nat
  en_sign :: "TokenPayload \<Rightarrow> exn + string"
  en_hash :: "string \<Rightarrow> nat \<Rightarrow> exn + string"
  en_compare :: "string \<Rightarrow> string \<Rightarrow> exn + bool"

definition unauthorized :: "string \<Rightarrow> string \<Rightarrow> string \<Rightarrow> ErrorCode \<Rightarrow> exn" where
  "unauthorized slug title detail code =
     HttpExc 401 \<lparr>pb_type = ''https://enterprise.system/errors/'' @ slug, pb_title = title,
       pb_status = 401, pb_detail = detail, pb_code = code, pb_extra = []\<rparr>"

section \<open>AuthService\<close>

text \<open>\<open>jti\<close> and \<open>refreshTokenValue\<close> are the two random UUIDs of the call, \<open>now\<close> its \<open>new Date()\<close>.\<close>

definition Auth_generateTokenPair ::
  "auth_env \<Rightarrow> 's session_db \<Rightarrow> string \<Rightarrow> string \<Rightarrow> int \<Rightarrow> string \<Rightarrow> string \<Rightarrow> string list \<Rightarrow>
   string option \<Rightarrow> string option \<Rightarrow> ('s, exn, TokenPair) proc" where
  "Auth_generateTokenPair en d jti refreshTokenValue now userId email roles userAgent ipAddress =
     bindP (liftP (en_sign en \<lparr>tk_sub = userId, tk_email = email, tk_roles = roles, tk_jti = jti\<rparr>)) (\<lambda>accessToken.
     bindP (liftP (en_hash en refreshTokenValue (en_bcryptRounds en))) (\<lambda>refreshTokenHash.
     bindP (sd_create d
         \<lparr>ns_userId = userId, ns_refreshToken = refreshTokenHash,
          ns_userAgent = map_option (take 512) userAgent, ns_ipAddress = ipAddress,
          ns_expiresAt = now + en_refreshTokenTtlDays en * 86400000\<rparr>) (\<lambda>_.
       returnP \<lparr>tp_accessToken = accessToken, tp_refreshToken = userId @ ''.'' @ refreshTokenValue,
                tp_expiresIn = en_accessTokenTtl en\<rparr>)))"

text \<open>The loop over the sessions: stop at the first whose hash matches.\<close>

fun match_session :: "(string \<Rightarrow> string \<Rightarrow> exn + bool) \<Rightarrow> string \<Rightarrow> SessionSnapshot list \<Rightarrow> exn + SessionSnapshot option" where
  "match_session compare tokenValue [] = Inr None"
| "match_session compare tokenValue (session # sessions) =
     bindE (compare tokenValue (ss_refreshToken session)) (\<lambda>isMatch.
       if isMatch then Inr (Some session) else match_session compare tokenValue sessions)"

text \<open>\<open>const [userId, tokenValue] = refreshToken.split('.')\<close>; \<open>None\<close> when one is missing or empty.\<close>

definition parse_refresh_token :: "string \<Rightarrow> (string \<times> string) option" where
  "parse_refresh_token refreshToken =
     (case str_split (CHR ''.'') refreshToken of
        userId # tokenValue # _ \<Rightarrow> if userId = [] \<or> tokenValue = [] then None else Some (userId, tokenValue)
      | _ \<Rightarrow> None)"

definition Auth_refreshTokens ::
  "auth_env \<Rightarrow> 's session_db \<Rightarrow> string \<Rightarrow> string \<Rightarrow> (nat \<Rightarrow> int) \<Rightarrow> string \<Rightarrow> string option \<Rightarrow> string option \<Rightarrow>
   ('s, exn, TokenPair) proc" where
  "Auth_refreshTokens en d jti newTokenValue clk refreshToken userAgent ipAddress =
     (case parse_refresh_token refreshToken of
        None \<Rightarrow> throwP (unauthorized ''token-invalid'' ''Invalid Refresh Token''
                  ''The refresh token format is invalid.'' TOKEN_INVALID)
      | Some (userId, tokenValue) \<Rightarrow>
          bindP (sd_findMany d (\<lambda>r. ss_userId r = userId \<and> ss_revokedAt r = None \<and> clk 0 < ss_expiresAt r)) (\<lambda>sessions.
          bindP (liftP (match_session (en_compare en) tokenValue sessions)) (\<lambda>matched. case matched of
            None \<Rightarrow>
              bindP (sd_updateMany d (\<lambda>r. ss_userId r = userId \<and> ss_revokedAt r = None) (clk 1)) (\<lambda>_.
                throwP (unauthorized ''token-revoked'' ''Refresh Token Revoked''
                  ''This refresh token has been revoked due to suspicious activity. Please log in again.''
                  REFRESH_TOKEN_REVOKED))
          | Some matchedSession \<Rightarrow>
              bindP (sd_update d (ss_id matchedSession) (clk 1)) (\<lambda>_.
              bindP (sd_findUser d userId) (\<lambda>found.
                let inactive = throwP (unauthorized ''account-inactive'' ''Account Inactive''
                                 ''Your account is no longer active.'' USER_INACTIVE)
                in case found of
                     None \<Rightarrow> inactive
                   | Some user \<Rightarrow>
                       if au_status user \<noteq> ACTIVE then inactive
                       else Auth_generateTokenPair en d jti newTokenValue (clk 2) userId (au_email user)
                              (map fst (au_roles user)) userAgent ipAddress)))))"

definition Auth_revokeAllWhere :: "'s session_db \<Rightarrow> int \<Rightarrow> string \<Rightarrow> ('s, exn, nat) proc" where
  "Auth_revokeAllWhere d now userId =
     sd_updateMany d (\<lambda>r. ss_userId r = userId \<and> ss_revokedAt r = None) now"

definition Auth_revokeToken ::
  "auth_env \<Rightarrow> 's session_db \<Rightarrow> int \<Rightarrow> string \<Rightarrow> string option \<Rightarrow> ('s, exn, unit) proc" where
  "Auth_revokeToken en d now userId refreshToken =
     (let revokeAll = bindP (Auth_revokeAllWhere d now userId) (\<lambda>_. returnP ());
          tokenValue = (case refreshToken of None \<Rightarrow> None
            | Some t \<Rightarrow> (case str_split (CHR ''.'') t of _ # v # _ \<Rightarrow> if v = [] then None else Some v | _ \<Rightarrow> None))
      in case tokenValue of
           None \<Rightarrow> revokeAll
         | Some v \<Rightarrow>
             bindP (sd_findMany d (\<lambda>r. ss_userId r = userId \<and> ss_revokedAt r = None)) (\<lambda>sessions.
             bindP (liftP (match_session (en_compare en) v sessions)) (\<lambda>matched. case matched of
               Some session \<Rightarrow> bindP (sd_update d (ss_id session) now) (\<lambda>_. returnP ())
             | None \<Rightarrow> revokeAll)))"

definition Auth_revokeAllTokens :: "'s session_db \<Rightarrow> int \<Rightarrow> string \<Rightarrow> ('s, exn, nat) proc" where
  "Auth_revokeAllTokens d now userId = Auth_revokeAllWhere d now userId"

definition Auth_cleanupExpiredSessions :: "'s session_db \<Rightarrow> int \<Rightarrow> ('s, exn, nat) proc" where
  "Auth_cleanupExpiredSessions d now =
     sd_deleteMany d (\<lambda>r. ss_expiresAt r < now \<and> ss_revokedAt r \<noteq> None)"

section \<open>JwtStrategy\<close>

record AuthenticatedUser =
  us_id :: string
  us_email :: string
  us_roles :: "string list"
  us_permissions :: "string list"

text \<open>\<open>Array.isArray(perms) ? perms : []\<close>; the elements are taken as strings.\<close>

definition role_permissions :: "json \<Rightarrow> string list" where
  "role_permissions perms =
     (case perms of JArr ps \<Rightarrow> map (\<lambda>p. case p of JStr s \<Rightarrow> s | _ \<Rightarrow> ''undefined'') ps | _ \<Rightarrow> [])"

text \<open>\<open>[...new Set(xs)]\<close>: the first occurrence of each value, in order.\<close>

fun unique_from :: "string list \<Rightarrow> string list \<Rightarrow> string list" where
  "unique_from seen [] = []"
| "unique_from seen (x # xs) =
     (if x \<in> set seen then unique_from seen xs else x # unique_from (x # seen) xs)"

definition Jwt_validate :: "'s session_db \<Rightarrow> TokenPayload \<Rightarrow> ('s, exn, AuthenticatedUser) proc" where
  "Jwt_validate d payload =
     bindP (sd_findFirst d (\<lambda>r. ss_userId r = tk_sub payload \<and> ss_revokedAt r = None)) (\<lambda>session.
       case session of
         None \<Rightarrow> throwP (unauthorized ''token-revoked'' ''Token Revoked''
                   ''Your session has been revoked. Please log in again.'' TOKEN_INVALID)
       | Some _ \<Rightarrow>
           bindP (sd_findUser d (tk_sub payload)) (\<lambda>found. case found of
             None \<Rightarrow> throwP (unauthorized ''user-not-found'' ''User Not Found''
                       ''The user associated with this token no longer exists.'' USER_NOT_FOUND)
           | Some user \<Rightarrow>
               if au_status user \<noteq> ACTIVE
               then throwP (unauthorized ''account-inactive'' ''Account Inactive''
                      (''Account is '' @ str_lower (status_string (au_status user)) @
                       ''. Contact support for assistance.'') USER_INACTIVE)
               else returnP \<lparr>us_id = au_id user, us_email = au_email user, us_roles = map fst (au_roles user),
                      us_permissions = unique_from [] (concat (map (role_permissions \<circ> snd) (au_roles user)))\<rparr>))"

section \<open>What Prisma promises\<close>

definition revoke_rows :: "(SessionSnapshot \<Rightarrow> bool) \<Rightarrow> int \<Rightarrow> SessionSnapshot list \<Rightarrow> SessionSnapshot list" where
  "revoke_rows P now = map (\<lambda>x. if P x then x\<lparr>ss_revokedAt := Some now\<rparr> else x)"

locale prisma_sessions =
  fixes d :: "'s session_db" and sess :: "'s \<Rightarrow> SessionSnapshot list" and accounts :: "'s \<Rightarrow> string \<rightharpoonup> AuthUserRow"
  assumes create_law: "\<exists>s' y. sd_create d x s = (Inr y, s') \<and> sess s' = sess s @ [y] \<and>
      accounts s' = accounts s \<and> ss_id y \<notin> ss_id ` set (sess s) \<and> ss_userId y = ns_userId x \<and>
      ss_refreshToken y = ns_refreshToken x \<and> ss_expiresAt y = ns_expiresAt x \<and> ss_revokedAt y = None"
    and findMany_law: "sd_findMany d P s = (Inr (filter P (sess s)), s)"
    and findFirst_law: "sd_findFirst d P s = (Inr (find P (sess s)), s)"
    and update_law: "k \<in> ss_id ` set (sess s) \<Longrightarrow> \<exists>s' y. sd_update d k t s = (Inr y, s') \<and>
      sess s' = revoke_rows (\<lambda>x. ss_id x = k) t (sess s) \<and> accounts s' = accounts s"
    and updateMany_law: "\<exists>s'. sd_updateMany d P t s = (Inr (length (filter P (sess s))), s') \<and>
      sess s' = revoke_rows P t (sess s) \<and> accounts s' = accounts s"
    and deleteMany_law: "\<exists>s'. sd_deleteMany d P s = (Inr (length (filter P (sess s))), s') \<and>
      sess s' = filter (\<lambda>x. \<not> P x) (sess s) \<and> accounts s' = accounts s"
    and user_law: "sd_findUser d i s = (Inr (accounts s i), s)"

section \<open>Hypotheses and lemmas\<close>

text \<open>
  bcrypt reads the first 72 bytes of a text and ends it at a zero byte. Hashing and comparing do not fail,
  and among the plain ASCII texts of at most 72 characters, such as the UUIDs the service generates, a hash
  matches the text it was made from and no other. Of longer texts nothing is said.
\<close>

definition bcrypt_text :: "string \<Rightarrow> bool" where
  "bcrypt_text t \<longleftrightarrow> length t \<le> 72 \<and> (\<forall>c\<in>set t. of_char c \<in> {1..<128 :: nat})"

definition bcrypt_ok :: "auth_env \<Rightarrow> bool" where
  "bcrypt_ok en \<longleftrightarrow> (\<forall>t n. \<exists>h. en_hash en t n = Inr h) \<and> (\<forall>t h. \<exists>b. en_compare en t h = Inr b) \<and>
     (\<forall>t t' n h. bcrypt_text t \<and> bcrypt_text t' \<and> en_hash en t n = Inr h \<longrightarrow> en_compare en t' h = Inr (t' = t))"

definition token_matches :: "auth_env \<Rightarrow> string \<Rightarrow> SessionSnapshot \<Rightarrow> bool" where
  "token_matches en v x \<longleftrightarrow> en_compare en v (ss_refreshToken x) = Inr True"

lemma hashed_matches:
  "bcrypt_ok en \<Longrightarrow> bcrypt_text t \<Longrightarrow> bcrypt_text t' \<Longrightarrow> en_hash en t n = Inr (ss_refreshToken y) \<Longrightarrow>
     token_matches en t' y \<longleftrightarrow> t' = t"
  unfolding bcrypt_ok_def token_matches_def by auto

definition live_for :: "string \<Rightarrow> int \<Rightarrow> SessionSnapshot \<Rightarrow> bool" where
  "live_for userId now x \<longleftrightarrow> ss_userId x = userId \<and> ss_revokedAt x = None \<and> now < ss_expiresAt x"

lemma match_session_find:
  "bcrypt_ok en \<Longrightarrow> match_session (en_compare en) v xs = Inr (find (token_matches en v) xs)"
proof (induction xs)
  case (Cons x xs)
  obtain b where "en_compare en v (ss_refreshToken x) = Inr b"
    using Cons.prems unfolding bcrypt_ok_def by blast
  with Cons show ?case by (simp add: token_matches_def)
qed simp

lemma parse_composite:
  "CHR ''.'' \<notin> set u \<Longrightarrow> CHR ''.'' \<notin> set v \<Longrightarrow> u \<noteq> [] \<Longrightarrow> v \<noteq> [] \<Longrightarrow>
     parse_refresh_token (u @ ''.'' @ v) = Some (u, v)"
  by (simp add: parse_refresh_token_def str_split_append str_split_no_sep)

lemma find_filter_None: "find P (filter Q xs) = None \<longleftrightarrow> (\<forall>x\<in>set xs. Q x \<longrightarrow> \<not> P x)"
  by (induction xs) auto

lemma revoked_for:
  assumes "z \<in> set (revoke_rows (\<lambda>r. ss_userId r = u \<and> ss_revokedAt r = None) t xs)" and "ss_userId z = u"
  shows "ss_revokedAt z \<noteq> None"
proof -
  obtain x where "z = (if ss_userId x = u \<and> ss_revokedAt x = None then x\<lparr>ss_revokedAt := Some t\<rparr> else x)"
    by (rule imageE [OF assms(1) [unfolded revoke_rows_def set_map]])
  with assms(2) show ?thesis by (simp split: if_splits)
qed

context prisma_sessions
begin

text \<open>A token that matches no live session of its user revokes all of them.\<close>

lemma refresh_unmatched:
  assumes "bcrypt_ok en" and "parse_refresh_token token = Some (u, v)"
    and "\<forall>x\<in>set (sess s). live_for u (clk 0) x \<longrightarrow> \<not> token_matches en v x"
  shows "\<exists>s'. Auth_refreshTokens en d jti nv clk token ua ip s =
      (Inl (unauthorized ''token-revoked'' ''Refresh Token Revoked''
        ''This refresh token has been revoked due to suspicious activity. Please log in again.''
        REFRESH_TOKEN_REVOKED), s') \<and>
    (\<forall>z\<in>set (sess s'). ss_userId z = u \<longrightarrow> ss_revokedAt z \<noteq> None)"
proof -
  have "find (token_matches en v) (filter (\<lambda>r. ss_userId r = u \<and> ss_revokedAt r = None \<and> clk 0 < ss_expiresAt r) (sess s)) = None"
    using assms(3) by (auto simp: find_filter_None live_for_def)
  moreover obtain s' where "sd_updateMany d (\<lambda>r. ss_userId r = u \<and> ss_revokedAt r = None) (clk 1) s =
      (Inr (length (filter (\<lambda>r. ss_userId r = u \<and> ss_revokedAt r = None) (sess s))), s')"
    "sess s' = revoke_rows (\<lambda>r. ss_userId r = u \<and> ss_revokedAt r = None) (clk 1) (sess s)"
    using updateMany_law by blast
  ultimately have "Auth_refreshTokens en d jti nv clk token ua ip s =
      (Inl (unauthorized ''token-revoked'' ''Refresh Token Revoked''
        ''This refresh token has been revoked due to suspicious activity. Please log in again.''
        REFRESH_TOKEN_REVOKED), s')" and "sess s' = revoke_rows (\<lambda>r. ss_userId r = u \<and> ss_revokedAt r = None) (clk 1) (sess s)"
    using assms(2) by (simp_all add: Auth_refreshTokens_def bindP_def findMany_law match_session_find [OF assms(1)])
  then show ?thesis using revoked_for [of _ u "clk 1" "sess s"] by simp
qed

lemma generate_ok:
  assumes "bcrypt_ok en" and "en_sign en \<lparr>tk_sub = u, tk_email = em, tk_roles = roles, tk_jti = jti\<rparr> = Inr acc"
  shows "\<exists>h y s'. en_hash en v (en_bcryptRounds en) = Inr h \<and>
    Auth_generateTokenPair en d jti v now u em roles ua ip s =
      (Inr \<lparr>tp_accessToken = acc, tp_refreshToken = u @ ''.'' @ v, tp_expiresIn = en_accessTokenTtl en\<rparr>, s') \<and>
    sess s' = sess s @ [y] \<and> ss_userId y = u \<and> ss_refreshToken y = h \<and> ss_revokedAt y = None \<and>
    ss_expiresAt y = now + en_refreshTokenTtlDays en * 86400000"
proof -
  obtain h where h: "en_hash en v (en_bcryptRounds en) = Inr h"
    using assms(1) unfolding bcrypt_ok_def by blast
  from create_law [of "\<lparr>ns_userId = u, ns_refreshToken = h, ns_userAgent = map_option (take 512) ua,
      ns_ipAddress = ip, ns_expiresAt = now + en_refreshTokenTtlDays en * 86400000\<rparr>" s]
  obtain s' y where "sd_create d \<lparr>ns_userId = u, ns_refreshToken = h, ns_userAgent = map_option (take 512) ua,
      ns_ipAddress = ip, ns_expiresAt = now + en_refreshTokenTtlDays en * 86400000\<rparr> s = (Inr y, s')"
    "sess s' = sess s @ [y]" "ss_userId y = u" "ss_refreshToken y = h" "ss_revokedAt y = None"
    "ss_expiresAt y = now + en_refreshTokenTtlDays en * 86400000" by auto
  then show ?thesis
    using h assms(2) by (auto simp: Auth_generateTokenPair_def bindP_def)
qed

lemma refresh_matched:
  assumes bc: "bcrypt_ok en" and sign: "\<And>p. \<exists>t. en_sign en p = Inr t"
    and tok: "parse_refresh_token token = Some (u, v)" and ids: "distinct (map ss_id (sess s))"
    and x: "x \<in> set (sess s)" "live_for u (clk 0) x" "token_matches en v x"
    and only: "\<forall>z\<in>set (sess s). ss_userId z = u \<and> token_matches en v z \<longrightarrow> z = x"
    and user: "accounts s u = Some a" "au_status a = ACTIVE"
  shows "\<exists>tp s' y h. Auth_refreshTokens en d jti nv clk token ua ip s = (Inr tp, s') \<and>
    tp_refreshToken tp = u @ ''.'' @ nv \<and>
    sess s' = revoke_rows (\<lambda>z. ss_id z = ss_id x) (clk 1) (sess s) @ [y] \<and>
    ss_userId y = u \<and> ss_revokedAt y = None \<and> en_hash en nv (en_bcryptRounds en) = Inr h \<and> ss_refreshToken y = h \<and>
    ss_expiresAt y = clk 2 + en_refreshTokenTtlDays en * 86400000"
proof -
  let ?live = "\<lambda>r. ss_userId r = u \<and> ss_revokedAt r = None \<and> clk 0 < ss_expiresAt r"
  have "find (token_matches en v) (filter ?live (sess s)) \<noteq> None"
    using x by (auto simp: find_filter_None live_for_def)
  then obtain z where z: "find (token_matches en v) (filter ?live (sess s)) = Some z" by auto
  with only have "z = x" by (auto dest: find_Some_in)
  with z have found: "find (token_matches en v) (filter ?live (sess s)) = Some x" by simp
  obtain s1 y1 where s1: "sd_update d (ss_id x) (clk 1) s = (Inr y1, s1)"
    "sess s1 = revoke_rows (\<lambda>z. ss_id z = ss_id x) (clk 1) (sess s)" "accounts s1 = accounts s"
    using update_law [of "ss_id x" s "clk 1"] x(1) by blast
  obtain acc where acc: "en_sign en \<lparr>tk_sub = u, tk_email = au_email a, tk_roles = map fst (au_roles a), tk_jti = jti\<rparr> = Inr acc"
    using sign by blast
  from generate_ok [OF bc acc, of nv "clk 2" ua ip s1] show ?thesis
    using tok found s1 user
    by (auto simp: Auth_refreshTokens_def bindP_def findMany_law match_session_find [OF bc] user_law Let_def)
qed

lemma validate_cases:
  "Jwt_validate d p s =
     (case find (\<lambda>r. ss_userId r = tk_sub p \<and> ss_revokedAt r = None) (sess s) of
        None \<Rightarrow> Inl (unauthorized ''token-revoked'' ''Token Revoked''
                   ''Your session has been revoked. Please log in again.'' TOKEN_INVALID)
      | Some _ \<Rightarrow> (case accounts s (tk_sub p) of
            None \<Rightarrow> Inl (unauthorized ''user-not-found'' ''User Not Found''
                       ''The user associated with this token no longer exists.'' USER_NOT_FOUND)
          | Some user \<Rightarrow>
              if au_status user \<noteq> ACTIVE
              then Inl (unauthorized ''account-inactive'' ''Account Inactive''
                      (''Account is '' @ str_lower (status_string (au_status user)) @
                       ''. Contact support for assistance.'') USER_INACTIVE)
              else Inr \<lparr>us_id = au_id user, us_email = au_email user, us_roles = map fst (au_roles user),
                      us_permissions = unique_from [] (concat (map (role_permissions \<circ> snd) (au_roles user)))\<rparr>), s)"
  by (auto simp: Jwt_validate_def bindP_def findFirst_law user_law split: option.split)

end

lemma unique_from_props:
  "distinct (unique_from seen xs) \<and> set (unique_from seen xs) = set xs - set seen"
  by (induction seen xs rule: unique_from.induct) auto

section \<open>Tables in memory\<close>

type_synonym mem_auth = "nat \<times> SessionSnapshot list \<times> (string \<rightharpoonup> AuthUserRow)"

definition mem_session_db :: "mem_auth session_db" where
  "mem_session_db =
     \<lparr>sd_create = (\<lambda>x (n, xs, us). let k = Suc (n + sum_list (map (length \<circ> ss_id) xs));
         y = \<lparr>ss_id = replicate k (CHR ''x''), ss_userId = ns_userId x, ss_refreshToken = ns_refreshToken x,
            ss_userAgent = ns_userAgent x, ss_ipAddress = ns_ipAddress x, ss_expiresAt = ns_expiresAt x,
            ss_createdAt = 0, ss_revokedAt = None\<rparr> in (Inr y, (n, xs @ [y], us))),
      sd_findMany = (\<lambda>P (n, xs, us). (Inr (filter P xs), (n, xs, us))),
      sd_findFirst = (\<lambda>P (n, xs, us). (Inr (find P xs), (n, xs, us))),
      sd_update = (\<lambda>k t (n, xs, us). case find (\<lambda>x. ss_id x = k) xs of
          Some y \<Rightarrow> (Inr y, (n, revoke_rows (\<lambda>x. ss_id x = k) t xs, us))
        | None \<Rightarrow> (Inl (PrismaKnown ''P2025'' [] ''No record found''), (n, xs, us))),
      sd_updateMany = (\<lambda>P t (n, xs, us). (Inr (length (filter P xs)), (n, revoke_rows P t xs, us))),
      sd_deleteMany = (\<lambda>P (n, xs, us). (Inr (length (filter P xs)), (n, filter (\<lambda>x. \<not> P x) xs, us))),
      sd_findUser = (\<lambda>i (n, xs, us). (Inr (us i), (n, xs, us)))\<rparr>"

lemma long_id_fresh: "x \<in> set xs \<Longrightarrow> length (ss_id x) \<le> sum_list (map (length \<circ> ss_id) xs)"
  by (induction xs) auto

interpretation memauth: prisma_sessions mem_session_db "\<lambda>(n, xs, us). xs" "\<lambda>(n, xs, us). us"
proof (unfold_locales, goal_cases)
  case (1 x s)
  obtain n xs us where s: "s = (n, xs, us)" by (cases s)
  have "replicate (Suc (n + sum_list (map (length \<circ> ss_id) xs))) (CHR ''x'') \<notin> ss_id ` set xs"
  proof
    assume "replicate (Suc (n + sum_list (map (length \<circ> ss_id) xs))) (CHR ''x'') \<in> ss_id ` set xs"
    then obtain y where "y \<in> set xs" "length (ss_id y) = Suc (n + sum_list (map (length \<circ> ss_id) xs))"
      by (metis imageE length_replicate)
    with long_id_fresh [of y xs] show False by simp
  qed
  then show ?case by (simp add: s mem_session_db_def Let_def)
next
  case (4 k s t)
  then show ?case
    by (cases s; cases "find (\<lambda>x. ss_id x = k) (fst (snd s))")
      (auto simp: mem_session_db_def find_None_iff_all)
qed (auto simp: mem_session_db_def split: prod.split)

section \<open>Properties\<close>

text \<open>
  C7. One-time refresh tokens. Presenting the token of a live session of an active user revokes that
  session and changes no other, adds one session of that user whose stored hash matches the new token and not
  the old one, which is not revoked and expires the configured number of days after its creation, and returns
  the new token. Presenting the old token again, at any later time, is refused with 401 and revokes every session
  of the user. Token values are ASCII texts of at most 72 characters, which is what bcrypt reads.
\<close>
theorem Auth_refresh_rotates:
  assumes db: "prisma_sessions d sess accounts" and bc: "bcrypt_ok en" and sign: "\<And>p. \<exists>t. en_sign en p = Inr t"
    and chars: "CHR ''.'' \<notin> set u" "CHR ''.'' \<notin> set v" "u \<noteq> []" "v \<noteq> []" and new: "nv \<noteq> v" "bcrypt_text v" "bcrypt_text nv"
    and ids: "distinct (map ss_id (sess s))"
    and x: "x \<in> set (sess s)" "live_for u (clk 0) x" "token_matches en v x"
    and only: "\<forall>z\<in>set (sess s). ss_userId z = u \<and> token_matches en v z \<longrightarrow> z = x"
    and user: "accounts s u = Some a" "au_status a = ACTIVE"
  shows "\<exists>tp s' y. Auth_refreshTokens en d jti nv clk (u @ ''.'' @ v) ua ip s = (Inr tp, s') \<and>
    tp_refreshToken tp = u @ ''.'' @ nv \<and>
    sess s' = revoke_rows (\<lambda>z. ss_id z = ss_id x) (clk 1) (sess s) @ [y] \<and> ss_userId y = u \<and> ss_revokedAt y = None \<and>
    token_matches en nv y \<and> \<not> token_matches en v y \<and> ss_expiresAt y = clk 2 + en_refreshTokenTtlDays en * 86400000 \<and>
    (\<forall>clk' jti' nv'. \<exists>e s''. Auth_refreshTokens en d jti' nv' clk' (u @ ''.'' @ v) ua ip s' = (Inl e, s'') \<and>
       (\<exists>b. e = HttpExc 401 b \<and> pb_code b = REFRESH_TOKEN_REVOKED) \<and>
       (\<forall>z\<in>set (sess s''). ss_userId z = u \<longrightarrow> ss_revokedAt z \<noteq> None))"
proof -
  note tok = parse_composite [OF chars]
  from prisma_sessions.refresh_matched [OF db, where clk = clk and s = s, OF bc sign tok ids x only user]
  obtain tp s' y h where run: "Auth_refreshTokens en d jti nv clk (u @ ''.'' @ v) ua ip s = (Inr tp, s')"
    and tp: "tp_refreshToken tp = u @ ''.'' @ nv"
    and s': "sess s' = revoke_rows (\<lambda>z. ss_id z = ss_id x) (clk 1) (sess s) @ [y]"
    and y: "ss_userId y = u" "ss_revokedAt y = None"
    and h: "en_hash en nv (en_bcryptRounds en) = Inr h" "ss_refreshToken y = h"
    and ttl: "ss_expiresAt y = clk 2 + en_refreshTokenTtlDays en * 86400000" by blast
  have stored: "en_hash en nv (en_bcryptRounds en) = Inr (ss_refreshToken y)" using h by simp
  have ymatch: "token_matches en nv y" "\<not> token_matches en v y"
    using hashed_matches [OF bc new(3) new(3) stored] hashed_matches [OF bc new(3,2) stored] new(1) by simp_all
  have "\<not> token_matches en v z" if z: "z \<in> set (sess s')" "live_for u now z" for z now
  proof (cases "z = y")
    case True
    then show ?thesis using ymatch(2) by simp
  next
    case False
    with z(1) have "z \<in> set (revoke_rows (\<lambda>z. ss_id z = ss_id x) (clk 1) (sess s))" by (simp add: s')
    then obtain w where w: "w \<in> set (sess s)"
      and zw: "z = (if ss_id w = ss_id x then w\<lparr>ss_revokedAt := Some (clk 1)\<rparr> else w)"
      unfolding revoke_rows_def set_map by (rule imageE)
    with z(2) have "ss_id w \<noteq> ss_id x" "z = w" by (auto simp: live_for_def split: if_splits)
    with only w z(2) show ?thesis by (auto simp: live_for_def)
  qed
  then have "\<forall>z\<in>set (sess s'). live_for u (clk' 0) z \<longrightarrow> \<not> token_matches en v z" for clk' :: "nat \<Rightarrow> int"
    by blast
  note none = this
  have "\<exists>e s''. Auth_refreshTokens en d jti' nv' clk' (u @ ''.'' @ v) ua ip s' = (Inl e, s'') \<and>
       (\<exists>b. e = HttpExc 401 b \<and> pb_code b = REFRESH_TOKEN_REVOKED) \<and>
       (\<forall>z\<in>set (sess s''). ss_userId z = u \<longrightarrow> ss_revokedAt z \<noteq> None)" for clk' jti' nv'
    using prisma_sessions.refresh_unmatched [OF db, where s = s' and clk = clk' and jti = jti' and nv = nv' and
        ua = ua and ip = ip, OF bc tok none [of clk']]
    unfolding unauthorized_def by fastforce
  with run tp s' y ymatch ttl show ?thesis by blast
qed

definition sample_env :: auth_env where
  "sample_env = \<lparr>en_accessTokenTtl = 900, en_refreshTokenTtlDays = 7, en_bcryptRounds = 12,
     en_sign = (\<lambda>p. Inr ''jwt''), en_hash = (\<lambda>t n. Inr t), en_compare = (\<lambda>t h. Inr (t = h))\<rparr>"

lemma sample_env_ok: "bcrypt_ok sample_env" "\<And>p. \<exists>t. en_sign sample_env p = Inr t"
  by (simp_all add: bcrypt_ok_def sample_env_def)

definition sample_account :: AuthUserRow where
  "sample_account = \<lparr>au_id = ''u'', au_email = ''a@b.c'', au_status = ACTIVE, au_roles = []\<rparr>"

definition sample_auth_state :: mem_auth where
  "sample_auth_state = (0, [\<lparr>ss_id = ''s1'', ss_userId = ''u'', ss_refreshToken = ''tok'', ss_userAgent = None,
     ss_ipAddress = None, ss_expiresAt = 900, ss_createdAt = 1, ss_revokedAt = None\<rparr>], [''u'' \<mapsto> sample_account])"

theorem Auth_refresh_rotates_witness:
  "\<exists>tp s' y e s''. Auth_refreshTokens sample_env mem_session_db ''j'' ''tok2'' (\<lambda>k. 10) ''u.tok'' None None sample_auth_state =
      (Inr tp, s') \<and> token_matches sample_env ''tok2'' y \<and> ss_expiresAt y = 604800010 \<and>
     Auth_refreshTokens sample_env mem_session_db ''k'' ''tok3'' (\<lambda>k. 20) ''u.tok'' None None s' = (Inl e, s'')"
proof -
  let ?x = "hd (fst (snd sample_auth_state))"
  have h: "distinct (map ss_id ((\<lambda>(n, xs, us). xs) sample_auth_state))"
    "?x \<in> set ((\<lambda>(n, xs, us). xs) sample_auth_state)" "live_for ''u'' ((\<lambda>k. 10) 0) ?x"
    "token_matches sample_env ''tok'' ?x"
    "\<forall>z\<in>set ((\<lambda>(n, xs, us). xs) sample_auth_state). ss_userId z = ''u'' \<and> token_matches sample_env ''tok'' z \<longrightarrow> z = ?x"
    "((\<lambda>(n, xs, us). us) sample_auth_state) ''u'' = Some sample_account" "au_status sample_account = ACTIVE"
    by (simp_all add: sample_auth_state_def live_for_def token_matches_def sample_env_def sample_account_def)
  have t: "CHR ''.'' \<notin> set ''u''" "CHR ''.'' \<notin> set ''tok''" "''u'' \<noteq> []" "''tok'' \<noteq> []" "''tok2'' \<noteq> ''tok''"
    "bcrypt_text ''tok''" "bcrypt_text ''tok2''" by (simp_all add: bcrypt_text_def)
  have days: "(10 :: int) + en_refreshTokenTtlDays sample_env * 86400000 = 604800010" by (simp add: sample_env_def)
  note r = Auth_refresh_rotates [OF memauth.prisma_sessions_axioms sample_env_ok t h, of "''j''" None None]
  from r obtain tp s' y where run: "Auth_refreshTokens sample_env mem_session_db ''j'' ''tok2'' (\<lambda>k. 10)
      (''u'' @ ''.'' @ ''tok'') None None sample_auth_state = (Inr tp, s')" "token_matches sample_env ''tok2'' y"
    "ss_expiresAt y = 10 + en_refreshTokenTtlDays sample_env * 86400000"
    and again: "\<forall>clk' jti' nv'. \<exists>e s''. Auth_refreshTokens sample_env mem_session_db jti' nv' clk'
      (''u'' @ ''.'' @ ''tok'') None None s' = (Inl e, s'')" by (elim exE conjE) meson
  from again obtain e s'' where "Auth_refreshTokens sample_env mem_session_db ''k'' ''tok3'' (\<lambda>k. 20)
      (''u'' @ ''.'' @ ''tok'') None None s' = (Inl e, s'')" by blast
  with run show ?thesis unfolding days by (simp del: split_paired_Ex) meson
qed

text \<open>
  Anyone who knows a user's identifier can log that user out everywhere: a refresh token made of
  the identifier, a dot and any text that matches no live session is answered with 401 after all
  sessions of that user were revoked. No secret of the user is needed.
\<close>
theorem Auth_unknown_token_revokes_all:
  assumes "prisma_sessions d sess accounts" and "bcrypt_ok en" and "parse_refresh_token token = Some (u, v)"
    and "\<forall>x\<in>set (sess s). live_for u (clk 0) x \<longrightarrow> \<not> token_matches en v x"
  shows "\<exists>s'. Auth_refreshTokens en d jti nv clk token ua ip s =
      (Inl (unauthorized ''token-revoked'' ''Refresh Token Revoked''
        ''This refresh token has been revoked due to suspicious activity. Please log in again.''
        REFRESH_TOKEN_REVOKED), s') \<and>
    (\<forall>z\<in>set (sess s'). ss_userId z = u \<longrightarrow> ss_revokedAt z \<noteq> None)"
  by (rule prisma_sessions.refresh_unmatched [OF assms(1), where clk = clk and s = s, OF assms(2-4)])

theorem Auth_unknown_token_revokes_all_witness:
  "\<exists>e s'. Auth_refreshTokens sample_env mem_session_db ''j'' ''tok2'' (\<lambda>k. 10) ''u.guess'' None None sample_auth_state =
      (Inl e, s') \<and> (\<forall>z\<in>set (fst (snd s')). ss_userId z = ''u'' \<longrightarrow> ss_revokedAt z \<noteq> None)"
proof -
  have "parse_refresh_token ''u.guess'' = Some (''u'', ''guess'')" by code_simp
  moreover have "\<forall>x\<in>set ((\<lambda>(n, xs, us). xs) sample_auth_state). live_for ''u'' ((\<lambda>k. 10) 0) x \<longrightarrow> \<not> token_matches sample_env ''guess'' x"
    by (simp add: sample_auth_state_def token_matches_def sample_env_def)
  ultimately show ?thesis
    using Auth_unknown_token_revokes_all [OF memauth.prisma_sessions_axioms sample_env_ok(1), of "''u.guess''" "''u''" "''guess''"
        sample_auth_state "\<lambda>k. 10" "''j''" "''tok2''" None None]
    by fastforce
qed



text \<open>
  Logging out with a token that matches no session logs out everywhere, and the clean-up removes only
  sessions that are both expired and revoked: expired sessions that were never revoked stay.
\<close>

lemma revokeToken_unmatched:
  assumes "prisma_sessions d sess accounts" and "bcrypt_ok en" and "str_split (CHR ''.'') t = u' # v # rest"
    and "\<forall>x\<in>set (sess s). ss_userId x = u \<and> ss_revokedAt x = None \<longrightarrow> \<not> token_matches en v x"
  shows "\<exists>s'. Auth_revokeToken en d now u (Some t) s = (Inr (), s') \<and>
    (\<forall>z\<in>set (sess s'). ss_userId z = u \<longrightarrow> ss_revokedAt z \<noteq> None)"
proof -
  have "find (token_matches en v) (filter (\<lambda>r. ss_userId r = u \<and> ss_revokedAt r = None) (sess s)) = None"
    using assms(4) by (auto simp: find_filter_None)
  moreover obtain s' where "sd_updateMany d (\<lambda>r. ss_userId r = u \<and> ss_revokedAt r = None) now s =
      (Inr (length (filter (\<lambda>r. ss_userId r = u \<and> ss_revokedAt r = None) (sess s))), s')"
    and s': "sess s' = revoke_rows (\<lambda>r. ss_userId r = u \<and> ss_revokedAt r = None) now (sess s)"
    using prisma_sessions.updateMany_law [OF assms(1)] by blast
  ultimately have "Auth_revokeToken en d now u (Some t) s = (Inr (), s')"
    using assms(3)
    by (simp add: Auth_revokeToken_def Auth_revokeAllWhere_def bindP_def
        prisma_sessions.findMany_law [OF assms(1)] match_session_find [OF assms(2)])
  then show ?thesis using revoked_for [of _ u now "sess s"] s' by auto
qed

lemma cleanup_keeps_unrevoked:
  assumes "prisma_sessions d sess accounts"
  shows "\<exists>n s'. Auth_cleanupExpiredSessions d now s = (Inr n, s') \<and>
    (\<forall>x\<in>set (sess s). x \<in> set (sess s') \<longleftrightarrow> now \<le> ss_expiresAt x \<or> ss_revokedAt x = None)"
proof -
  obtain s' where s': "sd_deleteMany d (\<lambda>r. ss_expiresAt r < now \<and> ss_revokedAt r \<noteq> None) s =
      (Inr (length (filter (\<lambda>r. ss_expiresAt r < now \<and> ss_revokedAt r \<noteq> None) (sess s))), s')"
    "sess s' = filter (\<lambda>x. \<not> (ss_expiresAt x < now \<and> ss_revokedAt x \<noteq> None)) (sess s)"
    using prisma_sessions.deleteMany_law [OF assms] by blast
  then show ?thesis by (auto simp: Auth_cleanupExpiredSessions_def)
qed

end
