(* ===== verification/Throttler.thy ===== *)
theory Throttler
  imports Errors
begin

text \<open>
  \<open>src/security/rate-limiting/throttler.guard.ts\<close>. The guard's \<open>store\<close> is a map from keys to
  entries; a request carries what \<open>canActivate\<close> reads of it. \<open>now\<close> is the clock reading of the limit
  check, \<open>now'\<close> the one of the headers. A refused request is the thrown 429; an admitted one gives the
  headers set on the response. Numbers are integers (limits and seconds come from configuration).
\<close>

record RateLimitEntry =
  rl_count :: int
  rl_resetTime :: int

record RateLimitOptions =
  ro_limit :: int
  ro_windowSeconds :: int
  ro_keyPrefix :: "string option"

record ThrottleConfig =
  tc_defaultLimit :: int
  tc_defaultWindow :: int

text \<open>\<open>x-forwarded-for\<close> is absent, one string, or an array of strings.\<close>

datatype forwarded = NoHeader | OneHeader string | ManyHeaders "string list"

record ThrottleRequest =
  rq_forwarded :: forwarded
  rq_ip :: "string option"
  rq_userId :: "string option"
  rq_custom :: "RateLimitOptions option"

type_synonym rate_store = "string \<rightharpoonup> RateLimitEntry"
type_synonym headers = "(string \<times> string) list"

definition ceil_div :: "int \<Rightarrow> int \<Rightarrow> int" where
  "ceil_div a b = - ((- a) div b)"

definition Throttler_getClientIp :: "ThrottleRequest \<Rightarrow> string" where
  "Throttler_getClientIp request =
     (let direct = (case rq_ip request of Some ip \<Rightarrow> ip | None \<Rightarrow> ''127.0.0.1'')
      in case rq_forwarded request of
           NoHeader \<Rightarrow> direct
         | OneHeader h \<Rightarrow> if h = [] then direct else str_trim (hd (str_split (CHR '','') h))
         | ManyHeaders hs \<Rightarrow> str_trim (case hs of [] \<Rightarrow> ''undefined'' | h # _ \<Rightarrow> h))"

definition Throttler_setRateLimitHeaders :: "int \<Rightarrow> int \<Rightarrow> int \<Rightarrow> int \<Rightarrow> headers" where
  "Throttler_setRateLimitHeaders limit remaining windowSeconds now =
     [(''X-RateLimit-Limit'', show_int limit), (''X-RateLimit-Remaining'', show_int (max 0 remaining)),
      (''X-RateLimit-Reset'', show_int (ceil_div (now + windowSeconds * 1000) 1000))]"

definition Throttler_limit :: "ThrottleConfig \<Rightarrow> ThrottleRequest \<Rightarrow> int" where
  "Throttler_limit cfg request = (case rq_custom request of Some o' \<Rightarrow> ro_limit o' | None \<Rightarrow> tc_defaultLimit cfg)"

definition Throttler_window :: "ThrottleConfig \<Rightarrow> ThrottleRequest \<Rightarrow> int" where
  "Throttler_window cfg request =
     (case rq_custom request of Some o' \<Rightarrow> ro_windowSeconds o' | None \<Rightarrow> tc_defaultWindow cfg)"

definition Throttler_key :: "ThrottleRequest \<Rightarrow> string" where
  "Throttler_key request =
     (let keyPrefix = (case rq_custom request of
            Some o' \<Rightarrow> (case ro_keyPrefix o' of Some p \<Rightarrow> p | None \<Rightarrow> ''rl'') | None \<Rightarrow> ''rl'')
      in case rq_userId request of
           Some userId \<Rightarrow> if userId = [] then keyPrefix @ '':ip:'' @ Throttler_getClientIp request
                          else keyPrefix @ '':user:'' @ userId
         | None \<Rightarrow> keyPrefix @ '':ip:'' @ Throttler_getClientIp request)"

definition rate_limited :: "int \<Rightarrow> exn" where
  "rate_limited retryAfter =
     HttpExc 429 \<lparr>pb_type = ''https://enterprise.system/errors/rate-limited'', pb_title = ''Too Many Requests'',
       pb_status = 429,
       pb_detail = ''Rate limit exceeded. Try again in '' @ show_int retryAfter @ '' seconds.'',
       pb_code = TOO_MANY_ATTEMPTS, pb_extra = [(''retryAfter'', JNum retryAfter)]\<rparr>"

definition Throttler_canActivate ::
  "ThrottleConfig \<Rightarrow> int \<Rightarrow> int \<Rightarrow> ThrottleRequest \<Rightarrow> rate_store \<Rightarrow> (exn + unit) \<times> headers \<times> rate_store" where
  "Throttler_canActivate cfg now now' request store =
     (let limit = Throttler_limit cfg request;
          windowSeconds = Throttler_window cfg request;
          key = Throttler_key request;
          windowMs = windowSeconds * 1000;
          fresh = (Inr (), Throttler_setRateLimitHeaders limit (limit - 1) windowSeconds now',
                   store(key \<mapsto> \<lparr>rl_count = 1, rl_resetTime = now + windowMs\<rparr>))
      in case store key of
           None \<Rightarrow> fresh
         | Some entry \<Rightarrow>
             if rl_resetTime entry < now then fresh
             else if limit \<le> rl_count entry
             then let retryAfter = ceil_div (rl_resetTime entry - now) 1000
                  in (Inl (rate_limited retryAfter),
                      [(''Retry-After'', show_int retryAfter), (''X-RateLimit-Limit'', show_int limit),
                       (''X-RateLimit-Remaining'', ''0''),
                       (''X-RateLimit-Reset'', show_int (ceil_div (rl_resetTime entry) 1000))], store)
             else let entry' = entry\<lparr>rl_count := rl_count entry + 1\<rparr>
                  in (Inr (), Throttler_setRateLimitHeaders limit (limit - rl_count entry') windowSeconds now',
                      store(key \<mapsto> entry')))"

definition Throttler_cleanup :: "int \<Rightarrow> rate_store \<Rightarrow> rate_store" where
  "Throttler_cleanup now store =
     (\<lambda>key. case store key of Some entry \<Rightarrow> if rl_resetTime entry < now then None else Some entry | None \<Rightarrow> None)"

text \<open>A sequence of requests with their times: which were admitted, and the store left.\<close>

fun throttle_run ::
  "ThrottleConfig \<Rightarrow> (int \<times> ThrottleRequest) list \<Rightarrow> rate_store \<Rightarrow> bool list \<times> rate_store" where
  "throttle_run cfg [] store = ([], store)"
| "throttle_run cfg ((now, request) # rest) store =
     (case Throttler_canActivate cfg now now request store of (r, h, store') \<Rightarrow>
        case throttle_run cfg rest store' of (rs, store'') \<Rightarrow> (is_ok r # rs, store''))"

section \<open>Lemmas\<close>

lemmas throttle_defs = Throttler_canActivate_def Let_def

lemma throttle_run_Cons:
  "fst (throttle_run cfg ((t, r) # rest) store) =
     is_ok (fst (Throttler_canActivate cfg t t r store)) #
     fst (throttle_run cfg rest (snd (snd (Throttler_canActivate cfg t t r store))))"
  by (simp split: prod.split)

text \<open>One call touches its own key only.\<close>

lemma canActivate_frame:
  "k \<noteq> Throttler_key request \<Longrightarrow>
     (snd (snd (Throttler_canActivate cfg now now' request store))) k = store k"
  by (auto simp: throttle_defs split: option.split)

text \<open>Within a window of one key: an entry with count \<open>c\<close> admits the next \<open>limit - c\<close> requests.\<close>

lemma window_count:
  assumes "store key = Some e" and "\<forall>(t, r)\<in>set reqs. Throttler_key r = key \<and> Throttler_limit cfg r = limit \<and> t \<le> rl_resetTime e"
    and "1 \<le> rl_count e"
  shows "int (count_list (fst (throttle_run cfg reqs store)) True) = min (int (length reqs)) (max 0 (limit - rl_count e))"
  using assms
proof (induction reqs arbitrary: store e)
  case Nil
  then show ?case by simp
next
  case (Cons q reqs)
  obtain t r where q: "q = (t, r)" by (cases q)
  from Cons.prems(2) q have r: "Throttler_key r = key" "Throttler_limit cfg r = limit" "t \<le> rl_resetTime e"
    by auto
  show ?case
  proof (cases "limit \<le> rl_count e")
    case True
    have rest: "\<forall>(t, r)\<in>set reqs. Throttler_key r = key \<and> Throttler_limit cfg r = limit \<and> t \<le> rl_resetTime e"
      using Cons.prems(2) by auto
    from Cons.IH [where store = store and e = e] Cons.prems(1) rest Cons.prems(3) True r show ?thesis
      unfolding q throttle_run_Cons by (simp add: throttle_defs)
  next
    case False
    let ?e = "e\<lparr>rl_count := rl_count e + 1\<rparr>"
    have rest: "\<forall>(t, r)\<in>set reqs. Throttler_key r = key \<and> Throttler_limit cfg r = limit \<and> t \<le> rl_resetTime ?e"
      using Cons.prems(2) by auto
    from Cons.IH [where store = "store(key \<mapsto> ?e)" and e = ?e] rest Cons.prems(3) False r Cons.prems(1) show ?thesis
      unfolding q throttle_run_Cons by (auto simp add: throttle_defs fun_upd_def)
  qed
qed

section \<open>Properties\<close>

text \<open>
  C29. The limit holds within a window: of \<open>n\<close> requests of one key with one limit that arrive before the
  window opened by the first ends, exactly \<open>min n (max 1 limit)\<close> are admitted; a limit of zero or less
  still admits one request per window.
\<close>
theorem Throttler_window_bound:
  assumes "store (Throttler_key r0) = None"
    and "\<forall>(t, r)\<in>set reqs. Throttler_key r = Throttler_key r0 \<and> Throttler_limit cfg r = Throttler_limit cfg r0 \<and>
      t \<le> t0 + Throttler_window cfg r0 * 1000"
  shows "int (count_list (fst (throttle_run cfg ((t0, r0) # reqs) store)) True) =
    min (int (length reqs) + 1) (max 1 (Throttler_limit cfg r0))"
proof -
  let ?e = "\<lparr>rl_count = 1, rl_resetTime = t0 + Throttler_window cfg r0 * 1000\<rparr>"
  have "\<forall>(t, r)\<in>set reqs. Throttler_key r = Throttler_key r0 \<and> Throttler_limit cfg r = Throttler_limit cfg r0 \<and>
      t \<le> rl_resetTime ?e" using assms(2) by auto
  with window_count [where store = "store(Throttler_key r0 \<mapsto> ?e)" and e = ?e and reqs = reqs and
      key = "Throttler_key r0" and limit = "Throttler_limit cfg r0" and cfg = cfg] assms(1)
  show ?thesis
    unfolding throttle_run_Cons by (auto simp add: throttle_defs)
qed

definition plain_request :: ThrottleRequest where
  "plain_request = \<lparr>rq_forwarded = NoHeader, rq_ip = Some ''1.2.3.4'', rq_userId = None, rq_custom = None\<rparr>"

theorem Throttler_window_bound_witness:
  "int (count_list (fst (throttle_run \<lparr>tc_defaultLimit = 2, tc_defaultWindow = 60\<rparr>
     [(0, plain_request), (10, plain_request), (20, plain_request)] Map.empty)) True) = 2"
  using Throttler_window_bound [where store = Map.empty and ?r0.0 = plain_request and
      reqs = "[(10, plain_request), (20, plain_request)]" and
      cfg = "\<lparr>tc_defaultLimit = 2, tc_defaultWindow = 60\<rparr>" and ?t0.0 = 0]
  by (simp add: Throttler_limit_def Throttler_window_def plain_request_def)

text \<open>
  The periodic clean-up cannot be observed: after it, every request that arrives no earlier gets
  the same decision and the same headers as without it, and the store of the two runs agrees again on
  the request's key.
\<close>
theorem Throttler_cleanup_unobservable:
  assumes "t \<le> now"
  shows "case (Throttler_canActivate cfg now now' request (Throttler_cleanup t store),
      Throttler_canActivate cfg now now' request store) of
    ((d1, h1, s1), (d2, h2, s2)) \<Rightarrow> d1 = d2 \<and> h1 = h2 \<and> s1 (Throttler_key request) = s2 (Throttler_key request)"
  using assms
  by (auto simp: throttle_defs Throttler_cleanup_def split: option.split)

theorem Throttler_cleanup_unobservable_witness:
  "fst (Throttler_canActivate \<lparr>tc_defaultLimit = 2, tc_defaultWindow = 60\<rparr> 70001 70001 plain_request
      (Throttler_cleanup 70000 [''rl:ip:1.2.3.4'' \<mapsto> \<lparr>rl_count = 2, rl_resetTime = 60000\<rparr>])) = Inr ()"
  using Throttler_cleanup_unobservable [where t = 70000 and now = 70001 and now' = 70001 and request = plain_request and
      cfg = "\<lparr>tc_defaultLimit = 2, tc_defaultWindow = 60\<rparr>" and
      store = "[''rl:ip:1.2.3.4'' \<mapsto> \<lparr>rl_count = 2, rl_resetTime = 60000\<rparr>]"]
  by (simp add: throttle_defs Throttler_key_def Throttler_getClientIp_def plain_request_def split: prod.splits)

text \<open>
  The limit can be evaded without credentials: an anonymous client that sends a new leftmost address
  in \<open>X-Forwarded-For\<close> with every request is never refused, whatever the limit.
\<close>
theorem Throttler_forwarded_evades:
  assumes "distinct ips" and "\<forall>ip\<in>set ips. ip \<noteq> [] \<and> str_trim ip = ip \<and> CHR '','' \<notin> set ip"
    and "\<forall>ip\<in>set ips. store (''rl:ip:'' @ ip) = None"
  shows "fst (throttle_run cfg (map (\<lambda>ip. (t, plain_request\<lparr>rq_forwarded := OneHeader ip\<rparr>)) ips) store) =
    replicate (length ips) True"
  using assms
proof (induction ips arbitrary: store)
  case Nil
  then show ?case by simp
next
  case (Cons ip ips)
  have key: "Throttler_key (plain_request\<lparr>rq_forwarded := OneHeader i\<rparr>) = ''rl:ip:'' @ i"
    if "i \<in> set (ip # ips)" for i
  proof -
    from Cons.prems(2) that have "i \<noteq> []" "str_trim i = i" "CHR '','' \<notin> set i" by auto
    then show ?thesis
      by (simp add: Throttler_key_def Throttler_getClientIp_def plain_request_def str_split_no_sep)
  qed
  let ?s = "snd (snd (Throttler_canActivate cfg t t (plain_request\<lparr>rq_forwarded := OneHeader ip\<rparr>) store))"
  have "?s (''rl:ip:'' @ i) = None" if "i \<in> set ips" for i
  proof -
    have "i \<noteq> ip" using Cons.prems(1) that by auto
    then show ?thesis
      using canActivate_frame [of "''rl:ip:'' @ i" "plain_request\<lparr>rq_forwarded := OneHeader ip\<rparr>" cfg t t store]
        key [of ip] Cons.prems(3) that by simp
  qed
  then have "fst (throttle_run cfg (map (\<lambda>ip. (t, plain_request\<lparr>rq_forwarded := OneHeader ip\<rparr>)) ips) ?s) =
      replicate (length ips) True"
    using Cons by auto
  moreover have "fst (Throttler_canActivate cfg t t (plain_request\<lparr>rq_forwarded := OneHeader ip\<rparr>) store) = Inr ()"
    using Cons.prems(3) key [of ip] by (simp add: throttle_defs)
  ultimately show ?case by (auto split: prod.split)
qed

theorem Throttler_forwarded_evades_witness:
  "fst (throttle_run \<lparr>tc_defaultLimit = 1, tc_defaultWindow = 60\<rparr>
     (map (\<lambda>ip. (5, plain_request\<lparr>rq_forwarded := OneHeader ip\<rparr>)) [''1'', ''2'', ''3'']) Map.empty) = [True, True, True]"
  using Throttler_forwarded_evades [where ips = "[''1'', ''2'', ''3'']" and store = Map.empty and
      cfg = "\<lparr>tc_defaultLimit = 1, tc_defaultWindow = 60\<rparr>" and t = 5]
  by (simp add: str_trim_def js_white_def)

end
