(* ===== verification/CircuitBreaker.thy ===== *)
theory CircuitBreaker
  imports Errors "HOL-Library.Sublist"
begin

text \<open>
  The two circuit breakers: the class \<open>CircuitBreaker\<close> of \<open>src/common/utils/async.util.ts\<close> and the
  per-client circuits of \<open>src/infrastructure/external-services/http-client.service.ts\<close>. What they share
  is the locale \<open>circuit_breaker\<close>, interpreted on both. A call of \<open>execute\<close> is split at its \<open>await\<close>
  into \<open>CircuitBreaker_enter\<close> and \<open>CircuitBreaker_settle\<close>; the step relation \<open>cb_step\<close> interleaves
  those halves of any number of concurrent calls. \<open>cb_changes\<close> is the list of \<open>onStateChange\<close> calls
  made so far (the callbacks are taken not to throw).
\<close>

datatype CircuitState = Closed | Opened | HalfOpen

section \<open>The breaker of \<open>async.util.ts\<close>\<close>

record CircuitBreakerOptions =
  cbo_failureThreshold :: int
  cbo_resetTimeoutMs :: int
  cbo_successThreshold :: int

definition DEFAULT_CIRCUIT_OPTIONS :: CircuitBreakerOptions where
  "DEFAULT_CIRCUIT_OPTIONS = \<lparr>cbo_failureThreshold = 5, cbo_resetTimeoutMs = 30000, cbo_successThreshold = 3\<rparr>"

record CircuitBreaker =
  cb_state :: CircuitState
  cb_failureCount :: int
  cb_successCount :: int
  cb_lastFailureTime :: int
  cb_nextAttemptTime :: int
  cb_changes :: "(CircuitState \<times> CircuitState) list"

definition CircuitBreaker_new :: CircuitBreaker where
  "CircuitBreaker_new = \<lparr>cb_state = Closed, cb_failureCount = 0, cb_successCount = 0,
     cb_lastFailureTime = 0, cb_nextAttemptTime = 0, cb_changes = []\<rparr>"

definition CircuitBreaker_transitionTo :: "CircuitState \<Rightarrow> CircuitBreaker \<Rightarrow> CircuitBreaker" where
  "CircuitBreaker_transitionTo newState cb =
     cb\<lparr>cb_state := newState,
        cb_changes := (if cb_state cb \<noteq> newState then cb_changes cb @ [(cb_state cb, newState)] else cb_changes cb)\<rparr>"

definition CircuitBreaker_getState :: "int \<Rightarrow> CircuitBreaker \<Rightarrow> CircuitState \<times> CircuitBreaker" where
  "CircuitBreaker_getState now cb =
     (let cb' = (if cb_state cb = Opened \<and> cb_nextAttemptTime cb \<le> now
                 then CircuitBreaker_transitionTo HalfOpen cb else cb)
      in (cb_state cb', cb'))"

definition CircuitBreaker_failures :: "CircuitBreaker \<Rightarrow> int" where
  "CircuitBreaker_failures cb = cb_failureCount cb"

definition CircuitBreaker_onSuccess :: "CircuitBreakerOptions \<Rightarrow> CircuitBreaker \<Rightarrow> CircuitBreaker" where
  "CircuitBreaker_onSuccess opts cb =
     (if cb_state cb = HalfOpen
      then let cb1 = cb\<lparr>cb_successCount := cb_successCount cb + 1\<rparr>
           in if cbo_successThreshold opts \<le> cb_successCount cb1
              then (CircuitBreaker_transitionTo Closed cb1)\<lparr>cb_failureCount := 0, cb_successCount := 0\<rparr>
              else cb1
      else cb\<lparr>cb_failureCount := 0\<rparr>)"

text \<open>\<open>Date.now()\<close> is read twice: for the failure and for the next attempt.\<close>

definition CircuitBreaker_onFailure :: "CircuitBreakerOptions \<Rightarrow> int \<Rightarrow> int \<Rightarrow> CircuitBreaker \<Rightarrow> CircuitBreaker" where
  "CircuitBreaker_onFailure opts now now' cb =
     (let cb1 = cb\<lparr>cb_failureCount := cb_failureCount cb + 1, cb_lastFailureTime := now\<rparr>
      in if cb_state cb1 = HalfOpen
         then (CircuitBreaker_transitionTo Opened cb1)\<lparr>cb_nextAttemptTime := now' + cbo_resetTimeoutMs opts,
                 cb_successCount := 0\<rparr>
         else if cbo_failureThreshold opts \<le> cb_failureCount cb1
         then (CircuitBreaker_transitionTo Opened cb1)\<lparr>cb_nextAttemptTime := now' + cbo_resetTimeoutMs opts\<rparr>
         else cb1)"

definition CircuitBreaker_reset :: "CircuitBreaker \<Rightarrow> CircuitBreaker" where
  "CircuitBreaker_reset cb = cb\<lparr>cb_state := Closed, cb_failureCount := 0, cb_successCount := 0,
     cb_lastFailureTime := 0, cb_nextAttemptTime := 0\<rparr>"

text \<open>\<open>execute\<close> up to its \<open>await\<close>, after it, and as a whole when nothing runs in between.\<close>

definition CircuitBreaker_enter :: "int \<Rightarrow> CircuitBreaker \<Rightarrow> (exn + unit) \<times> CircuitBreaker" where
  "CircuitBreaker_enter now cb =
     (case CircuitBreaker_getState now cb of (currentState, cb') \<Rightarrow>
        if currentState = Opened then (Inl (CircuitOpenError (cb_nextAttemptTime cb')), cb') else (Inr (), cb'))"

definition CircuitBreaker_settle ::
  "CircuitBreakerOptions \<Rightarrow> int \<Rightarrow> int \<Rightarrow> exn + 'a \<Rightarrow> CircuitBreaker \<Rightarrow> CircuitBreaker" where
  "CircuitBreaker_settle opts now now' r cb =
     (case r of Inr a \<Rightarrow> CircuitBreaker_onSuccess opts cb | Inl e \<Rightarrow> CircuitBreaker_onFailure opts now now' cb)"

definition CircuitBreaker_execute ::
  "CircuitBreakerOptions \<Rightarrow> ('s, exn, 'a) proc \<Rightarrow> int \<Rightarrow> int \<Rightarrow> int \<Rightarrow> (CircuitBreaker \<times> 's, exn, 'a) proc" where
  "CircuitBreaker_execute opts fn t now now' = (\<lambda>(cb, s).
     case CircuitBreaker_enter t cb of
       (Inl e, cb1) \<Rightarrow> (Inl e, cb1, s)
     | (Inr _, cb1) \<Rightarrow> (case fn s of (r, s') \<Rightarrow> (r, CircuitBreaker_settle opts now now' r cb1, s')))"

text \<open>A sequence of calls, none overlapping, at the given times and with what \<open>fn\<close> would do (\<open>True\<close>:
  resolve); which of them were let through.\<close>

fun CircuitBreaker_calls ::
  "CircuitBreakerOptions \<Rightarrow> (int \<times> bool) list \<Rightarrow> CircuitBreaker \<Rightarrow> bool list \<times> CircuitBreaker" where
  "CircuitBreaker_calls opts [] cb = ([], cb)"
| "CircuitBreaker_calls opts ((t, works) # rest) cb =
     (case CircuitBreaker_execute opts (\<lambda>n :: nat. (if works then Inr () else Inl ThrownUndefined, Suc n)) t t t (cb, 0) of
        (r, cb', n) \<Rightarrow> (case CircuitBreaker_calls opts rest cb' of (rs, cb'') \<Rightarrow> ((0 < n) # rs, cb'')))"

text \<open>
  Overlapping calls: a call enters (and waits, if let through), a waiting call settles, the state
  is looked at, or the breaker is reset. The second component counts the calls that wait.
\<close>

datatype cb_event = Enter int | Succeed | Fail int int | Inspect int | ResetNow

inductive cb_step :: "CircuitBreakerOptions \<Rightarrow> CircuitBreaker \<times> nat \<Rightarrow> cb_event \<Rightarrow> CircuitBreaker \<times> nat \<Rightarrow> bool"
  for opts where
  enter: "CircuitBreaker_enter t cb = (r, cb') \<Longrightarrow>
    cb_step opts (cb, n) (Enter t) (cb', if is_ok r then Suc n else n)"
| succeed: "cb_step opts (cb, Suc n) Succeed (CircuitBreaker_onSuccess opts cb, n)"
| fail: "cb_step opts (cb, Suc n) (Fail t t') (CircuitBreaker_onFailure opts t t' cb, n)"
| inspect: "cb_step opts (cb, n) (Inspect t) (snd (CircuitBreaker_getState t cb), n)"
| reset_now: "cb_step opts (cb, n) ResetNow (CircuitBreaker_reset cb, n)"

inductive cb_trace :: "CircuitBreakerOptions \<Rightarrow> CircuitBreaker \<times> nat \<Rightarrow> cb_event list \<Rightarrow> CircuitBreaker \<times> nat \<Rightarrow> bool"
  for opts where
  start: "cb_trace opts c [] c"
| step: "cb_trace opts c es c' \<Longrightarrow> cb_step opts c' e c'' \<Longrightarrow> cb_trace opts c (es @ [e]) c''"

inductive_cases cb_stepE: "cb_step opts c e c'"
inductive_simps cb_step_Enter: "cb_step opts c (Enter t) c'"

section \<open>The circuits of \<open>http-client.service.ts\<close>\<close>

record HttpCircuitOptions =
  hco_failureThreshold :: int
  hco_resetTimeoutMs :: int
  hco_halfOpenMaxAttempts :: int
  hco_monitoringWindowMs :: int

definition Http_defaultCircuitOptions :: HttpCircuitOptions where
  "Http_defaultCircuitOptions = \<lparr>hco_failureThreshold = 5, hco_resetTimeoutMs = 30000,
     hco_halfOpenMaxAttempts = 3, hco_monitoringWindowMs = 60000\<rparr>"

record HttpCircuit =
  hc_state :: CircuitState
  hc_failures :: int
  hc_lastFailureTime :: int
  hc_halfOpenAttempts :: int
  hc_successes :: int

type_synonym circuits = "string \<rightharpoonup> HttpCircuit"

definition Http_initCircuit :: "string \<Rightarrow> circuits \<Rightarrow> circuits" where
  "Http_initCircuit name circuits = circuits(name \<mapsto> \<lparr>hc_state = Closed, hc_failures = 0,
     hc_lastFailureTime = 0, hc_halfOpenAttempts = 0, hc_successes = 0\<rparr>)"

definition http_open_message :: "string \<Rightarrow> int \<Rightarrow> string" where
  "http_open_message name elapsed =
     ''['' @ name @ ''] Circuit breaker is OPEN. Service is unavailable. Retry after '' @
     show_int (- ((- (hco_resetTimeoutMs Http_defaultCircuitOptions - elapsed)) div 1000)) @ ''s''"

text \<open>The three methods on one circuit, and on the map of them (an unknown name does nothing).\<close>

definition check_circuit :: "string \<Rightarrow> int \<Rightarrow> HttpCircuit \<Rightarrow> (exn + unit) \<times> HttpCircuit" where
  "check_circuit name now circuit =
     (case hc_state circuit of
        Closed \<Rightarrow> (Inr (), circuit)
      | Opened \<Rightarrow>
          (let elapsed = now - hc_lastFailureTime circuit
           in if hco_resetTimeoutMs Http_defaultCircuitOptions \<le> elapsed
              then (Inr (), circuit\<lparr>hc_state := HalfOpen, hc_halfOpenAttempts := 0, hc_successes := 0\<rparr>)
              else (Inl (JsError (http_open_message name elapsed)), circuit))
      | HalfOpen \<Rightarrow> (Inr (), circuit))"

definition record_success :: "int \<Rightarrow> HttpCircuit \<Rightarrow> HttpCircuit" where
  "record_success now circuit =
     (let c1 = (if hc_state circuit = HalfOpen
                then let c = circuit\<lparr>hc_successes := hc_successes circuit + 1\<rparr>
                     in if hco_halfOpenMaxAttempts Http_defaultCircuitOptions \<le> hc_successes c
                        then c\<lparr>hc_state := Closed, hc_failures := 0\<rparr> else c
                else circuit)
      in if hc_state c1 = Closed
         then if now - hc_lastFailureTime c1 < hco_monitoringWindowMs Http_defaultCircuitOptions
              then c1\<lparr>hc_failures := max 0 (hc_failures c1 - 1)\<rparr> else c1
         else c1)"

text \<open>Of the options only \<open>failureThreshold\<close> is read here; \<open>overrides\<close> is the client's own, if given.\<close>

definition record_failure :: "int option \<Rightarrow> int \<Rightarrow> HttpCircuit \<Rightarrow> HttpCircuit" where
  "record_failure overrides now circuit =
     (let threshold = (case overrides of Some k \<Rightarrow> k | None \<Rightarrow> hco_failureThreshold Http_defaultCircuitOptions);
          c = circuit\<lparr>hc_failures := hc_failures circuit + 1, hc_lastFailureTime := now\<rparr>
      in if hc_state c = HalfOpen then c\<lparr>hc_state := Opened\<rparr>
         else if hc_state c = Closed \<and> threshold \<le> hc_failures c then c\<lparr>hc_state := Opened\<rparr>
         else c)"

definition Http_checkCircuit :: "string \<Rightarrow> int \<Rightarrow> circuits \<Rightarrow> (exn + unit) \<times> circuits" where
  "Http_checkCircuit name now circuits =
     (case circuits name of None \<Rightarrow> (Inr (), circuits)
      | Some circuit \<Rightarrow> (case check_circuit name now circuit of (r, c) \<Rightarrow> (r, circuits(name \<mapsto> c))))"

definition Http_recordSuccess :: "string \<Rightarrow> int \<Rightarrow> circuits \<Rightarrow> circuits" where
  "Http_recordSuccess name now circuits =
     (case circuits name of None \<Rightarrow> circuits | Some circuit \<Rightarrow> circuits(name \<mapsto> record_success now circuit))"

definition Http_recordFailure :: "string \<Rightarrow> int option \<Rightarrow> int \<Rightarrow> circuits \<Rightarrow> circuits" where
  "Http_recordFailure name overrides now circuits =
     (case circuits name of None \<Rightarrow> circuits
      | Some circuit \<Rightarrow> circuits(name \<mapsto> record_failure overrides now circuit))"

definition Http_getCircuitState :: "string \<Rightarrow> circuits \<Rightarrow> (CircuitState \<times> int) option" where
  "Http_getCircuitState name circuits =
     (case circuits name of None \<Rightarrow> None | Some circuit \<Rightarrow> Some (hc_state circuit, hc_failures circuit))"

section \<open>What both breakers promise\<close>

text \<open>Calls at the given times, none of which settles: which are let through.\<close>

fun admissions :: "(int \<Rightarrow> 'c \<Rightarrow> bool \<times> 'c) \<Rightarrow> int list \<Rightarrow> 'c \<Rightarrow> bool list \<times> 'c" where
  "admissions admit [] c = ([], c)"
| "admissions admit (t # ts) c =
     (case admit t c of (b, c') \<Rightarrow> case admissions admit ts c' of (bs, c'') \<Rightarrow> (b # bs, c''))"

locale circuit_breaker =
  fixes state_of :: "'c \<Rightarrow> CircuitState"
    and retry_at :: "'c \<Rightarrow> int"
    and timeout :: int
    and admit :: "int \<Rightarrow> 'c \<Rightarrow> bool \<times> 'c"
    and bad :: "int \<Rightarrow> 'c \<Rightarrow> 'c"
  assumes closed_admits: "state_of c = Closed \<Longrightarrow> admit t c = (True, c)"
    and half_open_admits: "state_of c = HalfOpen \<Longrightarrow> admit t c = (True, c)"
    and open_refuses: "state_of c = Opened \<Longrightarrow> t < retry_at c \<Longrightarrow> admit t c = (False, c)"
    and open_probes: "state_of c = Opened \<Longrightarrow> retry_at c \<le> t \<Longrightarrow>
      fst (admit t c) \<and> state_of (snd (admit t c)) = HalfOpen"
    and half_open_fails: "state_of c = HalfOpen \<Longrightarrow>
      state_of (bad t c) = Opened \<and> retry_at (bad t c) = t + timeout"
begin

lemma unlimited_while_half_open:
  "state_of c = HalfOpen \<Longrightarrow> admissions admit ts c = (replicate (length ts) True, c)"
  by (induction ts) (simp_all add: half_open_admits)

lemma refuses_all:
  "state_of c = Opened \<Longrightarrow> \<forall>t\<in>set ts. t < retry_at c \<Longrightarrow>
     admissions admit ts c = (replicate (length ts) False, c)"
  by (induction ts) (simp_all add: open_refuses)

lemma failed_probe_refuses:
  "state_of c = HalfOpen \<Longrightarrow> \<forall>t\<in>set ts. t < t0 + timeout \<Longrightarrow>
     fst (admissions admit ts (bad t0 c)) = replicate (length ts) False"
  using refuses_all [of "bad t0 c" ts] half_open_fails [of c t0] by simp

lemma probes_unlimited:
  "state_of c = Opened \<Longrightarrow> retry_at c \<le> t \<Longrightarrow>
     fst (admissions admit (t # ts) c) = replicate (Suc (length ts)) True"
  using open_probes [of c t] unlimited_while_half_open [of "snd (admit t c)" ts]
  by (auto split: prod.split)

end

definition cb_admit :: "int \<Rightarrow> CircuitBreaker \<Rightarrow> bool \<times> CircuitBreaker" where
  "cb_admit t cb = (case CircuitBreaker_enter t cb of (r, cb') \<Rightarrow> (is_ok r, cb'))"

definition hc_admit :: "string \<Rightarrow> int \<Rightarrow> HttpCircuit \<Rightarrow> bool \<times> HttpCircuit" where
  "hc_admit name t c = (case check_circuit name t c of (r, c') \<Rightarrow> (is_ok r, c'))"

lemmas cb_defs = CircuitBreaker_enter_def CircuitBreaker_getState_def CircuitBreaker_transitionTo_def
  CircuitBreaker_onSuccess_def CircuitBreaker_onFailure_def CircuitBreaker_reset_def
  CircuitBreaker_settle_def Let_def

lemmas hc_defs = check_circuit_def record_success_def record_failure_def Http_defaultCircuitOptions_def Let_def

interpretation cb: circuit_breaker cb_state cb_nextAttemptTime "cbo_resetTimeoutMs opts" cb_admit
  "\<lambda>t. CircuitBreaker_onFailure opts t t" for opts
  by unfold_locales (auto simp: cb_admit_def cb_defs)

interpretation hc: circuit_breaker hc_state "\<lambda>c. hc_lastFailureTime c + 30000" 30000 "hc_admit name"
  "record_failure overrides" for name overrides
  by unfold_locales (auto simp: hc_admit_def hc_defs)

section \<open>Lemmas\<close>

lemma calls_admitted:
  assumes "cb_admit t cb = (True, cb1)"
  shows "CircuitBreaker_calls opts ((t, works) # rest) cb =
    map_prod (Cons True) id (CircuitBreaker_calls opts rest
       (if works then CircuitBreaker_onSuccess opts cb1 else CircuitBreaker_onFailure opts t t cb1))"
  using assms
  by (auto simp: cb_admit_def CircuitBreaker_execute_def CircuitBreaker_settle_def split: prod.splits sum.splits)

lemma calls_refused:
  assumes "cb_admit t cb = (False, cb1)"
  shows "CircuitBreaker_calls opts ((t, works) # rest) cb =
    map_prod (Cons False) id (CircuitBreaker_calls opts rest cb1)"
  using assms
  by (auto simp: cb_admit_def CircuitBreaker_execute_def split: prod.splits sum.splits)

declare CircuitBreaker_calls.simps(2) [simp del]

lemma calls_refused_all:
  "cb_state cb = Opened \<Longrightarrow> \<forall>(t, w)\<in>set calls. t < cb_nextAttemptTime cb \<Longrightarrow>
     CircuitBreaker_calls opts calls cb = (replicate (length calls) False, cb)"
proof (induction calls)
  case (Cons q calls)
  obtain t w where q: "q = (t, w)" by (cases q)
  with Cons.prems cb.open_refuses [of cb t] have "cb_admit t cb = (False, cb)" by simp
  with Cons q show ?case by (simp add: calls_refused)
qed simp

text \<open>A run of \<open>k\<close> failures among the outcomes.\<close>

definition failure_run :: "nat \<Rightarrow> bool list \<Rightarrow> bool" where
  "failure_run k outcomes \<longleftrightarrow> sublist (replicate k False) outcomes"

lemma failure_run_short:
  "c < k \<Longrightarrow> \<not> prefix (replicate k False) (replicate c False @ True # xs)"
proof (induction c arbitrary: k)
  case 0
  then show ?case by (cases k) auto
next
  case (Suc c)
  then show ?case by (cases k) auto
qed

lemma failure_run_success:
  "c < k \<Longrightarrow> failure_run k (replicate c False @ True # xs) \<longleftrightarrow> failure_run k xs"
proof (induction c)
  case 0
  then show ?case
    using failure_run_short [of 0 k xs] by (simp add: failure_run_def sublist_Cons_right)
next
  case (Suc c)
  then show ?case
    using failure_run_short [of "Suc c" k xs] by (simp add: failure_run_def sublist_Cons_right)
qed

lemma failure_run_replicate: "failure_run k (replicate c False) \<longleftrightarrow> k \<le> c"
proof
  assume "failure_run k (replicate c False)"
  then show "k \<le> c" unfolding failure_run_def using sublist_length_le by fastforce
next
  assume "k \<le> c"
  then have "replicate c False = replicate k False @ replicate (c - k) False"
    by (metis le_add_diff_inverse replicate_add)
  then show "failure_run k (replicate c False)" by (simp add: failure_run_def)
qed

lemma failure_run_append: "failure_run k xs \<Longrightarrow> failure_run k (xs @ ys)"
  by (simp add: failure_run_def sublist_appendI sublist_append)

text \<open>From a closed breaker that has counted \<open>c\<close> failures.\<close>

lemma trips_from:
  assumes "cb_state cb = Closed" and "cb_failureCount cb = int c" and "int c < cbo_failureThreshold opts"
    and "\<forall>(t, w)\<in>set calls. T \<le> t \<and> t < T + cbo_resetTimeoutMs opts"
    and "k = nat (cbo_failureThreshold opts)"
  shows "fst (CircuitBreaker_calls opts calls cb) =
    map (\<lambda>i. \<not> failure_run k (replicate c False @ map snd (take i calls))) [0..<length calls]"
  using assms
proof (induction calls arbitrary: cb c)
  case Nil
  then show ?case by simp
next
  case (Cons q calls)
  obtain t w where q: "q = (t, w)" by (cases q)
  have times: "T \<le> t" "t < T + cbo_resetTimeoutMs opts"
    "\<forall>(t, w)\<in>set calls. T \<le> t \<and> t < T + cbo_resetTimeoutMs opts"
    using Cons.prems(4) q by auto
  have ck: "c < k" using Cons.prems by simp
  have split: "[0..<length ((t, w) # calls)] = 0 # map Suc [0..<length calls]"
    by (simp add: upt_conv_Cons map_Suc_upt del: upt_Suc)
  have zero: "\<not> failure_run k (replicate c False)" using ck by (simp add: failure_run_replicate)
  have admit: "cb_admit t cb = (True, cb)" using Cons.prems(1) by (rule cb.closed_admits)
  show ?case
  proof (cases w)
    case True
    let ?cb = "CircuitBreaker_onSuccess opts cb"
    have "cb_state ?cb = Closed" "cb_failureCount ?cb = int 0"
      using Cons.prems(1) by (simp_all add: cb_defs)
    from Cons.IH [OF this _ times(3) Cons.prems(5)] Cons.prems(2,3) True ck zero show ?thesis
      unfolding q split
      by (simp add: calls_admitted [OF admit] failure_run_success del: upt_Suc map_Suc_upt)
  next
    case False
    let ?cb = "CircuitBreaker_onFailure opts t t cb"
    have grow: "replicate c False @ False # xs = replicate (Suc c) False @ xs" for xs
      by (simp add: replicate_app_Cons_same)
    show ?thesis
    proof (cases "Suc c < k")
      case True
      then have "cb_state ?cb = Closed" "cb_failureCount ?cb = int (Suc c)" "int (Suc c) < cbo_failureThreshold opts"
        using Cons.prems(1,2,5) by (auto simp add: cb_defs)
      from Cons.IH [OF this times(3) Cons.prems(5)] \<open>\<not> w\<close> zero show ?thesis
        unfolding q split
        by (simp add: calls_admitted [OF admit] grow del: replicate.simps upt_Suc map_Suc_upt)
    next
      case False
      with ck have k: "k = Suc c" by simp
      then have opened: "cb_state ?cb = Opened" "cb_nextAttemptTime ?cb = t + cbo_resetTimeoutMs opts"
        using Cons.prems(1,2,3,5) by (auto simp add: cb_defs)
      with times have "CircuitBreaker_calls opts calls ?cb = (replicate (length calls) False, ?cb)"
        by (intro calls_refused_all) auto
      moreover have "failure_run k (replicate (Suc c) False @ xs)" for xs
        by (rule failure_run_append) (simp add: failure_run_replicate k del: replicate.simps)
      ultimately show ?thesis using \<open>\<not> w\<close> zero
        unfolding q split
        by (simp add: calls_admitted [OF admit] grow map_replicate_const comp_def del: replicate.simps upt_Suc map_Suc_upt)
    qed
  qed
qed

text \<open>The state changes announced to \<open>onStateChange\<close>: each is an allowed transition from the state
  the one before it reached.\<close>

fun change_path :: "CircuitState \<Rightarrow> (CircuitState \<times> CircuitState) list \<Rightarrow> CircuitState \<Rightarrow> bool" where
  "change_path s [] s' = (s = s')"
| "change_path s ((a, b) # r) s' =
     (a = s \<and> (a, b) \<in> {(Closed, Opened), (Opened, HalfOpen), (HalfOpen, Closed), (HalfOpen, Opened)} \<and> change_path b r s')"

lemma change_path_snoc:
  "change_path s (r @ [(a, b)]) s' \<longleftrightarrow>
     change_path s r a \<and> (a, b) \<in> {(Closed, Opened), (Opened, HalfOpen), (HalfOpen, Closed), (HalfOpen, Opened)} \<and> b = s'"
  by (induction s r a rule: change_path.induct) auto

definition breaker_ok :: "CircuitBreakerOptions \<Rightarrow> CircuitBreaker \<Rightarrow> bool" where
  "breaker_ok opts cb \<longleftrightarrow>
     0 \<le> cb_failureCount cb \<and> 0 \<le> cb_successCount cb \<and>
     (cb_state cb = Closed \<longrightarrow> cb_failureCount cb < cbo_failureThreshold opts) \<and>
     (0 < cb_successCount cb \<longrightarrow> cb_state cb = HalfOpen \<and> cb_successCount cb < cbo_successThreshold opts)"

lemma breaker_ok_step:
  assumes "cb_step opts (cb, n) e (cb', n')" and "breaker_ok opts cb" and "0 < cbo_failureThreshold opts"
  shows "breaker_ok opts cb'"
  using assms
  by (elim cb_stepE) (auto simp: breaker_ok_def cb_defs split: if_splits)

lemma changes_step:
  assumes "cb_step opts (cb, n) e (cb', n')" and "e \<noteq> ResetNow" and "change_path Closed (cb_changes cb) (cb_state cb)"
  shows "change_path Closed (cb_changes cb') (cb_state cb')"
  using assms
  by (elim cb_stepE; cases "cb_state cb") (auto simp: cb_defs change_path_snoc split: if_splits)

section \<open>Properties\<close>

text \<open>
  C17. Invariant of \<open>CircuitBreaker\<close>, for every interleaving of overlapping calls, inspections and
  resets of a fresh breaker with a positive threshold: a closed breaker has counted fewer failures than
  its threshold, successes are counted only while half-open and stay below theirs, no count is
  negative; and as long as nobody calls \<open>reset\<close> (which announces nothing), the announced state
  changes form a path of allowed transitions from closed to the present state.
\<close>
theorem CircuitBreaker_invariant:
  assumes "cb_trace opts (CircuitBreaker_new, 0) es (cb, n)" and "0 < cbo_failureThreshold opts"
  shows "0 \<le> cb_failureCount cb \<and> 0 \<le> cb_successCount cb \<and>
    (cb_state cb = Closed \<longrightarrow> cb_failureCount cb < cbo_failureThreshold opts) \<and>
    (0 < cb_successCount cb \<longrightarrow> cb_state cb = HalfOpen \<and> cb_successCount cb < cbo_successThreshold opts) \<and>
    (ResetNow \<notin> set es \<longrightarrow> change_path Closed (cb_changes cb) (cb_state cb))"
proof -
  have "breaker_ok opts (fst c') \<and> (ResetNow \<notin> set es \<longrightarrow> change_path Closed (cb_changes (fst c')) (cb_state (fst c')))"
    if "cb_trace opts c es c'" "c = (CircuitBreaker_new, 0)" for c c' es
    using that
  proof (induction rule: cb_trace.induct)
    case (start c)
    then show ?case using assms(2) by (simp add: breaker_ok_def CircuitBreaker_new_def)
  next
    case (step c es c' e c'')
    then show ?case
      using breaker_ok_step [of opts "fst c'" "snd c'" e "fst c''" "snd c''"] assms(2)
        changes_step [of opts "fst c'" "snd c'" e "fst c''" "snd c''"] by auto
  qed
  from this [OF assms(1)] show ?thesis by (simp add: breaker_ok_def)
qed

theorem CircuitBreaker_invariant_witness:
  "change_path Closed [(Closed, Opened)] Opened"
proof -
  let ?o = "DEFAULT_CIRCUIT_OPTIONS\<lparr>cbo_failureThreshold := 1\<rparr>"
  have 1: "cb_step ?o (CircuitBreaker_new, 0) (Enter 5) (CircuitBreaker_new, 1)"
    by (simp add: cb_step_Enter cb_defs CircuitBreaker_new_def)
  have "cb_trace ?o (CircuitBreaker_new, 0) ([] @ [Enter 5]) (CircuitBreaker_new, 1)"
    by (rule cb_trace.step [OF cb_trace.start 1])
  from cb_trace.step [OF this cb_step.fail [of ?o CircuitBreaker_new 0 6 6, folded One_nat_def]]
  have "cb_trace ?o (CircuitBreaker_new, 0) [Enter 5, Fail 6 6] (CircuitBreaker_onFailure ?o 6 6 CircuitBreaker_new, 0)"
    by simp
  from CircuitBreaker_invariant [OF this] show ?thesis
    by (simp add: DEFAULT_CIRCUIT_OPTIONS_def cb_defs CircuitBreaker_new_def)
qed

text \<open>
  C19. The breaker opens after exactly \<open>failureThreshold\<close> consecutive failures: of calls that do not
  overlap and all fall within one reset timeout, the \<open>i\<close>-th is let through exactly when the outcomes
  of the calls before it hold no run of \<open>failureThreshold\<close> failures.
\<close>
theorem CircuitBreaker_trips_iff:
  assumes "0 < cbo_failureThreshold opts"
    and "\<forall>(t, w)\<in>set calls. T \<le> t \<and> t < T + cbo_resetTimeoutMs opts"
  shows "fst (CircuitBreaker_calls opts calls CircuitBreaker_new) =
    map (\<lambda>i. \<not> failure_run (nat (cbo_failureThreshold opts)) (map snd (take i calls))) [0..<length calls]"
  using trips_from [of CircuitBreaker_new 0 opts calls T] assms by (simp add: CircuitBreaker_new_def)

theorem CircuitBreaker_trips_iff_witness:
  "fst (CircuitBreaker_calls (DEFAULT_CIRCUIT_OPTIONS\<lparr>cbo_failureThreshold := 2\<rparr>)
     [(1, False), (2, True), (3, False), (4, False), (5, True)] CircuitBreaker_new) = [True, True, True, True, False]"
  using CircuitBreaker_trips_iff [where opts = "DEFAULT_CIRCUIT_OPTIONS\<lparr>cbo_failureThreshold := 2\<rparr>" and T = 0
      and calls = "[(1, False), (2, True), (3, False), (4, False), (5, True)]"]
  by (simp add: DEFAULT_CIRCUIT_OPTIONS_def failure_run_def sublist_Cons_right numeral_2_eq_2 upt_rec)

text \<open>Successful probes of a half-open breaker, fewer than it wants.\<close>

lemma probes_counted:
  "cb_state cb = HalfOpen \<Longrightarrow> cb_successCount cb + int (length ts) < cbo_successThreshold opts \<Longrightarrow>
     CircuitBreaker_calls opts (map (\<lambda>t. (t, True)) ts @ rest) cb =
     map_prod ((@) (replicate (length ts) True)) id (CircuitBreaker_calls opts rest
       (cb\<lparr>cb_successCount := cb_successCount cb + int (length ts)\<rparr>))"
proof (induction ts arbitrary: cb)
  case Nil
  then show ?case by (cases "CircuitBreaker_calls opts rest cb") simp
next
  case (Cons t ts)
  let ?cb = "cb\<lparr>cb_successCount := cb_successCount cb + 1\<rparr>"
  have "CircuitBreaker_onSuccess opts cb = ?cb" using Cons.prems by (simp add: cb_defs)
  moreover have "cb_admit t cb = (True, cb)" using Cons.prems(1) by (rule cb.half_open_admits)
  ultimately show ?case
    using Cons.IH [of ?cb] Cons.prems
    by (cases "CircuitBreaker_calls opts rest (cb\<lparr>cb_successCount := cb_successCount cb + int (length ts) + 1\<rparr>)")
      (simp add: calls_admitted add_ac)
qed

lemma first_probe:
  assumes "cb_state cb = Opened" and "cb_nextAttemptTime cb \<le> t"
  shows "cb_admit t cb = (True, CircuitBreaker_transitionTo HalfOpen cb)"
  using assms by (simp add: cb_admit_def cb_defs)

lemma calls_probe:
  assumes "cb_state cb = Opened" and "cb_nextAttemptTime cb \<le> t"
  shows "CircuitBreaker_calls opts ((t, w) # rest) cb =
    CircuitBreaker_calls opts ((t, w) # rest) (CircuitBreaker_transitionTo HalfOpen cb)"
proof -
  have "cb_admit t (CircuitBreaker_transitionTo HalfOpen cb) = (True, CircuitBreaker_transitionTo HalfOpen cb)"
    by (rule cb.half_open_admits) (simp add: CircuitBreaker_transitionTo_def)
  then show ?thesis by (simp add: calls_admitted first_probe [OF assms])
qed

text \<open>
  C28. Recovery: once the reset timeout of an open breaker is over, \<open>successThreshold\<close> calls that succeed
  are all let through and leave it closed with its counters at zero; a call that fails after fewer
  successes opens it again, and then every call before a further reset timeout is refused.
\<close>
theorem CircuitBreaker_recovers:
  assumes "cb_state cb = Opened" and "cb_successCount cb = 0"
    and "ts \<noteq> []" and "int (length ts) = cbo_successThreshold opts"
    and "\<forall>t\<in>set ts. cb_nextAttemptTime cb \<le> t"
  shows "(case CircuitBreaker_calls opts (map (\<lambda>t. (t, True)) ts) cb of
      (lets, cb') \<Rightarrow> lets = replicate (length ts) True \<and> cb_state cb' = Closed \<and>
        cb_failureCount cb' = 0 \<and> cb_successCount cb' = 0) \<and>
    (\<forall>i<length ts. \<forall>t. cb_nextAttemptTime cb \<le> t \<longrightarrow>
      (case CircuitBreaker_calls opts (map (\<lambda>t. (t, True)) (take i ts) @ [(t, False)]) cb of
        (lets, cb') \<Rightarrow> lets = replicate (Suc i) True \<and> cb_state cb' = Opened \<and>
          (\<forall>us. (\<forall>u\<in>set us. u < t + cbo_resetTimeoutMs opts) \<longrightarrow>
            fst (admissions cb_admit us cb') = replicate (length us) False)))"
proof (intro conjI allI impI)
  let ?h = "CircuitBreaker_transitionTo HalfOpen cb"
  have h: "cb_state ?h = HalfOpen" "cb_successCount ?h = 0"
    using assms(2) by (simp_all add: CircuitBreaker_transitionTo_def)
  obtain us u where ts: "ts = us @ [u]" using assms(3) by (metis append_butlast_last_id)
  have half: "CircuitBreaker_calls opts calls cb = CircuitBreaker_calls opts calls ?h"
    if "calls \<noteq> []" "cb_nextAttemptTime cb \<le> fst (hd calls)" for calls
    using that calls_probe [OF assms(1)] by (cases calls) auto
  have "CircuitBreaker_calls opts (map (\<lambda>t. (t, True)) ts) cb = CircuitBreaker_calls opts (map (\<lambda>t. (t, True)) ts) ?h"
    using assms(3,5) by (intro half) (auto simp: hd_map)
  also have "\<dots> = map_prod ((@) (replicate (length us) True)) id
      (CircuitBreaker_calls opts [(u, True)] (?h\<lparr>cb_successCount := int (length us)\<rparr>))"
    using probes_counted [of ?h us opts "[(u, True)]"] h assms(4) ts by simp
  also have "CircuitBreaker_calls opts [(u, True)] (?h\<lparr>cb_successCount := int (length us)\<rparr>) =
      ([True], CircuitBreaker_onSuccess opts (?h\<lparr>cb_successCount := int (length us)\<rparr>))"
    using cb.half_open_admits [of "?h\<lparr>cb_successCount := int (length us)\<rparr>" u] h by (simp add: calls_admitted)
  finally show "case CircuitBreaker_calls opts (map (\<lambda>t. (t, True)) ts) cb of
      (lets, cb') \<Rightarrow> lets = replicate (length ts) True \<and> cb_state cb' = Closed \<and>
        cb_failureCount cb' = 0 \<and> cb_successCount cb' = 0"
    using h assms(4) by (simp add: ts cb_defs replicate_append_same)
  fix i t
  assume i: "i < length ts" and t: "cb_nextAttemptTime cb \<le> t"
  let ?g = "?h\<lparr>cb_successCount := int i\<rparr>"
  have g: "cb_state ?g = HalfOpen" using h by simp
  have "CircuitBreaker_calls opts (map (\<lambda>t. (t, True)) (take i ts) @ [(t, False)]) cb =
      CircuitBreaker_calls opts (map (\<lambda>t. (t, True)) (take i ts) @ [(t, False)]) ?h"
    using assms(3,5) t by (intro half) (cases i; cases ts; auto)+
  also have "\<dots> = map_prod ((@) (replicate i True)) id (CircuitBreaker_calls opts [(t, False)] ?g)"
    using probes_counted [of ?h "take i ts" opts "[(t, False)]"] h assms(4) i by (simp add: min_def)
  also have "CircuitBreaker_calls opts [(t, False)] ?g = ([True], CircuitBreaker_onFailure opts t t ?g)"
    using cb.half_open_admits [OF g, of t] by (simp add: calls_admitted)
  finally show "case CircuitBreaker_calls opts (map (\<lambda>t. (t, True)) (take i ts) @ [(t, False)]) cb of
      (lets, cb') \<Rightarrow> lets = replicate (Suc i) True \<and> cb_state cb' = Opened \<and>
          (\<forall>us. (\<forall>u\<in>set us. u < t + cbo_resetTimeoutMs opts) \<longrightarrow>
            fst (admissions cb_admit us cb') = replicate (length us) False)"
    using cb.half_open_fails [OF g, of opts t] cb.failed_probe_refuses [OF g, of _ t opts]
    by (auto simp: replicate_append_same)
qed

theorem CircuitBreaker_recovers_witness:
  "cb_state (snd (CircuitBreaker_calls (DEFAULT_CIRCUIT_OPTIONS\<lparr>cbo_successThreshold := 2\<rparr>)
     [(100, True), (200, True)] (CircuitBreaker_new\<lparr>cb_state := Opened, cb_nextAttemptTime := 50\<rparr>))) = Closed"
  using CircuitBreaker_recovers [where opts = "DEFAULT_CIRCUIT_OPTIONS\<lparr>cbo_successThreshold := 2\<rparr>" and ts = "[100, 200]"
      and cb = "CircuitBreaker_new\<lparr>cb_state := Opened, cb_nextAttemptTime := 50\<rparr>"]
  by (auto simp add: DEFAULT_CIRCUIT_OPTIONS_def CircuitBreaker_new_def split: prod.splits)

text \<open>
  Half-open is not a limited trial in either breaker: after the reset timeout of an open one, any
  number of further calls is let through before the first of them has settled.
\<close>
theorem half_open_unlimited:
  assumes "cb_state cb = Opened" and "cb_nextAttemptTime cb \<le> t"
    and "hc_state hc = Opened" and "hc_lastFailureTime hc + 30000 \<le> t"
  shows "fst (admissions cb_admit (t # ts) cb) = replicate (Suc (length ts)) True \<and>
    fst (admissions (hc_admit name) (t # ts) hc) = replicate (Suc (length ts)) True"
  using cb.probes_unlimited [OF assms(1,2)] hc.probes_unlimited [OF assms(3,4)] by blast

theorem half_open_unlimited_witness:
  "fst (admissions cb_admit [9, 9, 9, 9, 9] (CircuitBreaker_new\<lparr>cb_state := Opened, cb_nextAttemptTime := 7\<rparr>)) =
     replicate 5 True"
  using half_open_unlimited [where cb = "CircuitBreaker_new\<lparr>cb_state := Opened, cb_nextAttemptTime := 7\<rparr>" and t = 9
      and ts = "[9, 9, 9, 9]" and hc = "\<lparr>hc_state = Opened, hc_failures = 5, hc_lastFailureTime = -30000,
        hc_halfOpenAttempts = 0, hc_successes = 0\<rparr>" and name = "''api''"]
  by (simp add: numeral_eq_Suc)

end
