(* ===== verification/RetryLoop.thy ===== *)
theory RetryLoop
  imports Main
begin

text \<open>
  The contract of a bounded retry loop, which three parts of the source write out on their own:
  \<open>retry\<close> (\<open>src/common/utils/async.util.ts\<close>), \<open>HttpClientService.request\<close> and \<open>EmailService.send\<close>.
  Attempts are counted from zero. \<open>out k\<close> is the outcome of the \<open>k\<close>-th call, \<open>settled\<close> says which
  outcomes end the loop, \<open>err\<close> is what the loop remembers of a failure, \<open>pause k\<close> what it does between
  the \<open>k\<close>-th attempt and the next, and \<open>at_call k s\<close> that the state has seen \<open>k\<close> calls.
\<close>

text \<open>A callee that gives \<open>out k\<close> at its \<open>k\<close>-th call; its state counts the calls.\<close>

definition nth_call :: "(nat \<Rightarrow> 'o) \<Rightarrow> nat \<Rightarrow> 'o \<times> nat" where
  "nth_call out k = (out k, Suc k)"

locale retry_loop =
  fixes n :: nat
    and out :: "nat \<Rightarrow> 'o"
    and settled :: "'o \<Rightarrow> bool"
    and err :: "'o \<Rightarrow> 'x"
    and at_call :: "nat \<Rightarrow> 's \<Rightarrow> bool"
    and exhausted :: "'x option \<Rightarrow> 'res"
    and result :: "'o \<Rightarrow> 'res"
    and pause :: "nat \<Rightarrow> 'd"
    and loop :: "nat \<Rightarrow> 'x option \<Rightarrow> 's \<Rightarrow> ('res \<times> 'd list) \<times> 's"
  assumes stops: "n \<le> k \<Longrightarrow> at_call k s \<Longrightarrow> loop k le s = ((exhausted le, []), s)"
    and ends: "k < n \<Longrightarrow> at_call k s \<Longrightarrow> settled (out k) \<Longrightarrow>
      \<exists>s'. at_call (Suc k) s' \<and> loop k le s = ((result (out k), []), s')"
    and goes_on: "k < n \<Longrightarrow> at_call k s \<Longrightarrow> \<not> settled (out k) \<Longrightarrow>
      \<exists>s'. at_call (Suc k) s' \<and> loop k le s =
        map_prod (map_prod id ((@) (if Suc k < n then [pause k] else []))) id (loop (Suc k) (Some (err (out k))) s')"
begin

lemma loop_from:
  "k \<le> n \<Longrightarrow> at_call k s \<Longrightarrow>
     \<exists>s'. at_call (case find (\<lambda>i. settled (out i)) [k..<n] of Some i \<Rightarrow> Suc i | None \<Rightarrow> n) s' \<and>
       loop k le s =
         (((case find (\<lambda>i. settled (out i)) [k..<n] of
              Some i \<Rightarrow> result (out i)
            | None \<Rightarrow> exhausted (if k = n then le else Some (err (out (n - 1))))),
           map pause [k..<(case find (\<lambda>i. settled (out i)) [k..<n] of Some i \<Rightarrow> i | None \<Rightarrow> n - 1)]), s')"
proof (induction "n - k" arbitrary: k le s)
  case 0
  then show ?case using stops by auto
next
  case (Suc m)
  then have kn: "k < n" "m = n - Suc k" "Suc k \<le> n" by auto
  have upt: "[k..<n] = k # [Suc k..<n]" using kn(1) by (rule upt_conv_Cons)
  show ?case
  proof (cases "settled (out k)")
    case True
    from ends [OF kn(1) Suc.prems(2) True, of le] True show ?thesis
      by (auto simp: upt)
  next
    case False
    from goes_on [OF kn(1) Suc.prems(2) False, of le] obtain s1 where s1: "at_call (Suc k) s1"
      and eq: "loop k le s = map_prod (map_prod id ((@) (if Suc k < n then [pause k] else []))) id
        (loop (Suc k) (Some (err (out k))) s1)" by blast
    define f where "f = find (\<lambda>i. settled (out i)) [Suc k..<n]"
    have f: "find (\<lambda>i. settled (out i)) [k..<n] = f" using False by (simp add: upt f_def)
    have bound: "f = Some i \<Longrightarrow> Suc k \<le> i \<and> i < n" for i
      unfolding f_def find_Some_iff by (auto simp: less_diff_conv)
    from Suc.hyps(1) [OF kn(2,3) s1, of "Some (err (out k))"] obtain s' where
      s': "at_call (case f of Some i \<Rightarrow> Suc i | None \<Rightarrow> n) s'" and
      ih: "loop (Suc k) (Some (err (out k))) s1 =
        (((case f of Some i \<Rightarrow> result (out i)
           | None \<Rightarrow> exhausted (if Suc k = n then Some (err (out k)) else Some (err (out (n - 1))))),
          map pause [Suc k..<(case f of Some i \<Rightarrow> i | None \<Rightarrow> n - 1)]), s')"
      unfolding f_def by blast
    have "loop k le s =
         (((case f of Some i \<Rightarrow> result (out i) | None \<Rightarrow> exhausted (if k = n then le else Some (err (out (n - 1))))),
           map pause [k..<(case f of Some i \<Rightarrow> i | None \<Rightarrow> n - 1)]), s')"
    proof (cases f)
      case None
      then show ?thesis using kn(1) by (cases "Suc k = n") (auto simp: eq ih upt_rec [of k])
    next
      case (Some i)
      with bound [of i] have "Suc k \<le> i" "Suc k < n" "[k..<i] = k # [Suc k..<i]"
        by (auto simp: upt_conv_Cons)
      with Some show ?thesis by (simp add: eq ih)
    qed
    with s' show ?thesis unfolding f by blast
  qed
qed

end

end
