(* ===== verification/HttpClient.thy ===== *)
theory HttpClient
  imports CircuitBreaker RetryLoop Complex_Main
begin

text \<open>
  \<open>src/infrastructure/external-services/http-client.service.ts\<close>: the named clients and their circuits,
  error classification, back-off, and \<open>request\<close> with its retry loop. Axios is a parameter: \<open>send\<close> is one
  \<open>client.request(config)\<close> with the interceptors left out, which the model adds (\<open>http_send\<close>). Logging is
  left out. \<open>clk k\<close> is the \<open>k\<close>-th reading of \<open>Date.now()\<close> that reaches a circuit, \<open>rnd k\<close> the \<open>Math.random()\<close>
  of the \<open>k\<close>-th attempt; delays are rationals (JavaScript numbers without their rounding).
\<close>

text \<open>What the code reads of an \<open>AxiosError\<close>.\<close>

record AxiosError =
  ax_status :: "int option"
  ax_code :: "string option"
  ax_message :: "string option"

definition RETRYABLE_STATUS_CODES :: "int list" where
  "RETRYABLE_STATUS_CODES = [408, 429, 500, 502, 503, 504]"

definition RETRYABLE_ERROR_CODES :: "string list" where
  "RETRYABLE_ERROR_CODES =
     [''ECONNABORTED'', ''ECONNREFUSED'', ''ECONNRESET'', ''ETIMEDOUT'', ''ENOTFOUND'', ''ENETUNREACH'']"

definition Http_isRetryableError :: "AxiosError \<Rightarrow> bool" where
  "Http_isRetryableError error =
     (if (case ax_status error of Some s \<Rightarrow> s \<noteq> 0 \<and> s \<in> set RETRYABLE_STATUS_CODES | None \<Rightarrow> False) then True
      else if (case ax_code error of Some c \<Rightarrow> c \<noteq> [] \<and> c \<in> set RETRYABLE_ERROR_CODES | None \<Rightarrow> False) then True
      else if (case ax_message error of Some m \<Rightarrow> str_includes (str_lower m) ''timeout'' | None \<Rightarrow> False) then True
      else False)"

definition Http_calculateBackoff :: "nat \<Rightarrow> rat \<Rightarrow> rat \<Rightarrow> rat" where
  "Http_calculateBackoff attempt baseDelay rnd =
     (let exponential = 2 ^ (attempt - 1) * baseDelay;
          jitter = rnd * baseDelay * (1 / 2)
      in min (exponential + jitter) 30000)"

record HttpClientOptions =
  ho_baseURL :: "string option"
  ho_timeout :: "int option"
  ho_failureThreshold :: "int option"
  ho_headers :: "(string \<times> string) list"

text \<open>The Axios instance: its configuration, and the threshold its response interceptor closes over.\<close>

record AxiosInstance =
  ai_baseURL :: "string option"
  ai_timeout :: int
  ai_headers :: "(string \<times> string) list"
  ai_failureThreshold :: "int option"

record HttpClientService =
  hs_clients :: "string \<rightharpoonup> AxiosInstance"
  hs_circuits :: circuits

definition HttpClientService_new :: HttpClientService where
  "HttpClientService_new = \<lparr>hs_clients = Map.empty, hs_circuits = Map.empty\<rparr>"

definition Http_onModuleDestroy :: "HttpClientService \<Rightarrow> HttpClientService" where
  "Http_onModuleDestroy s = s\<lparr>hs_clients := Map.empty, hs_circuits := Map.empty\<rparr>"

definition no_options :: HttpClientOptions where
  "no_options = \<lparr>ho_baseURL = None, ho_timeout = None, ho_failureThreshold = None, ho_headers = []\<rparr>"

definition Http_getClient :: "string \<Rightarrow> HttpClientOptions \<Rightarrow> HttpClientService \<Rightarrow> AxiosInstance \<times> HttpClientService" where
  "Http_getClient name options s =
     (case hs_clients s name of
        Some client \<Rightarrow> (client, s)
      | None \<Rightarrow>
          let client = \<lparr>ai_baseURL = ho_baseURL options,
                ai_timeout = (case ho_timeout options of Some t \<Rightarrow> t | None \<Rightarrow> 10000),
                ai_headers = foldl (\<lambda>hs (k, v). obj_put k v hs)
                  [(''Content-Type'', ''application/json''), (''User-Agent'', ''enterprise-system/1.0'')] (ho_headers options),
                ai_failureThreshold = ho_failureThreshold options\<rparr>
          in (client, s\<lparr>hs_clients := (hs_clients s)(name \<mapsto> client),
                        hs_circuits := Http_initCircuit name (hs_circuits s)\<rparr>))"

text \<open>One request through the response interceptors: the circuit learns of the outcome first.\<close>

definition http_send ::
  "('c \<Rightarrow> ('w, AxiosError, 'r) proc) \<Rightarrow> string \<Rightarrow> AxiosInstance \<Rightarrow> 'c \<Rightarrow> int \<Rightarrow>
     (HttpClientService \<times> 'w, AxiosError, 'r) proc" where
  "http_send send name client config now = (\<lambda>(s, w).
     case send config w of
       (Inr response, w') \<Rightarrow> (Inr response, s\<lparr>hs_circuits := Http_recordSuccess name now (hs_circuits s)\<rparr>, w')
     | (Inl error, w') \<Rightarrow>
         (Inl error, (if Http_isRetryableError error
           then s\<lparr>hs_circuits := Http_recordFailure name (ai_failureThreshold client) now (hs_circuits s)\<rparr> else s), w'))"

text \<open>What \<open>request\<close> throws: the circuit's \<open>Error\<close>, an Axios error, or \<open>null\<close>.\<close>

datatype http_thrown = Circuit exn | Axios AxiosError | ThrownNull

text \<open>The retry loop from an attempt on; the list is what \<open>sleep\<close> was called with.\<close>

function http_attempts ::
  "('c \<Rightarrow> ('w, AxiosError, 'r) proc) \<Rightarrow> string \<Rightarrow> AxiosInstance \<Rightarrow> 'c \<Rightarrow> int \<Rightarrow> rat \<Rightarrow> (nat \<Rightarrow> int) \<Rightarrow> (nat \<Rightarrow> rat) \<Rightarrow>
     nat \<Rightarrow> AxiosError option \<Rightarrow> HttpClientService \<times> 'w \<Rightarrow> ((http_thrown + 'r) \<times> rat list) \<times> HttpClientService \<times> 'w" where
  "http_attempts send name client config maxRetries retryDelay clk rnd attempt lastError st =
     (if maxRetries < int attempt
      then ((Inl (case lastError of Some e \<Rightarrow> Axios e | None \<Rightarrow> ThrownNull), []), st)
      else (case http_send send name client config (clk attempt) st of
              (Inr response, st') \<Rightarrow> ((Inr response, []), st')
            | (Inl error, st') \<Rightarrow>
                if \<not> Http_isRetryableError error then ((Inl (Axios error), []), st')
                else (case http_attempts send name client config maxRetries retryDelay clk rnd (Suc attempt) (Some error) st' of
                        ((r, ds), st'') \<Rightarrow>
                          ((r, (if int attempt < maxRetries
                                then [Http_calculateBackoff attempt retryDelay (rnd attempt)] else []) @ ds), st''))))"
  by pat_completeness auto
termination
  by (relation "measure (\<lambda>(send, name, client, config, maxRetries, retryDelay, clk, rnd, attempt, e, st).
        nat (maxRetries + 1 - int attempt))") auto

declare http_attempts.simps [simp del]

definition Http_request ::
  "('c \<Rightarrow> ('w, AxiosError, 'r) proc) \<Rightarrow> string \<Rightarrow> 'c \<Rightarrow> int option \<Rightarrow> rat option \<Rightarrow> (nat \<Rightarrow> int) \<Rightarrow> (nat \<Rightarrow> rat) \<Rightarrow>
     HttpClientService \<times> 'w \<Rightarrow> ((http_thrown + 'r) \<times> rat list) \<times> HttpClientService \<times> 'w" where
  "Http_request send clientName config retries retryDelay clk rnd = (\<lambda>(s, w).
     case Http_checkCircuit clientName (clk 0) (hs_circuits s) of
       (Inl e, cs) \<Rightarrow> ((Inl (Circuit e), []), s\<lparr>hs_circuits := cs\<rparr>, w)
     | (Inr _, cs) \<Rightarrow>
         (case Http_getClient clientName no_options (s\<lparr>hs_circuits := cs\<rparr>) of
            (client, s') \<Rightarrow>
              http_attempts send clientName client config
                (case retries of Some n \<Rightarrow> n | None \<Rightarrow> 3) (case retryDelay of Some d \<Rightarrow> d | None \<Rightarrow> 1000)
                clk rnd 1 None (s', w)))"

text \<open>\<open>get\<close> and \<open>post\<close>: \<open>{ ...config, method, url, data }\<close> over an empty or given configuration.\<close>

record AxiosRequestConfig =
  rc_method :: "string option"
  rc_url :: "string option"
  rc_data :: "json option"
  rc_headers :: "(string \<times> string) list"

definition no_config :: AxiosRequestConfig where
  "no_config = \<lparr>rc_method = None, rc_url = None, rc_data = None, rc_headers = []\<rparr>"

definition Http_get ::
  "(AxiosRequestConfig \<Rightarrow> ('w, AxiosError, 'r) proc) \<Rightarrow> string \<Rightarrow> string \<Rightarrow> AxiosRequestConfig option \<Rightarrow>
     (nat \<Rightarrow> int) \<Rightarrow> (nat \<Rightarrow> rat) \<Rightarrow> HttpClientService \<times> 'w \<Rightarrow> ((http_thrown + 'r) \<times> rat list) \<times> HttpClientService \<times> 'w" where
  "Http_get send clientName url config clk rnd =
     Http_request send clientName
       ((case config of Some c \<Rightarrow> c | None \<Rightarrow> no_config)\<lparr>rc_method := Some ''GET'', rc_url := Some url\<rparr>)
       None None clk rnd"

definition Http_post ::
  "(AxiosRequestConfig \<Rightarrow> ('w, AxiosError, 'r) proc) \<Rightarrow> string \<Rightarrow> string \<Rightarrow> json option \<Rightarrow> AxiosRequestConfig option \<Rightarrow>
     (nat \<Rightarrow> int) \<Rightarrow> (nat \<Rightarrow> rat) \<Rightarrow> HttpClientService \<times> 'w \<Rightarrow> ((http_thrown + 'r) \<times> rat list) \<times> HttpClientService \<times> 'w" where
  "Http_post send clientName url data config clk rnd =
     Http_request send clientName
       ((case config of Some c \<Rightarrow> c | None \<Rightarrow> no_config)\<lparr>rc_method := Some ''POST'', rc_url := Some url, rc_data := data\<rparr>)
       None None clk rnd"

section \<open>When a circuit opens\<close>

text \<open>Requests that do not overlap, one attempt each, and whether they succeed or fail retryably.\<close>

fun Http_calls :: "string \<Rightarrow> int option \<Rightarrow> (int \<times> bool) list \<Rightarrow> HttpCircuit \<Rightarrow> bool list \<times> HttpCircuit" where
  "Http_calls name overrides [] c = ([], c)"
| "Http_calls name overrides ((t, works) # rest) c =
     (case hc_admit name t c of
        (False, c') \<Rightarrow> map_prod (Cons False) id (Http_calls name overrides rest c')
      | (True, c') \<Rightarrow> map_prod (Cons True) id (Http_calls name overrides rest
          (if works then record_success t c' else record_failure overrides t c')))"

text \<open>By how much the failures exceed the successes, and the level a counter floored at zero reaches.\<close>

definition excess :: "bool list \<Rightarrow> int" where
  "excess outcomes = int (count_list outcomes False) - int (count_list outcomes True)"

definition overload :: "int \<Rightarrow> bool list \<Rightarrow> bool" where
  "overload k outcomes \<longleftrightarrow> (\<exists>stretch. sublist stretch outcomes \<and> k \<le> excess stretch)"

fun level_from :: "int \<Rightarrow> bool list \<Rightarrow> int" where
  "level_from f [] = f"
| "level_from f (b # bs) = level_from (if b then max 0 (f - 1) else f + 1) bs"

lemma excess_simps [simp]:
  "excess [] = 0"
  "excess (b # bs) = (if b then excess bs - 1 else excess bs + 1)"
  "excess (xs @ ys) = excess xs + excess ys"
  by (simp_all add: excess_def)

lemma level_from_snoc: "level_from f (bs @ [b]) = (if b then max 0 (level_from f bs - 1) else level_from f bs + 1)"
  by (induction f bs rule: level_from.induct) auto

lemma level_ge0: "0 \<le> f \<Longrightarrow> 0 \<le> level_from f bs"
  by (induction f bs rule: level_from.induct) auto

lemma level_suffix: "0 < k \<Longrightarrow> k \<le> level_from 0 bs \<longleftrightarrow> (\<exists>s. suffix s bs \<and> k \<le> excess s)"
proof (induction bs arbitrary: k rule: rev_induct)
  case Nil
  then show ?case by simp
next
  case (snoc b bs)
  have "(\<exists>s. suffix s (bs @ [b]) \<and> k \<le> excess s) \<longleftrightarrow> (\<exists>s. suffix s bs \<and> k \<le> excess (s @ [b]))"
  proof
    assume "\<exists>s. suffix s (bs @ [b]) \<and> k \<le> excess s"
    then obtain s where s: "suffix s (bs @ [b])" "k \<le> excess s" by blast
    have "s \<noteq> []" using s(2) snoc.prems by auto
    with s(1) obtain t where "s = t @ [b]" "suffix t bs" by (auto simp: suffix_snoc)
    with s(2) show "\<exists>s. suffix s bs \<and> k \<le> excess (s @ [b])" by blast
  next
    assume "\<exists>s. suffix s bs \<and> k \<le> excess (s @ [b])"
    then obtain s where "suffix s bs" "k \<le> excess (s @ [b])" by blast
    then have "suffix (s @ [b]) (bs @ [b])" "k \<le> excess (s @ [b])" by auto
    then show "\<exists>s. suffix s (bs @ [b]) \<and> k \<le> excess s" by blast
  qed
  also have "\<dots> \<longleftrightarrow> k \<le> level_from 0 (bs @ [b])"
  proof (cases b)
    case True
    then show ?thesis using snoc.IH [of "k + 1"] snoc.prems
      by (auto simp: level_from_snoc)
  next
    case False
    have "(\<exists>s. suffix s bs \<and> k \<le> excess s + 1) \<longleftrightarrow> k \<le> level_from 0 bs + 1"
    proof (cases "k = 1")
      case True
      have "suffix [] bs \<and> k \<le> excess [] + 1" using True by simp
      moreover have "k \<le> level_from 0 bs + 1" using True level_ge0 [of 0 bs] by simp
      ultimately show ?thesis by blast
    next
      case False
      with snoc.IH [of "k - 1"] snoc.prems show ?thesis by (simp add: diff_le_eq)
    qed
    then show ?thesis using False by (simp add: level_from_snoc)
  qed
  finally show ?case by simp
qed

lemma overload_iff:
  "0 < k \<Longrightarrow> overload k bs \<longleftrightarrow> (\<exists>j\<le>length bs. k \<le> level_from 0 (take j bs))"
proof
  assume k: "0 < k" and "overload k bs"
  then obtain s where "sublist s bs" "k \<le> excess s" by (auto simp: overload_def)
  then obtain p t where "prefix p bs" "suffix s p" by (metis prefixI sublist_def suffixI append.assoc)
  then have "p = take (length p) bs" "length p \<le> length bs" by (auto simp: prefix_def)
  moreover have "k \<le> level_from 0 p" using level_suffix [OF k, of p] \<open>suffix s p\<close> \<open>k \<le> excess s\<close> by blast
  ultimately show "\<exists>j\<le>length bs. k \<le> level_from 0 (take j bs)" by metis
next
  assume k: "0 < k" and "\<exists>j\<le>length bs. k \<le> level_from 0 (take j bs)"
  then obtain j s where "suffix s (take j bs)" "k \<le> excess s" using level_suffix [OF k] by blast
  then show "overload k bs"
    unfolding overload_def by (meson sublist_order.order_trans sublist_take suffix_imp_sublist)
qed

lemma Http_calls_refused:
  "hc_state c = Opened \<Longrightarrow> \<forall>(t, w)\<in>set calls. t < hc_lastFailureTime c + 30000 \<Longrightarrow>
     Http_calls name overrides calls c = (replicate (length calls) False, c)"
proof (induction calls)
  case (Cons q calls)
  obtain t w where q: "q = (t, w)" by (cases q)
  with Cons.prems hc.open_refuses [of c t name] have "hc_admit name t c = (False, c)" by simp
  with Cons q show ?case by simp
qed simp

lemma Http_trips_from:
  assumes "hc_state c = Closed" and "0 \<le> hc_failures c" and "hc_failures c < k"
    and "hc_failures c = 0 \<or> T \<le> hc_lastFailureTime c"
    and "\<forall>(t, w)\<in>set calls. T \<le> t \<and> t < T + 30000"
    and "k = (case overrides of Some k \<Rightarrow> k | None \<Rightarrow> 5)"
  shows "fst (Http_calls name overrides calls c) =
    map (\<lambda>i. \<not> (\<exists>j\<le>i. k \<le> level_from (hc_failures c) (take j (map snd calls)))) [0..<length calls]"
  using assms
proof (induction calls arbitrary: c)
  case Nil
  then show ?case by simp
next
  case (Cons q calls)
  obtain t w where q: "q = (t, w)" by (cases q)
  have times: "T \<le> t" "t < T + 30000" "\<forall>(t, w)\<in>set calls. T \<le> t \<and> t < T + 30000"
    using Cons.prems(5) q by auto
  have admit: "hc_admit name t c = (True, c)" using Cons.prems(1) by (rule hc.closed_admits)
  define c' where "c' = (if w then record_success t c else record_failure overrides t c)"
  define f' where "f' = (if w then max 0 (hc_failures c - 1) else hc_failures c + 1)"
  have "hc_failures c' = f'" "0 \<le> f'"
    using Cons.prems(1,2,4) times by (auto simp: c'_def f'_def hc_defs)
  have split: "[0..<length ((t, w) # calls)] = 0 # map Suc [0..<length calls]"
    by (simp add: upt_conv_Cons map_Suc_upt del: upt_Suc)
  have shift: "(\<exists>j\<le>Suc i. k \<le> level_from (hc_failures c) (take j (w # os))) \<longleftrightarrow>
      (\<exists>j\<le>i. k \<le> level_from f' (take j os))" for i os
  proof
    assume "\<exists>j\<le>Suc i. k \<le> level_from (hc_failures c) (take j (w # os))"
    then obtain j where "j \<le> Suc i" "k \<le> level_from (hc_failures c) (take j (w # os))" by blast
    with Cons.prems(3) show "\<exists>j\<le>i. k \<le> level_from f' (take j os)"
      by (cases j) (auto simp: f'_def)
  next
    assume "\<exists>j\<le>i. k \<le> level_from f' (take j os)"
    then obtain j where "j \<le> i" "k \<le> level_from f' (take j os)" by blast
    then have "Suc j \<le> Suc i \<and> k \<le> level_from (hc_failures c) (take (Suc j) (w # os))"
      by (simp add: f'_def)
    then show "\<exists>j\<le>Suc i. k \<le> level_from (hc_failures c) (take j (w # os))" by blast
  qed
  then have shift': "(\<forall>j\<le>Suc i. \<not> k \<le> level_from (hc_failures c) (take j (w # os))) \<longleftrightarrow>
      (\<forall>j\<le>i. \<not> k \<le> level_from f' (take j os))" for i os
    by blast
  have "fst (Http_calls name overrides calls c') =
      map (\<lambda>i. \<not> (\<exists>j\<le>i. k \<le> level_from f' (take j (map snd calls)))) [0..<length calls]"
  proof (cases "f' < k")
    case True
    then have "hc_state c' = Closed" "hc_failures c' = 0 \<or> T \<le> hc_lastFailureTime c'"
      using Cons.prems(1,2,3,4,6) times
      by (cases w; auto simp: c'_def f'_def hc_defs split: option.splits)+
    with Cons.IH [of c'] True \<open>hc_failures c' = f'\<close> \<open>0 \<le> f'\<close> times(3) Cons.prems(6) show ?thesis by simp
  next
    case False
    then have "\<not> w" using Cons.prems(2,3) by (auto simp: f'_def split: if_splits)
    then have "hc_state c' = Opened" "hc_lastFailureTime c' = t"
      using False Cons.prems(1,6) by (auto simp: c'_def f'_def hc_defs split: option.splits)
    then have "fst (Http_calls name overrides calls c') = replicate (length calls) False"
      using times by (subst Http_calls_refused) auto
    moreover have "\<exists>j\<le>i. k \<le> level_from f' (take j os)" for i os
      using False by (intro exI [of _ 0]) simp
    ultimately show ?thesis by (simp add: map_replicate_const)
  qed
  with Cons.prems(3) show ?case
    unfolding q split by (simp add: admit shift' c'_def [symmetric] comp_def del: upt_Suc map_Suc_upt take_Suc_Cons level_from.simps(2))
qed

section \<open>The retry loop\<close>

text \<open>An answer ends the loop; so does an error that is not retryable.\<close>

fun http_settled :: "AxiosError + 'r \<Rightarrow> bool" where
  "http_settled (Inr response) = True"
| "http_settled (Inl error) = (\<not> Http_isRetryableError error)"

fun http_result :: "AxiosError + 'r \<Rightarrow> http_thrown + 'r" where
  "http_result (Inr response) = Inr response"
| "http_result (Inl error) = Inl (Axios error)"

text \<open>A server that answers its \<open>k\<close>-th request with \<open>out k\<close>.\<close>

definition scripted :: "(nat \<Rightarrow> 'e + 'r) \<Rightarrow> 'c \<Rightarrow> (nat, 'e, 'r) proc" where
  "scripted out config = nth_call out"

lemma http_send_scripted:
  "snd st = k \<Longrightarrow> \<exists>st'. snd st' = Suc k \<and> http_send (scripted out) name client config now st = (out k, st')"
  by (cases st) (auto simp: http_send_def scripted_def nth_call_def split: sum.split)

definition http_exhausted :: "AxiosError option \<Rightarrow> http_thrown + 'r" where
  "http_exhausted lastError = Inl (case lastError of Some e \<Rightarrow> Axios e | None \<Rightarrow> ThrownNull)"

interpretation http_loop: retry_loop n out http_settled projl "\<lambda>k st. snd st = k" http_exhausted http_result
  "\<lambda>k. Http_calculateBackoff (Suc k) d (rnd (Suc k))"
  "\<lambda>k le. http_attempts (scripted out) name client config (int n) d clk rnd (Suc k) le"
  for n out d rnd name client config clk
proof
  fix k le and st :: "HttpClientService \<times> nat"
  assume "n \<le> k"
  then show "http_attempts (scripted out) name client config (int n) d clk rnd (Suc k) le st = ((http_exhausted le, []), st)"
    by (subst http_attempts.simps) (simp add: http_exhausted_def)
next
  fix k le and st :: "HttpClientService \<times> nat"
  assume k: "k < n" "snd st = k" "http_settled (out k)"
  from http_send_scripted [OF k(2)] obtain st' where "snd st' = Suc k"
    "http_send (scripted out) name client config (clk (Suc k)) st = (out k, st')" by metis
  moreover from this(2) k have
    "http_attempts (scripted out) name client config (int n) d clk rnd (Suc k) le st = ((http_result (out k), []), st')"
    by (subst http_attempts.simps) (cases "out k", auto)
  ultimately show "\<exists>st'. snd st' = Suc k \<and>
      http_attempts (scripted out) name client config (int n) d clk rnd (Suc k) le st = ((http_result (out k), []), st')"
    by blast
next
  fix k le and st :: "HttpClientService \<times> nat"
  assume k: "k < n" "snd st = k" "\<not> http_settled (out k)"
  from http_send_scripted [OF k(2)] obtain st' where st': "snd st' = Suc k"
    "http_send (scripted out) name client config (clk (Suc k)) st = (out k, st')" by metis
  from k(3) obtain e where e: "out k = Inl e" "Http_isRetryableError e" by (cases "out k") auto
  have "http_attempts (scripted out) name client config (int n) d clk rnd (Suc k) le st =
      map_prod (map_prod id ((@) (if Suc k < n then [Http_calculateBackoff (Suc k) d (rnd (Suc k))] else []))) id
        (http_attempts (scripted out) name client config (int n) d clk rnd (Suc (Suc k)) (Some (projl (out k))) st')"
    using k(1) st'(2) e by (subst http_attempts.simps) (simp split: prod.split)
  with st'(1) show "\<exists>st'. snd st' = Suc k \<and>
      http_attempts (scripted out) name client config (int n) d clk rnd (Suc k) le st =
      map_prod (map_prod id ((@) (if Suc k < n then [Http_calculateBackoff (Suc k) d (rnd (Suc k))] else []))) id
        (http_attempts (scripted out) name client config (int n) d clk rnd (Suc (Suc k)) (Some (projl (out k))) st')"
    by blast
qed

section \<open>Properties\<close>

text \<open>
  A client's circuit does not count consecutive failures, and its window forgets nothing within
  30 seconds: of single-attempt requests on a new circuit that do not overlap and fall within the
  reset timeout, the \<open>i\<close>-th is let through exactly when no contiguous stretch of the outcomes before it
  has \<open>threshold\<close> more failures than successes. (Two failures for every success open it, with never
  more than two failures in a row.)
\<close>
theorem Http_circuit_trips_iff:
  assumes "k = (case overrides of Some k \<Rightarrow> k | None \<Rightarrow> 5)" and "0 < k"
    and "\<forall>(t, w)\<in>set calls. T \<le> t \<and> t < T + 30000"
    and "Http_initCircuit name cs name = Some c"
  shows "fst (Http_calls name overrides calls c) =
    map (\<lambda>i. \<not> overload k (map snd (take i calls))) [0..<length calls]"
proof -
  have c: "hc_state c = Closed" "hc_failures c = 0" using assms(4) by (auto simp: Http_initCircuit_def)
  have "overload k (map snd (take i calls)) \<longleftrightarrow> (\<exists>j\<le>i. k \<le> level_from 0 (take j (map snd calls)))"
    if "i < length calls" for i
  proof -
    have "(\<exists>j\<le>length (map snd (take i calls)). k \<le> level_from 0 (take j (map snd (take i calls)))) \<longleftrightarrow>
        (\<exists>j\<le>i. k \<le> level_from 0 (take j (map snd calls)))"
      using that by (auto simp: take_map min_def)
    then show ?thesis using overload_iff [OF assms(2), of "map snd (take i calls)"] by simp
  qed
  then have "map (\<lambda>i. \<not> overload k (map snd (take i calls))) [0..<length calls] =
      map (\<lambda>i. \<not> (\<exists>j\<le>i. k \<le> level_from 0 (take j (map snd calls)))) [0..<length calls]"
    by simp
  then show ?thesis
    using Http_trips_from [of c k T calls overrides name] c assms(1,2,3) by simp
qed

theorem Http_circuit_trips_iff_witness:
  "fst (Http_calls ''api'' (Some 3) (zip [0..8] [False, False, True, False, False, True, False, False, True])
     \<lparr>hc_state = Closed, hc_failures = 0, hc_lastFailureTime = 0, hc_halfOpenAttempts = 0, hc_successes = 0\<rparr>) ! 5 =
   (\<not> overload 3 [False, False, True, False, False])"
  using Http_circuit_trips_iff [where k = 3 and overrides = "Some 3" and T = 0 and name = "''api''" and cs = Map.empty and
      calls = "zip [0..8] [False, False, True, False, False, True, False, False, True]" and
      c = "\<lparr>hc_state = Closed, hc_failures = 0, hc_lastFailureTime = 0, hc_halfOpenAttempts = 0, hc_successes = 0\<rparr>"]
  by (simp add: Http_initCircuit_def upto.simps)

text \<open>
  C35. A request that the circuit lets through sends until an attempt succeeds or fails with an error
  that is not retryable, at most \<open>n\<close> times; between two attempts it waits \<open>calculateBackoff\<close>, never more
  than 30 seconds; its outcome is that of the last attempt. Nothing else ends it, not even its own
  failures opening the circuit on the way; with \<open>n = 0\<close> it throws \<open>null\<close> without sending.
\<close>
theorem Http_request_attempts:
  assumes "fst (Http_checkCircuit name (clk 0) (hs_circuits s)) = Inr ()"
  shows "case Http_request (scripted out) name config (Some (int n)) (Some d) clk rnd (s, 0) of ((r, ds), s', sent) \<Rightarrow>
      (case find (\<lambda>i. http_settled (out i)) [0..<n] of
         Some i \<Rightarrow> sent = Suc i \<and> r = http_result (out i) \<and>
           ds = map (\<lambda>k. Http_calculateBackoff (Suc k) d (rnd (Suc k))) [0..<i]
       | None \<Rightarrow> sent = n \<and> r = (if n = 0 then Inl ThrownNull else http_result (out (n - 1))) \<and>
           ds = map (\<lambda>k. Http_calculateBackoff (Suc k) d (rnd (Suc k))) [0..<n - 1]) \<and>
      (\<forall>x\<in>set ds. x \<le> 30000)"
proof -
  obtain cs where check: "Http_checkCircuit name (clk 0) (hs_circuits s) = (Inr (), cs)"
    using assms by (cases "Http_checkCircuit name (clk 0) (hs_circuits s)") auto
  obtain client s1 where client: "Http_getClient name no_options (s\<lparr>hs_circuits := cs\<rparr>) = (client, s1)"
    by fastforce
  have eq: "Http_request (scripted out) name config (Some (int n)) (Some d) clk rnd (s, 0) =
      http_attempts (scripted out) name client config (int n) d clk rnd (Suc 0) None (s1, 0)"
    by (simp add: Http_request_def check client)
  have bound: "Http_calculateBackoff k d x \<le> 30000" for k x by (simp add: Http_calculateBackoff_def Let_def)
  have last: "http_exhausted (Some (projl (out (n - 1)))) = http_result (out (n - 1))"
    if "find (\<lambda>i. http_settled (out i)) [0..<n] = None" "n \<noteq> 0"
  proof -
    have "\<not> http_settled (out (n - 1))" using that by (auto simp: find_None_iff)
    then show ?thesis by (cases "out (n - 1)") (auto simp: http_exhausted_def)
  qed
  from http_loop.loop_from [where k = 0 and n = n and s = "(s1, 0)" and out = out and d = d and rnd = rnd and
      name = name and client = client and config = config and clk = clk and le = None] last bound show ?thesis
    unfolding eq
    by (cases "find (\<lambda>i. http_settled (out i)) [0..<n]"; cases "n = 0") (auto simp: http_exhausted_def)
qed

theorem Http_request_attempts_witness:
  "snd (snd (Http_request (scripted (\<lambda>i. if i = 1 then Inr ''ok'' else Inl \<lparr>ax_status = Some 503, ax_code = None, ax_message = None\<rparr>))
     ''api'' () (Some 3) (Some 1000) (\<lambda>k. 7) (\<lambda>k. 0) (HttpClientService_new, 0))) = 2"
proof -
  let ?out = "\<lambda>i :: nat. if i = 1 then Inr ''ok'' else Inl \<lparr>ax_status = Some 503, ax_code = None, ax_message = None\<rparr>"
  have check: "fst (Http_checkCircuit ''api'' ((\<lambda>k :: nat. 7) 0) (hs_circuits HttpClientService_new)) = Inr ()"
    by (simp add: Http_checkCircuit_def HttpClientService_new_def)
  have "find (\<lambda>i. http_settled (?out i)) [0..<3] = Some 1"
    by (simp add: upt_rec Http_isRetryableError_def RETRYABLE_STATUS_CODES_def)
  with Http_request_attempts [OF check, where n = 3 and out = ?out and config = "()" and d = 1000 and rnd = "\<lambda>k. 0"]
  show ?thesis by (auto split: prod.splits)
qed

end
