(* ===== verification/Async.thy ===== *)
theory Async
  imports Errors RetryLoop Complex_Main "HOL-Library.Multiset"
begin

text \<open>
  \<open>src/common/utils/async.util.ts\<close> without its circuit breaker: \<open>retry\<close>, \<open>timeout\<close> and \<open>parallel\<close>.
  Delays are rationals (JavaScript numbers without their rounding); \<open>rnd k\<close> is the \<open>Math.random()\<close> after
  attempt \<open>k\<close>. \<open>parallel\<close> is a step relation: a step is one task settling, with what its worker does up
  to its next \<open>await\<close>; tasks settle in any order.
\<close>

section \<open>retry\<close>

record RetryOptions =
  ry_maxAttempts :: int
  ry_baseDelayMs :: rat
  ry_maxDelayMs :: rat
  ry_backoffMultiplier :: rat
  ry_jitterFactor :: rat
  ry_isRetryable :: "(exn \<Rightarrow> bool) option"

definition DEFAULT_RETRY_OPTIONS :: RetryOptions where
  "DEFAULT_RETRY_OPTIONS = \<lparr>ry_maxAttempts = 3, ry_baseDelayMs = 1000, ry_maxDelayMs = 30000,
     ry_backoffMultiplier = 2, ry_jitterFactor = 3 / 10, ry_isRetryable = None\<rparr>"

definition calculateDelay :: "nat \<Rightarrow> RetryOptions \<Rightarrow> rat \<Rightarrow> int" where
  "calculateDelay attempt opts rnd =
     (let exponentialDelay = ry_baseDelayMs opts * ry_backoffMultiplier opts ^ (attempt - 1);
          cappedDelay = min exponentialDelay (ry_maxDelayMs opts);
          jitterRange = cappedDelay * ry_jitterFactor opts;
          jitter = rnd * jitterRange
      in \<lfloor>cappedDelay - jitter + jitterRange / 2 + 1 / 2\<rfloor>)"

text \<open>\<open>err instanceof Error ? err : new Error(String(err))\<close>\<close>

definition to_Error :: "exn \<Rightarrow> exn" where
  "to_Error e = (if is_Error e then e else JsError ''undefined'')"

text \<open>The loop from an attempt on (\<open>opts\<close> merged with the defaults); the list holds, for each wait, what
  \<open>onRetry\<close> was told: the attempt, its error and the delay.\<close>

function retry_from ::
  "RetryOptions \<Rightarrow> ('s, exn, 'a) proc \<Rightarrow> (nat \<Rightarrow> rat) \<Rightarrow> nat \<Rightarrow> exn option \<Rightarrow> 's \<Rightarrow> ((exn + 'a) \<times> (nat \<times> exn \<times> int) list) \<times> 's" where
  "retry_from opts fn rnd attempt lastError s =
     (if ry_maxAttempts opts < int attempt
      then ((Inl (case lastError of Some e \<Rightarrow> e | None \<Rightarrow> ThrownUndefined), []), s)
      else (case fn s of
              (Inr a, s') \<Rightarrow> ((Inr a, []), s')
            | (Inl err, s') \<Rightarrow>
                if (case ry_isRetryable opts of Some p \<Rightarrow> \<not> p (to_Error err) | None \<Rightarrow> False)
                then ((Inl (to_Error err), []), s')
                else (case retry_from opts fn rnd (Suc attempt) (Some (to_Error err)) s' of
                        ((r, ws), s'') \<Rightarrow>
                          ((r, (if int attempt < ry_maxAttempts opts
                                then [(attempt, to_Error err, calculateDelay attempt opts (rnd attempt))] else []) @ ws), s''))))"
  by pat_completeness auto
termination
  by (relation "measure (\<lambda>(opts, fn, rnd, attempt, e, s). nat (ry_maxAttempts opts + 1 - int attempt))") auto

declare retry_from.simps [simp del]

definition retry ::
  "RetryOptions \<Rightarrow> ('s, exn, 'a) proc \<Rightarrow> (nat \<Rightarrow> rat) \<Rightarrow> 's \<Rightarrow> ((exn + 'a) \<times> (nat \<times> exn \<times> int) list) \<times> 's" where
  "retry opts fn rnd s = retry_from opts fn rnd 1 None s"

section \<open>timeout\<close>

text \<open>What happens to the race, in order: the promise settles, or the timer fires. The first one
  decides; the timer is cleared afterwards. \<open>None\<close>: still waiting.\<close>

datatype 'a race_event = PromiseSettles "exn + 'a" | TimerFires

definition timeout_error :: "int \<Rightarrow> string option \<Rightarrow> exn" where
  "timeout_error timeoutMs message =
     TimeoutError (case message of Some m \<Rightarrow> m | None \<Rightarrow> ''Operation timed out after '' @ show_int timeoutMs @ ''ms'') timeoutMs"

fun timeout_promise :: "int \<Rightarrow> string option \<Rightarrow> 'a race_event list \<Rightarrow> (exn + 'a) option" where
  "timeout_promise timeoutMs message [] = None"
| "timeout_promise timeoutMs message (PromiseSettles r # es) = Some r"
| "timeout_promise timeoutMs message (TimerFires # es) = Some (Inl (timeout_error timeoutMs message))"

section \<open>parallel\<close>

datatype worker = Busy nat | Done | Failed

record 'a parallel_state =
  pl_index :: nat
  pl_workers :: "worker list"
  pl_results :: "'a option list"
  pl_errors :: "exn list"
  pl_rejected :: "exn option"

text \<open>The head of a worker's loop: take the next task, or return.\<close>

definition parallel_next :: "nat \<Rightarrow> nat \<Rightarrow> 'a parallel_state \<Rightarrow> 'a parallel_state" where
  "parallel_next n w st =
     (if pl_index st < n
      then st\<lparr>pl_workers := (pl_workers st)[w := Busy (pl_index st)], pl_index := pl_index st + 1\<rparr>
      else st\<lparr>pl_workers := (pl_workers st)[w := Done]\<rparr>)"

text \<open>Spawning: each worker runs up to its first \<open>await\<close> before the next is created.\<close>

definition parallel_spawn :: "nat \<Rightarrow> 'a parallel_state \<Rightarrow> 'a parallel_state" where
  "parallel_spawn n st =
     parallel_next n (length (pl_workers st)) (st\<lparr>pl_workers := pl_workers st @ [Done]\<rparr>)"

definition parallel_start :: "nat \<Rightarrow> int \<Rightarrow> 'a parallel_state" where
  "parallel_start n concurrency =
     (parallel_spawn n ^^ nat (min concurrency (int n)))
       \<lparr>pl_index = 0, pl_workers = [], pl_results = replicate n None, pl_errors = [], pl_rejected = None\<rparr>"

text \<open>Worker \<open>w\<close>, busy with task \<open>index\<close>, gets the outcome of the task. A worker that throws rejects
  \<open>Promise.all\<close>, unless an earlier one has.\<close>

definition parallel_settle ::
  "bool \<Rightarrow> nat \<Rightarrow> nat \<Rightarrow> nat \<Rightarrow> exn + 'a \<Rightarrow> 'a parallel_state \<Rightarrow> 'a parallel_state" where
  "parallel_settle failFast n w index r st =
     (case r of
        Inr a \<Rightarrow> parallel_next n w (st\<lparr>pl_results := (pl_results st)[index := Some a]\<rparr>)
      | Inl err \<Rightarrow>
          if failFast
          then st\<lparr>pl_workers := (pl_workers st)[w := Failed],
                  pl_rejected := (case pl_rejected st of Some e \<Rightarrow> Some e | None \<Rightarrow> Some (to_Error err))\<rparr>
          else parallel_next n w (st\<lparr>pl_errors := pl_errors st @ [to_Error err]\<rparr>))"

datatype parallel_error = WorkerError exn | AggregateError "exn list" string

definition is_busy :: "worker \<Rightarrow> bool" where
  "is_busy w = (case w of Busy i \<Rightarrow> True | _ \<Rightarrow> False)"

text \<open>What the promise of \<open>parallel\<close> is: \<open>None\<close> while pending; an array slot no task filled is \<open>None\<close>.\<close>

definition parallel_outcome :: "bool \<Rightarrow> nat \<Rightarrow> 'a parallel_state \<Rightarrow> (parallel_error + 'a option list) option" where
  "parallel_outcome failFast n st =
     (if failFast
      then (case pl_rejected st of
              Some e \<Rightarrow> Some (Inl (WorkerError e))
            | None \<Rightarrow> if list_ex is_busy (pl_workers st) then None else Some (Inr (pl_results st)))
      else if list_ex is_busy (pl_workers st) then None
      else if pl_errors st \<noteq> []
      then Some (Inl (AggregateError (pl_errors st)
             (show_nat (length (pl_errors st)) @ '' of '' @ show_nat n @ '' tasks failed'')))
      else Some (Inr (pl_results st)))"

text \<open>Runs: \<open>out i\<close> is the outcome of task \<open>i\<close>; the list holds the tasks settled so far, in order.\<close>

inductive parallel_run :: "(nat \<Rightarrow> exn + 'a) \<Rightarrow> bool \<Rightarrow> nat \<Rightarrow> int \<Rightarrow> nat list \<Rightarrow> 'a parallel_state \<Rightarrow> bool"
  for out failFast n concurrency where
  spawned: "parallel_run out failFast n concurrency [] (parallel_start n concurrency)"
| settles: "parallel_run out failFast n concurrency ds st \<Longrightarrow> w < length (pl_workers st) \<Longrightarrow> pl_workers st ! w = Busy i \<Longrightarrow>
    parallel_run out failFast n concurrency (ds @ [i]) (parallel_settle failFast n w i (out i) st)"

section \<open>Lemmas on retry\<close>

fun retry_settled :: "RetryOptions \<Rightarrow> exn + 'a \<Rightarrow> bool" where
  "retry_settled opts (Inr a) = True"
| "retry_settled opts (Inl e) = (case ry_isRetryable opts of Some p \<Rightarrow> \<not> p (to_Error e) | None \<Rightarrow> False)"

fun retry_result :: "exn + 'a \<Rightarrow> exn + 'a" where
  "retry_result (Inr a) = Inr a"
| "retry_result (Inl e) = Inl (to_Error e)"

definition retry_exhausted :: "exn option \<Rightarrow> exn + 'a" where
  "retry_exhausted lastError = Inl (case lastError of Some e \<Rightarrow> e | None \<Rightarrow> ThrownUndefined)"

definition retry_wait :: "RetryOptions \<Rightarrow> (nat \<Rightarrow> exn + 'a) \<Rightarrow> (nat \<Rightarrow> rat) \<Rightarrow> nat \<Rightarrow> nat \<times> exn \<times> int" where
  "retry_wait opts out rnd k = (Suc k, to_Error (projl (out k)), calculateDelay (Suc k) opts (rnd (Suc k)))"

interpretation retrying: retry_loop "nat (ry_maxAttempts opts)" out "retry_settled opts" "to_Error \<circ> projl"
  "\<lambda>k s. s = k" retry_exhausted retry_result "retry_wait opts out rnd"
  "\<lambda>k le. retry_from opts (nth_call out) rnd (Suc k) le" for opts out rnd
proof
  fix k s le
  assume "nat (ry_maxAttempts opts) \<le> k"
  then have "ry_maxAttempts opts < int (Suc k)" by simp
  then show "retry_from opts (nth_call out) rnd (Suc k) le s = ((retry_exhausted le, []), s)"
    by (subst retry_from.simps) (simp add: retry_exhausted_def)
next
  fix k s le
  assume k: "k < nat (ry_maxAttempts opts)" "s = k" "retry_settled opts (out k)"
  then have "retry_from opts (nth_call out) rnd (Suc k) le s = ((retry_result (out k), []), Suc k)"
    by (subst retry_from.simps) (cases "out k", auto simp: nth_call_def)
  then show "\<exists>s'. s' = Suc k \<and> retry_from opts (nth_call out) rnd (Suc k) le s = ((retry_result (out k), []), s')"
    by blast
next
  fix k s le
  assume k: "k < nat (ry_maxAttempts opts)" "s = k" "\<not> retry_settled opts (out k)"
  from k(3) obtain e where e: "out k = Inl e" by (cases "out k") auto
  have "retry_from opts (nth_call out) rnd (Suc k) le s =
      map_prod (map_prod id ((@) (if Suc k < nat (ry_maxAttempts opts) then [retry_wait opts out rnd k] else []))) id
        (retry_from opts (nth_call out) rnd (Suc (Suc k)) (Some ((to_Error \<circ> projl) (out k))) (Suc k))"
    using k e by (subst retry_from.simps) (auto simp: nth_call_def retry_wait_def split: prod.split)
  then show "\<exists>s'. s' = Suc k \<and> retry_from opts (nth_call out) rnd (Suc k) le s =
      map_prod (map_prod id ((@) (if Suc k < nat (ry_maxAttempts opts) then [retry_wait opts out rnd k] else []))) id
        (retry_from opts (nth_call out) rnd (Suc (Suc k)) (Some ((to_Error \<circ> projl) (out k))) s')"
    by blast
qed

text \<open>Only nonnegative settings and a multiplier of at least one make a delay that behaves.\<close>

lemma calculateDelay_window:
  assumes "0 \<le> rnd" "rnd < 1" "0 \<le> ry_jitterFactor opts" "0 \<le> capped"
    and "capped = min (ry_baseDelayMs opts * ry_backoffMultiplier opts ^ (attempt - 1)) (ry_maxDelayMs opts)"
  shows "capped * (1 - ry_jitterFactor opts / 2) - 1 / 2 < of_int (calculateDelay attempt opts rnd)"
    and "of_int (calculateDelay attempt opts rnd) \<le> capped * (1 + ry_jitterFactor opts / 2) + 1 / 2"
proof -
  define x where "x = capped - rnd * (capped * ry_jitterFactor opts) + capped * ry_jitterFactor opts / 2 + 1 / 2"
  have d: "calculateDelay attempt opts rnd = \<lfloor>x\<rfloor>"
    by (simp add: calculateDelay_def x_def assms(5) Let_def)
  have "0 \<le> capped * ry_jitterFactor opts" using assms by simp
  then have "0 \<le> rnd * (capped * ry_jitterFactor opts)" "rnd * (capped * ry_jitterFactor opts) \<le> capped * ry_jitterFactor opts"
    using assms(1,2) by (simp_all add: mult_left_le_one_le)
  then have "capped * (1 - ry_jitterFactor opts / 2) + 1 / 2 \<le> x" "x \<le> capped * (1 + ry_jitterFactor opts / 2) + 1 / 2"
    by (simp_all add: x_def algebra_simps)
  moreover have "x - 1 < of_int \<lfloor>x\<rfloor>" "of_int \<lfloor>x\<rfloor> \<le> x" by linarith+
  ultimately show "capped * (1 - ry_jitterFactor opts / 2) - 1 / 2 < of_int (calculateDelay attempt opts rnd)"
    "of_int (calculateDelay attempt opts rnd) \<le> capped * (1 + ry_jitterFactor opts / 2) + 1 / 2"
    unfolding d by linarith+
qed

section \<open>Lemmas on parallel\<close>

definition worker_tasks :: "worker \<Rightarrow> nat multiset" where
  "worker_tasks w = (case w of Busy i \<Rightarrow> {#i#} | _ \<Rightarrow> {#})"

definition running :: "worker list \<Rightarrow> nat multiset" where
  "running ws = sum_list (map worker_tasks ws)"

lemma worker_tasks_simps [simp]:
  "worker_tasks (Busy i) = {#i#}" "worker_tasks Done = {#}" "worker_tasks Failed = {#}"
  by (simp_all add: worker_tasks_def)

lemma running_update:
  assumes "w < length ws" and "ws ! w = Busy i"
  shows "add_mset i (running (ws[w := x])) = running ws + worker_tasks x"
proof -
  have "ws = take w ws @ Busy i # drop (Suc w) ws" using assms by (metis id_take_nth_drop)
  then have "running ws = running (take w ws) + {#i#} + running (drop (Suc w) ws)"
    by (metis (no_types, lifting) add.assoc list.simps(9) map_append running_def sum_list.Cons sum_list_append worker_tasks_simps(1))
  moreover have "running (ws[w := x]) = running (take w ws) + worker_tasks x + running (drop (Suc w) ws)"
    using assms(1) by (simp add: upd_conv_take_nth_drop running_def add.assoc)
  ultimately show ?thesis by simp
qed

lemma running_empty: "running ws = {#} \<longleftrightarrow> \<not> list_ex is_busy ws"
  by (induction ws) (auto simp: running_def worker_tasks_def is_busy_def split: worker.splits)

lemma size_running: "size (running ws) \<le> length ws"
  by (induction ws) (auto simp: running_def worker_tasks_def split: worker.splits)

definition task_fails :: "(nat \<Rightarrow> exn + 'a) \<Rightarrow> nat \<Rightarrow> bool" where
  "task_fails out i \<longleftrightarrow> \<not> is_ok (out i)"

definition task_error :: "(nat \<Rightarrow> exn + 'a) \<Rightarrow> nat \<Rightarrow> exn" where
  "task_error out i = to_Error (projl (out i))"

definition task_value :: "(nat \<Rightarrow> exn + 'a) \<Rightarrow> nat \<Rightarrow> 'a option" where
  "task_value out i = (case out i of Inr a \<Rightarrow> Some a | Inl e \<Rightarrow> None)"

text \<open>The part of the invariant the loop head keeps, and the bookkeeping of failures.\<close>

definition tasks_ok :: "nat \<Rightarrow> nat list \<Rightarrow> 'a parallel_state \<Rightarrow> bool" where
  "tasks_ok n ds st \<longleftrightarrow>
     running (pl_workers st) + mset ds = mset [0..<pl_index st] \<and> pl_index st \<le> n \<and>
     (Done \<in> set (pl_workers st) \<longrightarrow> pl_index st = n)"

definition results_ok :: "(nat \<Rightarrow> exn + 'a) \<Rightarrow> nat \<Rightarrow> nat list \<Rightarrow> 'a parallel_state \<Rightarrow> bool" where
  "results_ok out n ds st \<longleftrightarrow>
     length (pl_results st) = n \<and> (\<forall>i<n. pl_results st ! i = (if i \<in> set ds then task_value out i else None))"

definition failures_ok :: "(nat \<Rightarrow> exn + 'a) \<Rightarrow> bool \<Rightarrow> nat list \<Rightarrow> 'a parallel_state \<Rightarrow> bool" where
  "failures_ok out ff ds st \<longleftrightarrow>
     (if ff then pl_errors st = [] \<and> pl_rejected st = map_option (task_error out) (find (task_fails out) ds) \<and>
        count_list (pl_workers st) Failed = length (filter (task_fails out) ds)
      else pl_rejected st = None \<and> pl_errors st = map (task_error out) (filter (task_fails out) ds) \<and>
        Failed \<notin> set (pl_workers st))"

lemma parallel_next_tasks:
  assumes "w < length (pl_workers st)" and "pl_workers st ! w = Busy i"
    and "tasks_ok n ds st"
  shows "tasks_ok n (ds @ [i]) (parallel_next n w st)"
proof (cases "pl_index st < n")
  case True
  have "add_mset i (running ((pl_workers st)[w := Busy (pl_index st)])) =
      running (pl_workers st) + {#pl_index st#}"
    using running_update [OF assms(1,2), of "Busy (pl_index st)"] by simp
  moreover have "Done \<notin> set ((pl_workers st)[w := Busy (pl_index st)])"
    using True assms(3) by (auto simp: tasks_ok_def dest: set_list_update_cases)
  moreover have "running (pl_workers st) + mset ds = mset [0..<pl_index st]"
    using assms(3) by (simp add: tasks_ok_def)
  ultimately have "add_mset i (running ((pl_workers st)[w := Busy (pl_index st)]) + mset ds) =
      add_mset (pl_index st) (mset [0..<pl_index st])"
    by (metis add_mset_add_single union_mset_add_mset_left)
  then show ?thesis using True \<open>Done \<notin> _\<close> by (simp add: parallel_next_def tasks_ok_def)
next
  case False
  have "add_mset i (running ((pl_workers st)[w := Done])) = running (pl_workers st)"
    using running_update [OF assms(1,2), of Done] by simp
  then show ?thesis using False assms(3)
    by (simp add: parallel_next_def tasks_ok_def) (metis add_mset_add_single union_mset_add_mset_left union_mset_add_mset_right)
qed

lemma parallel_failed_tasks:
  assumes "w < length (pl_workers st)" and "pl_workers st ! w = Busy i" and "tasks_ok n ds st"
  shows "tasks_ok n (ds @ [i]) (st\<lparr>pl_workers := (pl_workers st)[w := Failed], pl_rejected := e\<rparr>)"
proof -
  have "add_mset i (running ((pl_workers st)[w := Failed])) = running (pl_workers st)"
    using running_update [OF assms(1,2), of Failed] by simp
  moreover have "Done \<in> set ((pl_workers st)[w := Failed]) \<Longrightarrow> Done \<in> set (pl_workers st)"
    using set_list_update_cases [of Done] by fastforce
  ultimately show ?thesis using assms(3)
    by (auto simp add: tasks_ok_def) (metis union_mset_add_mset_left union_mset_add_mset_right)+
qed

lemma parallel_next_fields [simp]:
  "pl_results (parallel_next n w st) = pl_results st" "pl_errors (parallel_next n w st) = pl_errors st"
  "pl_rejected (parallel_next n w st) = pl_rejected st"
  "length (pl_workers (parallel_next n w st)) = length (pl_workers st)"
  by (simp_all add: parallel_next_def)

lemma count_list_update:
  "w < length ws \<Longrightarrow> count_list (ws[w := x]) y + (if ws ! w = y then 1 else 0) = count_list ws y + (if x = y then 1 else 0)"
proof (induction ws arbitrary: w)
  case (Cons v ws)
  show ?case
  proof (cases w)
    case 0
    then show ?thesis by simp
  next
    case (Suc u)
    with Cons.IH [of u] Cons.prems show ?thesis by (cases "x = y"; cases "ws ! u = y") simp_all
  qed
qed simp

lemma parallel_next_failed:
  assumes "w < length (pl_workers st)" and "pl_workers st ! w = Busy i"
  shows "count_list (pl_workers (parallel_next n w st)) Failed = count_list (pl_workers st) Failed"
  using count_list_update [OF assms(1), of "Busy (pl_index st)" Failed] count_list_update [OF assms(1), of Done Failed] assms(2)
  by (simp add: parallel_next_def)

lemma notin_count_list: "x \<notin> set xs \<longleftrightarrow> count_list xs x = 0"
  by (induction xs) auto

lemma parallel_settle_failures:
  assumes "w < length (pl_workers st)" and "pl_workers st ! w = Busy i" and "failures_ok out ff ds st"
  shows "failures_ok out ff (ds @ [i]) (parallel_settle ff n w i (out i) st)"
  using assms parallel_next_failed [of w "st\<lparr>pl_results := (pl_results st)[i := Some (projr (out i))]\<rparr>" i n]
    parallel_next_failed [of w "st\<lparr>pl_errors := pl_errors st @ [to_Error (projl (out i))]\<rparr>" i n]
    count_list_update [of w "pl_workers st" Failed Failed]
  by (cases "out i")
    (auto simp: failures_ok_def parallel_settle_def task_fails_def task_error_def find_snoc notin_count_list
      split: option.split)

lemma parallel_settle_results:
  assumes "results_ok out n ds st" and "i < n"
  shows "results_ok out n (ds @ [i]) (parallel_settle ff n w i (out i) st)"
  using assms
  by (cases "out i") (auto simp: results_ok_def parallel_settle_def task_value_def nth_list_update)

lemma parallel_settle_tasks:
  assumes "w < length (pl_workers st)" and "pl_workers st ! w = Busy i" and "tasks_ok n ds st"
  shows "tasks_ok n (ds @ [i]) (parallel_settle ff n w i (out i) st)"
proof -
  have "tasks_ok n ds (st\<lparr>pl_results := rs\<rparr>)" "tasks_ok n ds (st\<lparr>pl_errors := es\<rparr>)" for rs es
    using assms(3) by (simp_all add: tasks_ok_def)
  then show ?thesis
    using assms parallel_next_tasks [of w "st\<lparr>pl_results := rs\<rparr>" i n ds for rs]
      parallel_next_tasks [of w "st\<lparr>pl_errors := es\<rparr>" i n ds for es] parallel_failed_tasks [of w st i n ds]
    by (cases "out i") (simp_all add: parallel_settle_def)
qed

lemma parallel_spawn_tasks:
  assumes "tasks_ok n [] st"
  shows "tasks_ok n [] (parallel_spawn n st)"
  using assms
  by (auto simp: parallel_spawn_def parallel_next_def tasks_ok_def running_def list_update_append simp del: mset_upt)

lemma parallel_spawn_rest:
  "results_ok out n [] st \<Longrightarrow> results_ok out n [] (parallel_spawn n st)"
  "failures_ok out ff [] st \<Longrightarrow> failures_ok out ff [] (parallel_spawn n st)"
  "length (pl_workers (parallel_spawn n st)) = Suc (length (pl_workers st))"
  by (auto simp: results_ok_def failures_ok_def parallel_spawn_def parallel_next_def list_update_append)

lemma parallel_start_ok:
  "tasks_ok n [] (parallel_start n c) \<and> results_ok out n [] (parallel_start n c) \<and>
   failures_ok out ff [] (parallel_start n c) \<and> length (pl_workers (parallel_start n c)) = nat (min c (int n))"
proof -
  let ?s0 = "\<lparr>pl_index = 0, pl_workers = [], pl_results = replicate n None, pl_errors = [], pl_rejected = None\<rparr>"
  have "tasks_ok n [] ((parallel_spawn n ^^ m) ?s0) \<and> results_ok out n [] ((parallel_spawn n ^^ m) ?s0) \<and>
      failures_ok out ff [] ((parallel_spawn n ^^ m) ?s0) \<and> length (pl_workers ((parallel_spawn n ^^ m) ?s0)) = m" for m
  proof (induction m)
    case 0
    show ?case by (simp add: tasks_ok_def results_ok_def failures_ok_def running_def)
  next
    case (Suc m)
    then show ?case
      by (auto simp only: funpow.simps o_apply parallel_spawn_rest intro!: parallel_spawn_tasks)
  qed
  then show ?thesis by (simp add: parallel_start_def)
qed

lemma parallel_run_ok:
  assumes "parallel_run out ff n c ds st"
  shows "tasks_ok n ds st \<and> results_ok out n ds st \<and> failures_ok out ff ds st \<and>
    length (pl_workers st) = nat (min c (int n))"
  using assms
proof induction
  case spawned
  show ?case by (rule parallel_start_ok)
next
  case (settles ds st w i)
  have "i \<in># running (pl_workers st)"
    using running_update [OF settles(2,3), of Done] by (metis add.right_neutral union_single_eq_member worker_tasks_simps(2))
  then have "i \<in># mset [0..<pl_index st]" using settles.IH by (metis tasks_ok_def union_iff)
  then have "i < n" using settles.IH by (auto simp: tasks_ok_def)
  moreover have "length (pl_workers (parallel_settle ff n w i (out i) st)) = length (pl_workers st)"
    by (cases "out i") (simp_all add: parallel_settle_def)
  ultimately show ?case
    using settles parallel_settle_tasks parallel_settle_results parallel_settle_failures by metis
qed

text \<open>When no worker is busy and one has come to its end, every task has settled.\<close>

lemma parallel_finished:
  assumes "tasks_ok n ds st" and "\<not> list_ex is_busy (pl_workers st)" and "Done \<in> set (pl_workers st)"
  shows "mset ds = mset [0..<n]"
proof -
  have "running (pl_workers st) = {#}" using assms(2) by (simp add: running_empty)
  then show ?thesis using assms(1,3) by (auto simp: tasks_ok_def)
qed

lemma idle_worker: "\<not> list_ex is_busy ws \<Longrightarrow> w \<in> set ws \<Longrightarrow> w = Done \<or> w = Failed"
  by (cases w) (auto simp: list_ex_iff is_busy_def)

lemma count_list_all: "\<forall>w\<in>set ws. w = x \<Longrightarrow> count_list ws x = length ws"
  by (induction ws) auto

section \<open>Properties\<close>

text \<open>
  \<open>retry\<close> calls \<open>fn\<close> until it resolves or throws an error that is not retryable, at most
  \<open>maxAttempts\<close> times, waiting \<open>calculateDelay\<close> (and telling \<open>onRetry\<close>) between two attempts only; it
  gives the outcome of the last call, an error that is no \<open>Error\<close> wrapped. Without an attempt
  (\<open>maxAttempts\<close> not positive) it throws \<open>undefined\<close>.
\<close>
theorem retry_attempts:
  "case retry opts (nth_call out) rnd 0 of ((r, waits), calls) \<Rightarrow>
     (let n = nat (ry_maxAttempts opts) in
      case find (\<lambda>i. retry_settled opts (out i)) [0..<n] of
        Some i \<Rightarrow> calls = Suc i \<and> r = retry_result (out i) \<and> waits = map (retry_wait opts out rnd) [0..<i]
      | None \<Rightarrow> calls = n \<and> waits = map (retry_wait opts out rnd) [0..<n - 1] \<and>
          r = (if n = 0 then Inl ThrownUndefined else retry_result (out (n - 1))))"
proof -
  let ?n = "nat (ry_maxAttempts opts)"
  have last: "retry_exhausted (Some (to_Error (projl (out (?n - 1))))) = retry_result (out (?n - 1))"
    if "find (\<lambda>i. retry_settled opts (out i)) [0..<?n] = None" "?n \<noteq> 0"
  proof -
    have "\<not> retry_settled opts (out (?n - 1))" using that by (auto simp: find_None_iff)
    then show ?thesis by (cases "out (?n - 1)") (auto simp: retry_exhausted_def)
  qed
  have eq: "retry opts (nth_call out) rnd 0 = retry_from opts (nth_call out) rnd (Suc 0) None 0"
    by (simp add: retry_def)
  from retrying.loop_from [where k = 0 and opts = opts and s = 0 and out = out and rnd = rnd and le = None] last
  show ?thesis
    unfolding eq Let_def
    by (cases "find (\<lambda>i. retry_settled opts (out i)) [0..<?n]"; cases "?n = 0") (auto simp: retry_exhausted_def)
qed

text \<open>
  The delay between attempts stays within half the jitter of the capped exponential (up to
  rounding): so with a positive jitter it can exceed \<open>maxDelayMs\<close>, by at most half the jitter, and it
  does with the defaults.
\<close>
theorem calculateDelay_bounds:
  assumes "0 \<le> rnd" "rnd < 1" "0 \<le> ry_jitterFactor opts" "0 \<le> ry_baseDelayMs opts"
    "0 \<le> ry_backoffMultiplier opts" "0 \<le> ry_maxDelayMs opts"
  shows "let capped = min (ry_baseDelayMs opts * ry_backoffMultiplier opts ^ (attempt - 1)) (ry_maxDelayMs opts);
           delay = of_int (calculateDelay attempt opts rnd) in
    capped * (1 - ry_jitterFactor opts / 2) - 1 / 2 < delay \<and> delay \<le> capped * (1 + ry_jitterFactor opts / 2) + 1 / 2 \<and>
    delay \<le> ry_maxDelayMs opts * (1 + ry_jitterFactor opts / 2) + 1 / 2 \<and>
    ry_maxDelayMs DEFAULT_RETRY_OPTIONS < of_int (calculateDelay 6 DEFAULT_RETRY_OPTIONS 0)"
proof -
  define capped where "capped = min (ry_baseDelayMs opts * ry_backoffMultiplier opts ^ (attempt - 1)) (ry_maxDelayMs opts)"
  have c: "0 \<le> capped" "capped \<le> ry_maxDelayMs opts" using assms by (simp_all add: capped_def)
  then have "capped * (1 + ry_jitterFactor opts / 2) \<le> ry_maxDelayMs opts * (1 + ry_jitterFactor opts / 2)"
    using assms(3) by (intro mult_right_mono) simp_all
  moreover have "ry_maxDelayMs DEFAULT_RETRY_OPTIONS < of_int (calculateDelay 6 DEFAULT_RETRY_OPTIONS 0)"
    by (simp add: calculateDelay_def DEFAULT_RETRY_OPTIONS_def)
  ultimately show ?thesis
    using calculateDelay_window [OF assms(1,2,3) c(1) capped_def]
    unfolding capped_def [symmetric] Let_def by linarith
qed

theorem calculateDelay_bounds_witness:
  "of_int (calculateDelay 2 DEFAULT_RETRY_OPTIONS (1 / 2)) \<le> (30000 :: rat) * (1 + 3 / 20) + 1 / 2"
  using calculateDelay_bounds [where opts = DEFAULT_RETRY_OPTIONS and rnd = "1 / 2" and attempt = 2]
  by (simp add: DEFAULT_RETRY_OPTIONS_def Let_def)

text \<open>
  \<open>parallel\<close> schedules well in every run: never more than \<open>concurrency\<close> tasks are in progress, no task
  is started twice, the tasks in progress or settled are the first \<open>currentIndex\<close> ones, and so a run of
  \<open>n\<close> tasks settles at most \<open>n\<close> times.
\<close>
theorem parallel_schedule:
  assumes "parallel_run out failFast n concurrency ds st"
  shows "size (running (pl_workers st)) \<le> nat concurrency \<and>
    mset ds + running (pl_workers st) = mset [0..<pl_index st] \<and> pl_index st \<le> n \<and> distinct ds \<and> length ds \<le> n"
proof -
  note ok = parallel_run_ok [OF assms]
  then have eq: "mset ds + running (pl_workers st) = mset [0..<pl_index st]" "pl_index st \<le> n"
    by (simp_all add: tasks_ok_def add.commute)
  obtain rs where "mset rs = running (pl_workers st)" by (metis ex_mset)
  with eq have perm: "mset (ds @ rs) = mset [0..<pl_index st]" by simp
  then have "distinct (ds @ rs)" by (metis distinct_upt mset_eq_imp_distinct_iff)
  moreover have "length (ds @ rs) = pl_index st" using perm by (metis mset_eq_length length_upt minus_nat.diff_0)
  moreover have "size (running (pl_workers st)) \<le> nat concurrency"
    using size_running [of "pl_workers st"] ok by linarith
  ultimately show ?thesis using eq by auto
qed


text \<open>
  With \<open>failFast\<close>, the promise rejects with the error of the first task to fail, and resolves to
  all results when every task has succeeded; but a rejection stops no other worker: once nothing is in
  progress any more, every task has been started and settled unless there were as many failures as
  workers.
\<close>
theorem parallel_failFast:
  assumes "parallel_run out True n concurrency ds st" and "0 < concurrency"
  shows "parallel_outcome True n st =
      (case find (task_fails out) ds of
         Some i \<Rightarrow> Some (Inl (WorkerError (task_error out i)))
       | None \<Rightarrow> if mset ds = mset [0..<n] then Some (Inr (map (task_value out) [0..<n])) else None) \<and>
    (\<not> list_ex is_busy (pl_workers st) \<and> length (filter (task_fails out) ds) < nat (min concurrency (int n)) \<longrightarrow>
      mset ds = mset [0..<n])"
proof -
  note ok = parallel_run_ok [OF assms(1)]
  have all: "mset ds = mset [0..<n]"
    if idle: "\<not> list_ex is_busy (pl_workers st)" and "length (filter (task_fails out) ds) < length (pl_workers st)"
  proof -
    have "count_list (pl_workers st) Failed < length (pl_workers st)" using ok that(2) by (simp add: failures_ok_def)
    then have "\<exists>w\<in>set (pl_workers st). w \<noteq> Failed"
      using count_list_all [of "pl_workers st" Failed] by fastforce
    then show ?thesis using idle_worker [OF idle] idle ok by (blast intro: parallel_finished)
  qed
  have idle: "\<not> list_ex is_busy (pl_workers st)" if "mset ds = mset [0..<n]"
  proof -
    have eq: "running (pl_workers st) + mset [0..<n] = mset [0..<pl_index st]" and "pl_index st \<le> n"
      using ok that by (simp_all add: tasks_ok_def)
    moreover from eq have "size (running (pl_workers st)) + n = pl_index st"
      by (metis length_upt minus_nat.diff_0 size_mset size_union)
    ultimately have "size (running (pl_workers st)) = 0" by linarith
    then show ?thesis by (simp add: running_empty [symmetric])
  qed
  have res: "pl_results st = map (task_value out) [0..<n]" if "mset ds = mset [0..<n]"
  proof -
    have "set ds = {0..<n}" using that by (metis mset_eq_setD set_upt)
    then show ?thesis using ok by (intro nth_equalityI) (auto simp: results_ok_def)
  qed
  have zero: "mset ds = mset [0..<n]" if "n = 0" using ok that by (auto simp: tasks_ok_def)
  show ?thesis
  proof (cases "find (task_fails out) ds")
    case None
    then have "filter (task_fails out) ds = []" by (auto simp: find_None_iff filter_empty_conv)
    moreover have "pl_rejected st = None" using ok None by (simp add: failures_ok_def)
    moreover have "mset ds = mset [0..<n]" if "\<not> list_ex is_busy (pl_workers st)"
      using that all [OF that] zero ok assms(2) \<open>filter (task_fails out) ds = []\<close> by (cases "n = 0") simp_all
    ultimately show ?thesis using None idle res by (auto simp: parallel_outcome_def)
  next
    case (Some i)
    then show ?thesis using all ok by (auto simp: parallel_outcome_def failures_ok_def)
  qed
qed

text \<open>A run of two tasks, the second settling first.\<close>

definition two_tasks :: "nat \<Rightarrow> exn + string" where
  "two_tasks i = (if i = 0 then Inl (JsError ''no'') else Inr ''b'')"

definition two_done :: "bool \<Rightarrow> string parallel_state" where
  "two_done failFast = parallel_settle failFast 2 0 0 (two_tasks 0)
     (parallel_settle failFast 2 1 1 (two_tasks 1) (parallel_start 2 5))"

lemmas parallel_eval = parallel_settle_def parallel_start_def parallel_spawn_def parallel_next_def two_tasks_def numeral_2_eq_2

lemma two_tasks_run: "parallel_run two_tasks failFast 2 5 [1, 0] (two_done failFast)"
proof -
  have "parallel_run two_tasks failFast 2 5 ([] @ [1]) (parallel_settle failFast 2 1 1 (two_tasks 1) (parallel_start 2 5))"
    by (rule parallel_run.settles, rule parallel_run.spawned) (simp_all add: parallel_eval)
  then have "parallel_run two_tasks failFast 2 5 (([] @ [1]) @ [0])
      (parallel_settle failFast 2 0 0 (two_tasks 0) (parallel_settle failFast 2 1 1 (two_tasks 1) (parallel_start 2 5)))"
    by (rule parallel_run.settles) (simp_all add: parallel_eval)
  then show ?thesis by (simp add: two_done_def)
qed

theorem parallel_schedule_witness:
  "distinct [1, 0 :: nat] \<and> pl_index (two_done True) \<le> 2"
  using parallel_schedule [OF two_tasks_run [of True]] by blast


theorem parallel_failFast_witness:
  "parallel_outcome True 2 (two_done True) = Some (Inl (WorkerError (JsError ''no'')))"
  using parallel_failFast [OF two_tasks_run]
  by (simp add: task_fails_def task_error_def two_tasks_def to_Error_def)

end
