(* ===== verification/Guards.thy ===== *)
theory Guards
  imports SessionAuth Throttler
begin

text \<open>
  What runs before a handler: the global guards of \<open>src/security/security.module.ts\<close> in their order
  (\<open>JwtAuthGuard\<close>, \<open>RolesGuard\<close>, \<open>PermissionsGuard\<close>, \<open>ThrottlerGuard\<close>), the request and correlation
  identifiers (\<open>src/presentation/rest\<close>), the \<open>CurrentUser\<close> decorator and \<open>createRequestContext\<close>
  (\<open>src/common\<close>). Passport is third-party: \<open>verify\<close> is what passport-jwt makes of the authorization
  header, the message of its failure or the verified payload; a failure reaches \<open>handleRequest\<close> as
  \<open>info\<close>, an exception of \<open>JwtStrategy.validate\<close> as \<open>err\<close>. \<open>Metadata\<close> is what the decorators put on a
  handler or its class.
\<close>

record Metadata =
  md_isPublic :: "bool option"
  md_roles :: "string list option"
  md_permissions :: "string list option"

text \<open>\<open>reflector.getAllAndOverride(KEY, [handler, class])\<close>: the first that is defined.\<close>

definition override :: "'a option \<Rightarrow> 'a option \<Rightarrow> 'a option" where
  "override handler cls = (case handler of Some x \<Rightarrow> Some x | None \<Rightarrow> cls)"

definition forbidden :: "string \<Rightarrow> string \<Rightarrow> nat \<Rightarrow> string \<Rightarrow> ErrorCode \<Rightarrow> (string \<times> json) list \<Rightarrow> exn" where
  "forbidden slug title status detail code extra =
     HttpExc 403 \<lparr>pb_type = ''https://enterprise.system/errors/'' @ slug, pb_title = title, pb_status = status,
       pb_detail = detail, pb_code = code, pb_extra = extra\<rparr>"

section \<open>The guards\<close>

definition JwtAuthGuard_handleRequest ::
  "exn option \<Rightarrow> AuthenticatedUser option \<Rightarrow> string option \<Rightarrow> exn + AuthenticatedUser" where
  "JwtAuthGuard_handleRequest err user info =
     (if info = Some ''jwt expired''
      then Inl (HttpExc 401 \<lparr>pb_type = ''https://enterprise.system/errors/token-expired'', pb_title = ''Token Expired'',
             pb_status = 401, pb_detail = ''Your access token has expired. Please refresh your token.'',
             pb_code = TOKEN_EXPIRED, pb_extra = [(''instance'', JStr ''/auth/refresh'')]\<rparr>)
      else if info = Some ''No auth token'' \<or> info = Some ''invalid token''
      then Inl (unauthorized ''token-invalid'' ''Invalid Token'' ''The provided authentication token is invalid.'' TOKEN_INVALID)
      else (case user of
              Some u \<Rightarrow>
                (case err of
                   None \<Rightarrow> Inr u
                 | Some e \<Rightarrow> Inl (unauthorized ''unauthorized'' ''Unauthorized'' (exn_message e) INVALID_CREDENTIALS))
            | None \<Rightarrow> Inl (unauthorized ''unauthorized'' ''Unauthorized''
                (case err of Some e \<Rightarrow> exn_message e
                 | None \<Rightarrow> ''Authentication required to access this resource.'') INVALID_CREDENTIALS)))"

text \<open>The result is \<open>request.user\<close>, absent on a public route.\<close>

definition JwtAuthGuard_canActivate ::
  "'s session_db \<Rightarrow> (string option \<Rightarrow> string + TokenPayload) \<Rightarrow> Metadata \<Rightarrow> Metadata \<Rightarrow> string option \<Rightarrow>
     ('s, exn, AuthenticatedUser option) proc" where
  "JwtAuthGuard_canActivate d verify handler cls authorization =
     (if override (md_isPublic handler) (md_isPublic cls) = Some True then returnP None
      else case verify authorization of
          Inl info \<Rightarrow> liftP (bindE (JwtAuthGuard_handleRequest None None (Some info)) (\<lambda>u. Inr (Some u)))
        | Inr payload \<Rightarrow>
            bindP (catchP (bindP (Jwt_validate d payload) (\<lambda>u. returnP (Inr u))) (\<lambda>e. returnP (Inl e)))
              (\<lambda>r. liftP (bindE (case r of
                     Inr u \<Rightarrow> JwtAuthGuard_handleRequest None (Some u) None
                   | Inl e \<Rightarrow> JwtAuthGuard_handleRequest (Some e) None None) (\<lambda>u. Inr (Some u)))))"

definition RolesGuard_canActivate :: "Metadata \<Rightarrow> Metadata \<Rightarrow> AuthenticatedUser option \<Rightarrow> exn + unit" where
  "RolesGuard_canActivate handler cls user =
     (case override (md_roles handler) (md_roles cls) of
        None \<Rightarrow> Inr ()
      | Some requiredRoles \<Rightarrow>
          if requiredRoles = [] then Inr ()
          else (case user of
                  None \<Rightarrow> Inl (forbidden ''unauthorized'' ''Unauthorized'' 401 ''Authentication required.'' INVALID_CREDENTIALS [])
                | Some u \<Rightarrow>
                    if list_ex (\<lambda>role. role \<in> set (us_roles u)) requiredRoles then Inr ()
                    else Inl (forbidden ''forbidden'' ''Forbidden'' 403
                           (''This action requires one of the following roles: '' @ str_join '', '' requiredRoles @ ''.'') FORBIDDEN
                           [(''requiredRoles'', JArr (map JStr requiredRoles)), (''userRoles'', JArr (map JStr (us_roles u)))])))"

definition PermissionsGuard_canActivate :: "Metadata \<Rightarrow> Metadata \<Rightarrow> AuthenticatedUser option \<Rightarrow> exn + unit" where
  "PermissionsGuard_canActivate handler cls user =
     (case override (md_permissions handler) (md_permissions cls) of
        None \<Rightarrow> Inr ()
      | Some requiredPermissions \<Rightarrow>
          if requiredPermissions = [] then Inr ()
          else (case user of
                  None \<Rightarrow> Inl (forbidden ''unauthorized'' ''Unauthorized'' 401 ''Authentication required.'' INVALID_CREDENTIALS [])
                | Some u \<Rightarrow>
                    let missingPermissions = filter (\<lambda>permission. permission \<notin> set (us_permissions u)) requiredPermissions
                    in if 0 < length missingPermissions
                       then Inl (forbidden ''insufficient-permissions'' ''Insufficient Permissions'' 403
                              (''Missing required permissions: '' @ str_join '', '' missingPermissions @ ''.'') FORBIDDEN
                              [(''requiredPermissions'', JArr (map JStr requiredPermissions)),
                               (''missingPermissions'', JArr (map JStr missingPermissions))])
                       else Inr ()))"

text \<open>The four guards in the order \<open>SecurityModule\<close> registers them; the throttler sees the user the
  first one attached.\<close>

definition SecurityModule_guards ::
  "'s session_db \<Rightarrow> (string option \<Rightarrow> string + TokenPayload) \<Rightarrow> ThrottleConfig \<Rightarrow> int \<Rightarrow> int \<Rightarrow> Metadata \<Rightarrow> Metadata \<Rightarrow>
     string option \<Rightarrow> ThrottleRequest \<Rightarrow> 's \<times> rate_store \<Rightarrow>
     ((exn + AuthenticatedUser option) \<times> headers) \<times> 's \<times> rate_store" where
  "SecurityModule_guards d verify cfg now now' handler cls authorization request = (\<lambda>(s, store).
     case JwtAuthGuard_canActivate d verify handler cls authorization s of
       (Inl e, s') \<Rightarrow> ((Inl e, []), s', store)
     | (Inr user, s') \<Rightarrow>
         (case bindE (RolesGuard_canActivate handler cls user) (\<lambda>_. PermissionsGuard_canActivate handler cls user) of
            Inl e \<Rightarrow> ((Inl e, []), s', store)
          | Inr _ \<Rightarrow>
              (case Throttler_canActivate cfg now now' (request\<lparr>rq_userId := map_option us_id user\<rparr>) store of
                 (r, headers, store') \<Rightarrow> ((bindE r (\<lambda>_. Inr user), headers), s', store'))))"

section \<open>Identifiers, current user and request context\<close>

text \<open>\<open>RequestIdGuard\<close> and \<open>CorrelationIdMiddleware\<close>: the identifier on the request, and the response
  header; \<open>uuid\<close> is what \<open>randomUUID\<close> gives.\<close>

definition RequestIdGuard_canActivate :: "string option \<Rightarrow> string \<Rightarrow> string \<times> headers" where
  "RequestIdGuard_canActivate existingId uuid =
     (let requestId = (case existingId of Some i \<Rightarrow> i | None \<Rightarrow> uuid) in (requestId, [(''x-request-id'', requestId)]))"

definition CorrelationIdMiddleware_use :: "string option \<Rightarrow> string \<Rightarrow> string \<times> headers" where
  "CorrelationIdMiddleware_use existingId uuid =
     (let correlationId = (case existingId of Some i \<Rightarrow> i | None \<Rightarrow> uuid)
      in (correlationId, [(''x-correlation-id'', correlationId)]))"

definition user_json :: "AuthenticatedUser \<Rightarrow> (string \<times> json) list" where
  "user_json u = [(''id'', JStr (us_id u)), (''email'', JStr (us_email u)),
     (''roles'', JArr (map JStr (us_roles u))), (''permissions'', JArr (map JStr (us_permissions u)))]"

definition CurrentUser :: "string option \<Rightarrow> AuthenticatedUser option \<Rightarrow> json" where
  "CurrentUser data user =
     (case user of
        None \<Rightarrow> JNull
      | Some u \<Rightarrow>
          (case data of
             None \<Rightarrow> JObj (user_json u)
           | Some p \<Rightarrow> if p = [] then JObj (user_json u) else json_get p (user_json u)))"

record RequestContext =
  rx_requestId :: string
  rx_userId :: "string option"
  rx_tenantId :: "string option"
  rx_correlationId :: string
  rx_ipAddress :: string
  rx_userAgent :: string
  rx_locale :: string
  rx_receivedAt :: int

record RequestContextOverrides =
  ox_requestId :: "string option"
  ox_userId :: "string option"
  ox_tenantId :: "string option"
  ox_correlationId :: "string option"
  ox_ipAddress :: "string option"
  ox_userAgent :: "string option"
  ox_locale :: "string option"
  ox_receivedAt :: "int option"

definition or_default :: "'a option \<Rightarrow> 'a \<Rightarrow> 'a" where
  "or_default x d = (case x of Some a \<Rightarrow> a | None \<Rightarrow> d)"

definition createRequestContext :: "string \<Rightarrow> string \<Rightarrow> int \<Rightarrow> RequestContextOverrides \<Rightarrow> RequestContext" where
  "createRequestContext uuid uuid' now overrides =
     \<lparr>rx_requestId = or_default (ox_requestId overrides) uuid, rx_userId = ox_userId overrides,
      rx_tenantId = ox_tenantId overrides, rx_correlationId = or_default (ox_correlationId overrides) uuid',
      rx_ipAddress = or_default (ox_ipAddress overrides) ''127.0.0.1'',
      rx_userAgent = or_default (ox_userAgent overrides) ''unknown'',
      rx_locale = or_default (ox_locale overrides) ''en'', rx_receivedAt = or_default (ox_receivedAt overrides) now\<rparr>"

section \<open>Lemmas\<close>

lemma handleRequest_iff:
  "JwtAuthGuard_handleRequest err user info = Inr u \<longleftrightarrow>
     user = Some u \<and> err = None \<and> info \<notin> {Some ''jwt expired'', Some ''No auth token'', Some ''invalid token''}"
  by (auto simp: JwtAuthGuard_handleRequest_def split: option.splits)

lemma roles_ok_iff:
  "RolesGuard_canActivate handler cls (Some u) = Inr () \<longleftrightarrow>
     (\<forall>rs. override (md_roles handler) (md_roles cls) = Some rs \<and> rs \<noteq> [] \<longrightarrow> set rs \<inter> set (us_roles u) \<noteq> {})"
  by (auto simp: RolesGuard_canActivate_def list_ex_iff split: option.split)

lemma permissions_ok_iff:
  "PermissionsGuard_canActivate handler cls (Some u) = Inr () \<longleftrightarrow>
     (\<forall>ps. override (md_permissions handler) (md_permissions cls) = Some ps \<longrightarrow> set ps \<subseteq> set (us_permissions u))"
  by (auto simp: PermissionsGuard_canActivate_def Let_def filter_empty_conv split: option.split)

lemma throttler_refusal_keeps_store:
  "fst (Throttler_canActivate cfg now now' request store) = Inl e \<Longrightarrow>
     snd (snd (Throttler_canActivate cfg now now' request store)) = store"
  by (auto simp: throttle_defs split: option.splits if_splits)

lemma jwt_guard_user:
  assumes "prisma_sessions d sess accounts" and "override (md_isPublic handler) (md_isPublic cls) \<noteq> Some True"
  obtains (refused) e where "JwtAuthGuard_canActivate d verify handler cls authorization s = (Inl e, s)"
      "\<nexists>p u. verify authorization = Inr p \<and> Jwt_validate d p s = (Inr u, s)"
    | (passed) p u where "JwtAuthGuard_canActivate d verify handler cls authorization s = (Inr (Some u), s)"
      "verify authorization = Inr p" "Jwt_validate d p s = (Inr u, s)"
proof (cases "verify authorization")
  case (Inl info)
  obtain e where "JwtAuthGuard_handleRequest None None (Some info) = Inl e"
    by (cases "JwtAuthGuard_handleRequest None None (Some info)") (auto simp: handleRequest_iff)
  with Inl show ?thesis
    using refused [of e] assms(2) by (simp add: JwtAuthGuard_canActivate_def)
next
  case (Inr p)
  obtain r where r: "Jwt_validate d p s = (r, s)"
    using prisma_sessions.validate_cases [OF assms(1), of p s] by blast
  show ?thesis
  proof (cases r)
    case (Inl e)
    then show ?thesis using refused assms(2) Inr r
      by (simp add: JwtAuthGuard_canActivate_def JwtAuthGuard_handleRequest_def bindP_def catchP_def)
  next
    case (Inr u)
    then show ?thesis using passed [of u p] assms(2) \<open>verify authorization = Inr p\<close> r
      by (simp add: JwtAuthGuard_canActivate_def JwtAuthGuard_handleRequest_def bindP_def catchP_def)
  qed
qed

lemma validated_user:
  assumes "prisma_sessions d sess accounts"
  shows "(\<exists>u. Jwt_validate d p s = (Inr u, s) \<and> Q (us_id u) (set (us_roles u)) (set (us_permissions u))) \<longleftrightarrow>
    (\<exists>x user. x \<in> set (sess s) \<and> ss_userId x = tk_sub p \<and> ss_revokedAt x = None \<and>
      accounts s (tk_sub p) = Some user \<and> au_status user = ACTIVE \<and>
      Q (au_id user) (fst ` set (au_roles user)) (\<Union>r\<in>set (au_roles user). set (role_permissions (snd r))))"
proof (cases "find (\<lambda>r. ss_userId r = tk_sub p \<and> ss_revokedAt r = None) (sess s)")
  case None
  then have "\<nexists>u. Jwt_validate d p s = (Inr u, s)"
    using prisma_sessions.validate_cases [OF assms, of p s] by simp
  moreover have "\<nexists>x. x \<in> set (sess s) \<and> ss_userId x = tk_sub p \<and> ss_revokedAt x = None"
    using None by (auto simp: find_None_iff_all)
  ultimately show ?thesis by blast
next
  case (Some x)
  then have x: "x \<in> set (sess s)" "ss_userId x = tk_sub p" "ss_revokedAt x = None" by (auto dest: find_Some_in)
  have perms: "set (unique_from [] (concat (map (role_permissions \<circ> snd) rs))) = (\<Union>r\<in>set rs. set (role_permissions (snd r)))"
    for rs using unique_from_props [of "[]" "concat (map (role_permissions \<circ> snd) rs)"] by simp
  show ?thesis
    using prisma_sessions.validate_cases [OF assms, of p s] Some x by (auto simp: perms split: option.splits)
qed

section \<open>Properties\<close>

text \<open>
  C3. The security chain end to end. A request to a route that is not public gets through exactly when
  its token verifies, its user is active and has a session that is not revoked, the user holds one of
  the roles the route asks for (if it asks for any) and, through its roles, all of the permissions, and
  the rate limit of that user admits it. A request refused at any point leaves the rate-limit store as
  it was: attempts with bad tokens or missing rights are never counted.
\<close>
theorem guards_admit_iff:
  assumes "prisma_sessions d sess accounts" and "override (md_isPublic handler) (md_isPublic cls) \<noteq> Some True"
  shows "((\<exists>u h t. SecurityModule_guards d verify cfg now now' handler cls authorization rq (s, store) = ((Inr u, h), t)) \<longleftrightarrow>
     (\<exists>p x user. verify authorization = Inr p \<and> x \<in> set (sess s) \<and> ss_userId x = tk_sub p \<and> ss_revokedAt x = None \<and>
       accounts s (tk_sub p) = Some user \<and> au_status user = ACTIVE \<and>
       (\<forall>rs. override (md_roles handler) (md_roles cls) = Some rs \<and> rs \<noteq> [] \<longrightarrow>
         set rs \<inter> fst ` set (au_roles user) \<noteq> {}) \<and>
       (\<forall>ps. override (md_permissions handler) (md_permissions cls) = Some ps \<longrightarrow>
         set ps \<subseteq> (\<Union>r\<in>set (au_roles user). set (role_permissions (snd r)))) \<and>
       is_ok (fst (Throttler_canActivate cfg now now' (rq\<lparr>rq_userId := Some (au_id user)\<rparr>) store)))) \<and>
    (\<forall>e h s' store'. SecurityModule_guards d verify cfg now now' handler cls authorization rq (s, store) =
       ((Inl e, h), s', store') \<longrightarrow> store' = store)"
  (is "(?L \<longleftrightarrow> ?R) \<and> ?K")
proof -
  define Q where "Q = (\<lambda>i roles perms.
    (\<forall>rs. override (md_roles handler) (md_roles cls) = Some rs \<and> rs \<noteq> [] \<longrightarrow> set rs \<inter> roles \<noteq> {}) \<and>
    (\<forall>ps. override (md_permissions handler) (md_permissions cls) = Some ps \<longrightarrow> set ps \<subseteq> perms) \<and>
    is_ok (fst (Throttler_canActivate cfg now now' (rq\<lparr>rq_userId := Some i\<rparr>) store)))"
  have R: "?R \<longleftrightarrow> (\<exists>p. verify authorization = Inr p \<and>
      (\<exists>u. Jwt_validate d p s = (Inr u, s) \<and> Q (us_id u) (set (us_roles u)) (set (us_permissions u))))"
    by (simp only: validated_user [OF assms(1), where Q = Q]) (auto simp: Q_def)
  show ?thesis
  proof (cases rule: jwt_guard_user [OF assms, of verify authorization s, case_names refused passed])
    case (refused e)
    then have "\<not> ?L" ?K by (simp_all add: SecurityModule_guards_def)
    moreover have "\<not> ?R" unfolding R using refused(2) by blast
    ultimately show ?thesis by blast
  next
    case (passed p u)
    have R': "?R \<longleftrightarrow> Q (us_id u) (set (us_roles u)) (set (us_permissions u))"
      unfolding R using passed(2,3) by auto
    obtain r h store' where thr: "Throttler_canActivate cfg now now' (rq\<lparr>rq_userId := Some (us_id u)\<rparr>) store = (r, h, store')"
      by (metis prod_cases3)
    show ?thesis
    proof (cases "bindE (RolesGuard_canActivate handler cls (Some u)) (\<lambda>_. PermissionsGuard_canActivate handler cls (Some u))")
      case (Inl e)
      then have "\<not> ?L" ?K using passed(1) by (simp_all add: SecurityModule_guards_def)
      moreover have "\<not> ?R"
        unfolding R' Q_def roles_ok_iff [symmetric] permissions_ok_iff [symmetric] using Inl by auto
      ultimately show ?thesis by blast
    next
      case (Inr ok)
      then have "RolesGuard_canActivate handler cls (Some u) = Inr ()" "PermissionsGuard_canActivate handler cls (Some u) = Inr ()"
        by (auto simp: bindE_eq_Inr)
      then have "?R \<longleftrightarrow> is_ok r"
        unfolding R' Q_def roles_ok_iff [symmetric] permissions_ok_iff [symmetric] by (simp add: thr)
      moreover have run: "SecurityModule_guards d verify cfg now now' handler cls authorization rq (s, store) =
          ((bindE r (\<lambda>_. Inr (Some u)), h), s, store')"
        using passed(1) Inr thr by (simp add: SecurityModule_guards_def)
      moreover have "r = Inl e \<Longrightarrow> store' = store" for e
        using throttler_refusal_keeps_store [of cfg now now' "rq\<lparr>rq_userId := Some (us_id u)\<rparr>" store e] thr by simp
      ultimately show ?thesis by (cases r) auto
    qed
  qed
qed

definition sample_route :: Metadata where
  "sample_route = \<lparr>md_isPublic = None, md_roles = None, md_permissions = None\<rparr>"

theorem guards_admit_iff_witness:
  "\<exists>u h t. SecurityModule_guards mem_session_db (\<lambda>a. Inr \<lparr>tk_sub = ''u'', tk_email = ''a@b.c'', tk_roles = [], tk_jti = ''j''\<rparr>)
     \<lparr>tc_defaultLimit = 2, tc_defaultWindow = 60\<rparr> 5 5 sample_route sample_route (Some ''Bearer t'') plain_request
     (sample_auth_state, Map.empty) = ((Inr u, h), t)"
  using guards_admit_iff [OF memauth.prisma_sessions_axioms, where handler = sample_route and cls = sample_route and
      verify = "\<lambda>a. Inr \<lparr>tk_sub = ''u'', tk_email = ''a@b.c'', tk_roles = [], tk_jti = ''j''\<rparr>" and now = 5 and now' = 5 and
      cfg = "\<lparr>tc_defaultLimit = 2, tc_defaultWindow = 60\<rparr>" and authorization = "Some ''Bearer t''" and rq = plain_request and
      s = sample_auth_state and store = Map.empty]
  by (simp add: sample_route_def override_def sample_auth_state_def sample_account_def throttle_defs del: split_paired_Ex)

end
