(* ===== verification/EmailService.thy ===== *)
theory EmailService
  imports Errors RetryLoop Complex_Main
begin

text \<open>
  \<open>src/infrastructure/external-services/email.service.ts\<close>. The provider call \<open>doSend\<close>, which the source
  stubs with a message of its own (\<open>Email_doSend\<close>), is a parameter of \<open>Email_send\<close>, as its comment
  intends; logging is left out. A number is the rational it denotes; in the token bucket \<open>fl\<close> is the rounding
  of a result to a double, applied after each operation, with the laws of \<open>double_rounding\<close> (delays are not
  rounded); \<open>now\<close> is the \<open>Date.now()\<close> of the refill, \<open>rnd k\<close> the \<open>Math.random()\<close> after attempt \<open>k\<close>.
\<close>

datatype recipient = One string | Many "string list"

record SendEmailParams =
  ep_to :: recipient
  ep_subject :: string
  ep_templateId :: "string option"
  ep_html :: "string option"
  ep_text :: "string option"
  ep_variables :: "(string \<times> string) list option"

text \<open>\<open>Partial<SendEmailParams>\<close>: \<open>None\<close> is an absent key.\<close>

record SendEmailOptions =
  eo_to :: "recipient option"
  eo_subject :: "string option"
  eo_templateId :: "string option"
  eo_html :: "string option"
  eo_text :: "string option"
  eo_variables :: "(string \<times> string) list option"

record EmailResult =
  er_messageId :: string
  er_status :: string

record RateLimiterState =
  rs_tokens :: rat
  rs_lastRefill :: int

definition Email_maxRetries :: nat where "Email_maxRetries = 3"
definition Email_rateLimit :: rat where "Email_rateLimit = 100"
definition Email_rateLimitWindowMs :: rat where "Email_rateLimitWindowMs = 60000"

definition EmailService_new :: "int \<Rightarrow> RateLimiterState" where
  "EmailService_new now = \<lparr>rs_tokens = Email_rateLimit, rs_lastRefill = now\<rparr>"

definition Email_refillTokens :: "(rat \<Rightarrow> rat) \<Rightarrow> int \<Rightarrow> RateLimiterState \<Rightarrow> RateLimiterState" where
  "Email_refillTokens fl now st =
     (let elapsed = fl (of_int (now - rs_lastRefill st));
          refillRate = fl (Email_rateLimit / Email_rateLimitWindowMs);
          tokensToAdd = fl (elapsed * refillRate)
      in \<lparr>rs_tokens = min Email_rateLimit (fl (rs_tokens st + tokensToAdd)), rs_lastRefill = now\<rparr>)"

text \<open>The head of \<open>send\<close>: refill, refuse when no token is left, take one.\<close>

definition Email_acquire :: "(rat \<Rightarrow> rat) \<Rightarrow> int \<Rightarrow> RateLimiterState \<Rightarrow> bool \<times> RateLimiterState" where
  "Email_acquire fl now st =
     (let st1 = Email_refillTokens fl now st
      in if rs_tokens st1 \<le> 0 then (False, st1) else (True, st1\<lparr>rs_tokens := fl (rs_tokens st1 - 1)\<rparr>))"

definition absent :: "string option \<Rightarrow> bool" where
  "absent x \<longleftrightarrow> x = None \<or> x = Some []"

definition Email_validateParams :: "SendEmailParams \<Rightarrow> exn + unit" where
  "Email_validateParams params =
     (if ep_to params = One [] \<or> ep_to params = Many [] then Inl (JsError ''Email recipient is required'')
      else if ep_subject params = [] then Inl (JsError ''Email subject is required'')
      else if absent (ep_html params) \<and> absent (ep_text params) \<and> absent (ep_templateId params)
      then Inl (JsError ''Email must have html, text, or templateId'')
      else Inr ())"

definition Email_isRetryable :: "exn \<Rightarrow> bool" where
  "Email_isRetryable error =
     (if is_Error error
      then let message = str_lower (exn_message error)
           in list_ex (str_includes message)
                [''timeout'', ''econnrefused'', ''econnreset'', ''rate limit'', ''429'', ''500'', ''502'', ''503'']
      else False)"

definition Email_calculateBackoff :: "nat \<Rightarrow> rat \<Rightarrow> rat" where
  "Email_calculateBackoff attempt rnd = 2 ^ (attempt - 1) * 1000 + rnd * 500"

definition Email_doSend :: "int \<Rightarrow> string \<Rightarrow> SendEmailParams \<Rightarrow> ('w, exn, EmailResult) proc" where
  "Email_doSend now suffix params =
     returnP \<lparr>er_messageId = ''msg_'' @ show_int now @ ''_'' @ suffix, er_status = ''sent''\<rparr>"

text \<open>The loop's last throw, and the throw for an error it does not retry (reading \<open>message\<close> of
  \<open>undefined\<close> is a \<open>TypeError\<close>).\<close>

definition email_exhausted :: "exn option \<Rightarrow> exn + EmailResult" where
  "email_exhausted lastError =
     Inl (ExternalServiceError ''EmailService''
       (''Failed to send email after '' @ show_nat Email_maxRetries @ '' attempts: '' @
        (case lastError of Some e \<Rightarrow> (if is_Error e then exn_message e else ''undefined'') | None \<Rightarrow> ''undefined'')))"

definition email_rejected :: "exn \<Rightarrow> exn" where
  "email_rejected error =
     (if is_Error error then ExternalServiceError ''EmailService'' (exn_message error)
      else JsTypeError ''Cannot read properties of undefined (reading 'message')'')"

function email_attempts ::
  "('w, exn, EmailResult) proc \<Rightarrow> (nat \<Rightarrow> rat) \<Rightarrow> nat \<Rightarrow> exn option \<Rightarrow> 'w \<Rightarrow> ((exn + EmailResult) \<times> rat list) \<times> 'w" where
  "email_attempts doSend rnd attempt lastError s =
     (if Email_maxRetries < attempt then ((email_exhausted lastError, []), s)
      else (case doSend s of
              (Inr result, s') \<Rightarrow> ((Inr result, []), s')
            | (Inl error, s') \<Rightarrow>
                if \<not> Email_isRetryable error then ((Inl (email_rejected error), []), s')
                else (case email_attempts doSend rnd (Suc attempt) (Some error) s' of
                        ((r, ds), s'') \<Rightarrow>
                          ((r, (if attempt < Email_maxRetries then [Email_calculateBackoff attempt (rnd attempt)] else []) @ ds),
                           s''))))"
  by pat_completeness auto
termination
  by (relation "measure (\<lambda>(doSend, rnd, attempt, e, s). Suc Email_maxRetries - attempt)") auto

declare email_attempts.simps [simp del]

definition Email_send ::
  "(rat \<Rightarrow> rat) \<Rightarrow> (SendEmailParams \<Rightarrow> ('w, exn, EmailResult) proc) \<Rightarrow> int \<Rightarrow> (nat \<Rightarrow> rat) \<Rightarrow> SendEmailParams \<Rightarrow>
     RateLimiterState \<times> 'w \<Rightarrow> ((exn + EmailResult) \<times> rat list) \<times> RateLimiterState \<times> 'w" where
  "Email_send fl doSend now rnd params = (\<lambda>(st, s).
     case Email_acquire fl now st of
       (False, st') \<Rightarrow>
         ((Inl (ExternalServiceError ''EmailService'' ''Rate limit exceeded. Try again later.''), []), st', s)
     | (True, st') \<Rightarrow>
         (case Email_validateParams params of
            Inl e \<Rightarrow> ((Inl e, []), st', s)
          | Inr _ \<Rightarrow> (case email_attempts (doSend params) rnd 1 None s of (r, s') \<Rightarrow> (r, st', s'))))"

definition over :: "'a option \<Rightarrow> 'a \<Rightarrow> 'a" where
  "over x d = (case x of Some a \<Rightarrow> a | None \<Rightarrow> d)"

definition Email_sendTemplate ::
  "(rat \<Rightarrow> rat) \<Rightarrow> (SendEmailParams \<Rightarrow> ('w, exn, EmailResult) proc) \<Rightarrow> int \<Rightarrow> (nat \<Rightarrow> rat) \<Rightarrow> recipient \<Rightarrow> string \<Rightarrow> (string \<times> string) list \<Rightarrow>
     SendEmailOptions \<Rightarrow> RateLimiterState \<times> 'w \<Rightarrow> ((exn + EmailResult) \<times> rat list) \<times> RateLimiterState \<times> 'w" where
  "Email_sendTemplate fl doSend now rnd recipients templateId variables options =
     Email_send fl doSend now rnd
       \<lparr>ep_to = over (eo_to options) recipients, ep_subject = over (eo_subject options) ''Notification'',
        ep_templateId = Some (over (eo_templateId options) templateId), ep_html = eo_html options,
        ep_text = eo_text options, ep_variables = Some (over (eo_variables options) variables)\<rparr>"

text \<open>Sends at the given times, and which of them passed the rate limit.\<close>

fun email_acquires :: "(rat \<Rightarrow> rat) \<Rightarrow> int list \<Rightarrow> RateLimiterState \<Rightarrow> bool list \<times> RateLimiterState" where
  "email_acquires fl [] st = ([], st)"
| "email_acquires fl (t # ts) st =
     (case Email_acquire fl t st of (ok, st') \<Rightarrow> map_prod (Cons ok) id (email_acquires fl ts st'))"

section \<open>Doubles\<close>

text \<open>
  Rounding to the nearest double, as far as the bucket needs it: it keeps the order, is exact on the integers up to
  \<open>2 ^ 53\<close>, and its error is at most half a unit in the last place (the absolute term covers subnormal results).
\<close>

definition double_rounding :: "(rat \<Rightarrow> rat) \<Rightarrow> bool" where
  "double_rounding fl \<longleftrightarrow>
     (\<forall>x y. \<bar>x\<bar> \<le> 2 ^ 100 \<and> \<bar>y\<bar> \<le> 2 ^ 100 \<and> x \<le> y \<longrightarrow> fl x \<le> fl y) \<and>
     (\<forall>n. \<bar>n\<bar> \<le> 2 ^ 53 \<longrightarrow> fl (of_int n) = of_int n) \<and>
     (\<forall>x. \<bar>x\<bar> \<le> 2 ^ 100 \<longrightarrow> \<bar>fl x - x\<bar> \<le> \<bar>x\<bar> / 2 ^ 53 + 1 / 2 ^ 100)"

text \<open>Rounding to multiples of \<open>1 / 2 ^ 100\<close>, downwards.\<close>

definition sample_fl :: "rat \<Rightarrow> rat" where
  "sample_fl x = of_int \<lfloor>x * 2 ^ 100\<rfloor> / 2 ^ 100"

lemma sample_fl_rounding: "double_rounding sample_fl"
proof -
  have "sample_fl x \<le> sample_fl y" if "x \<le> y" for x y
    using that by (simp add: sample_fl_def divide_right_mono floor_mono)
  moreover have "sample_fl (of_int n) = of_int n" for n :: int
  proof -
    have "(of_int n :: rat) * 2 ^ 100 = of_int (n * 2 ^ 100)" by simp
    then have "\<lfloor>(of_int n :: rat) * 2 ^ 100\<rfloor> = n * 2 ^ 100" by (simp only: floor_of_int)
    then show ?thesis by (simp add: sample_fl_def)
  qed
  moreover have "\<bar>sample_fl x - x\<bar> \<le> \<bar>x\<bar> / 2 ^ 53 + 1 / 2 ^ 100" for x
  proof -
    have "of_int \<lfloor>x * 2 ^ 100\<rfloor> \<le> x * 2 ^ 100" "x * 2 ^ 100 < of_int \<lfloor>x * 2 ^ 100\<rfloor> + 1" by linarith+
    then have "sample_fl x \<le> x" "x < sample_fl x + 1 / 2 ^ 100" by (simp_all add: sample_fl_def field_simps)
    moreover have "0 \<le> \<bar>x\<bar> / 2 ^ 53" by simp
    ultimately show ?thesis by linarith
  qed
  ultimately show ?thesis by (simp add: double_rounding_def)
qed

section \<open>Lemmas\<close>

lemma fl_mono: "double_rounding fl \<Longrightarrow> \<bar>x\<bar> \<le> 2 ^ 100 \<Longrightarrow> \<bar>y\<bar> \<le> 2 ^ 100 \<Longrightarrow> x \<le> y \<Longrightarrow> fl x \<le> fl y"
  by (simp add: double_rounding_def)

lemma fl_int: "double_rounding fl \<Longrightarrow> \<bar>n\<bar> \<le> 2 ^ 53 \<Longrightarrow> fl (of_int n) = of_int n"
  by (simp add: double_rounding_def)

lemma fl_consts: "double_rounding fl \<Longrightarrow> fl 0 = 0" "double_rounding fl \<Longrightarrow> fl (- 1) = - 1"
  using fl_int [of fl 0] fl_int [of fl "- 1"] by simp_all

lemma fl_error: "double_rounding fl \<Longrightarrow> \<bar>x\<bar> \<le> 2 ^ 100 \<Longrightarrow> fl x \<le> x + \<bar>x\<bar> / 2 ^ 53 + 1 / 2 ^ 100"
  unfolding double_rounding_def by (drule conjunct2, drule conjunct2, drule spec [of _ x]) linarith

text \<open>What a refill adds.\<close>

definition refill_slope :: rat where "refill_slope = (1 + 1 / 2 ^ 50) / 600"

lemma refill_added:
  assumes fl: "double_rounding fl" and n: "0 \<le> n" "n \<le> 2 ^ 53"
  shows "0 \<le> fl (of_int n * fl (100 / 60000))" "fl (of_int n * fl (100 / 60000)) \<le> of_int n * refill_slope"
proof -
  define r where "r = fl (100 / 60000)"
  have r0: "0 \<le> r" using fl_mono [OF fl, of 0 "100 / 60000"] fl_consts [OF fl] by (simp add: r_def)
  have r1: "r \<le> 1 / 600 + 1 / 600 / 2 ^ 53 + 1 / 2 ^ 100" using fl_error [OF fl, of "100 / 60000"] by (simp add: r_def)
  then have "r \<le> 1" by simp
  have N: "(0 :: rat) \<le> of_int n" "of_int n \<le> (2 ^ 53 :: rat)" using n by (simp, metis of_int_le_numeral_power_cancel_iff)
  have x: "0 \<le> of_int n * r" "of_int n * r \<le> 2 ^ 100"
    using mult_mono [OF N(2) \<open>r \<le> 1\<close>] N r0 by simp_all
  show "0 \<le> fl (of_int n * fl (100 / 60000))"
    using fl_mono [OF fl, of 0 "of_int n * r"] fl_consts [OF fl] x by (simp add: r_def)
  show "fl (of_int n * fl (100 / 60000)) \<le> of_int n * refill_slope"
  proof (cases "n = 0")
    case True
    then show ?thesis using fl_consts [OF fl] by simp
  next
    case False
    then have one: "(1 :: rat) \<le> of_int n" using n(1) by simp
    have "fl (of_int n * r) \<le> of_int n * r + of_int n * r / 2 ^ 53 + 1 / 2 ^ 100"
      using fl_error [OF fl, of "of_int n * r"] x by simp
    also have "\<dots> \<le> of_int n * (r + r / 2 ^ 53 + 1 / 2 ^ 100)" using one by (simp add: algebra_simps)
    also have "\<dots> \<le> of_int n * refill_slope"
      using r1 N(1) by (intro mult_left_mono) (simp_all add: refill_slope_def)
    finally show ?thesis by (simp add: r_def)
  qed
qed

definition step_error :: rat where "step_error = 100 / 2 ^ 53 + 1 / 2 ^ 100"

lemma refill_bounds:
  assumes fl: "double_rounding fl" and t: "0 \<le> t - rs_lastRefill st" "t - rs_lastRefill st \<le> 2 ^ 53"
    and tokens: "- 1 \<le> rs_tokens st" "rs_tokens st \<le> 100"
  defines "f \<equiv> rs_tokens (Email_refillTokens fl t st)"
  shows "- 1 \<le> f" "f \<le> 100" "f \<le> rs_tokens st + of_int (t - rs_lastRefill st) * refill_slope + step_error"
    "k \<le> 100 \<Longrightarrow> of_nat k \<le> rs_tokens st \<Longrightarrow> of_nat k \<le> f"
proof -
  define n where "n = t - rs_lastRefill st"
  define a where "a = fl (of_int n * fl (100 / 60000))"
  have n: "0 \<le> n" "n \<le> 2 ^ 53" using t by (simp_all add: n_def)
  have "fl (of_int n) = of_int n" using fl_int [OF fl, of n] n by simp
  then have f: "f = min 100 (fl (rs_tokens st + a))"
    by (simp add: f_def Email_refillTokens_def Email_rateLimit_def Email_rateLimitWindowMs_def Let_def a_def n_def)
  have a: "0 \<le> a" "a \<le> of_int n * refill_slope" using refill_added [OF fl n] by (simp_all add: a_def)
  have "(of_int n :: rat) \<le> 2 ^ 53" using n(2) by (metis of_int_le_numeral_power_cancel_iff)
  then have "of_int n * refill_slope \<le> 2 ^ 53 * 1" using n(1) by (intro mult_mono) (simp_all add: refill_slope_def)
  with a(2) have a3: "a \<le> 2 ^ 53" by linarith
  define y where "y = rs_tokens st + a"
  have y: "- 1 \<le> y" "\<bar>y\<bar> \<le> 2 ^ 100" using tokens a(1) a3 by (simp_all add: y_def)
  have "- 1 \<le> fl y" using fl_mono [OF fl _ y(2) y(1)] fl_consts(2) [OF fl] by simp
  then show "- 1 \<le> f" by (simp add: f y_def)
  show "f \<le> 100" by (simp add: f)
  have "f \<le> y + step_error"
  proof (cases "y \<le> 100")
    case True
    then have "\<bar>y\<bar> \<le> 100" using y(1) by linarith
    then have "fl y \<le> y + 100 / 2 ^ 53 + 1 / 2 ^ 100" using fl_error [OF fl y(2)] by simp
    then show ?thesis by (simp add: f y_def [symmetric] step_error_def)
  next
    case False
    then show ?thesis by (simp add: f y_def [symmetric] step_error_def min_def)
  qed
  then show "f \<le> rs_tokens st + of_int (t - rs_lastRefill st) * refill_slope + step_error"
    using a(2) by (simp add: y_def n_def)
  show "of_nat k \<le> f" if k: "k \<le> 100" "of_nat k \<le> rs_tokens st"
  proof -
    have k': "(of_nat k :: rat) \<le> 100" using k(1) by (metis of_nat_le_iff of_nat_numeral)
    have "fl (of_nat k) = of_nat k" using fl_int [OF fl, of "int k"] k(1) by simp
    moreover have "of_nat k \<le> y" using k(2) a(1) by (simp add: y_def)
    ultimately have "of_nat k \<le> fl y" using fl_mono [OF fl _ y(2), of "of_nat k"] k' by simp
    then show ?thesis using k' by (simp add: f y_def)
  qed
qed

lemma take_bounds:
  assumes fl: "double_rounding fl" and f: "0 < f" "f \<le> 100"
  shows "- 1 \<le> fl (f - 1)" "fl (f - 1) \<le> 100" "fl (f - 1) \<le> f - 1 + step_error"
    "k < 100 \<Longrightarrow> of_nat (Suc k) \<le> f \<Longrightarrow> of_nat k \<le> fl (f - 1)"
proof -
  have x: "\<bar>f - 1\<bar> \<le> 2 ^ 100" "\<bar>f - 1\<bar> \<le> 100" using f by simp_all
  show "- 1 \<le> fl (f - 1)" using fl_mono [OF fl _ x(1), of "- 1"] fl_consts(2) [OF fl] f(1) by simp
  have "fl 99 = 99" using fl_int [OF fl, of 99] by simp
  then show "fl (f - 1) \<le> 100" using fl_mono [OF fl x(1), of 99] f(2) by simp
  show "fl (f - 1) \<le> f - 1 + step_error" using fl_error [OF fl x(1)] x(2) by (simp add: step_error_def)
  show "of_nat k \<le> fl (f - 1)" if "k < 100" "of_nat (Suc k) \<le> f"
  proof -
    have k: "(of_nat k :: rat) \<le> 100" using that(1) by (metis less_imp_le of_nat_le_iff of_nat_numeral)
    have "fl (of_nat k) = of_nat k" using fl_int [OF fl, of "int k"] that(1) by simp
    then show ?thesis using fl_mono [OF fl _ x(1), of "of_nat k"] that(2) k by simp
  qed
qed

lemma acquire_cases:
  fixes fl :: "rat \<Rightarrow> rat" and t :: int and st :: RateLimiterState
  defines "f \<equiv> rs_tokens (Email_refillTokens fl t st)"
  shows "Email_acquire fl t st = (\<not> f \<le> 0, \<lparr>rs_tokens = (if f \<le> 0 then f else fl (f - 1)), rs_lastRefill = t\<rparr>)"
  by (simp add: Email_acquire_def f_def Email_refillTokens_def Let_def)

lemma acquires_bound:
  assumes "double_rounding fl" and "sorted (rs_lastRefill st # ts)" and "\<forall>u\<in>set ts. u \<le> t" and "rs_lastRefill st \<le> t"
    and "t - rs_lastRefill st \<le> 2 ^ 53" and "- 1 \<le> rs_tokens st" "rs_tokens st \<le> 100"
  shows "of_nat (count_list (fst (email_acquires fl ts st)) True) \<le>
    rs_tokens st + of_int (t - rs_lastRefill st) * refill_slope + 1 + of_nat (length ts) * (2 * step_error)"
  using assms
proof (induction ts arbitrary: st)
  case Nil
  have "(0 :: rat) \<le> of_int (t - rs_lastRefill st) * refill_slope" using Nil(4) by (simp add: refill_slope_def)
  then show ?case using Nil(6) by simp
next
  case (Cons u ts)
  define f where "f = rs_tokens (Email_refillTokens fl u st)"
  let ?st = "\<lparr>rs_tokens = (if f \<le> 0 then f else fl (f - 1)), rs_lastRefill = u\<rparr>"
  have u: "0 \<le> u - rs_lastRefill st" "u - rs_lastRefill st \<le> 2 ^ 53" "u \<le> t" "sorted (u # ts)" "\<forall>u\<in>set ts. u \<le> t" "t - u \<le> 2 ^ 53"
    using Cons.prems(2-5) by auto
  note fill = refill_bounds [OF Cons.prems(1) u(1,2) Cons.prems(6,7), folded f_def]
  have tk: "0 < f \<Longrightarrow> - 1 \<le> fl (f - 1)" "0 < f \<Longrightarrow> fl (f - 1) \<le> 100" "0 < f \<Longrightarrow> fl (f - 1) \<le> f - 1 + step_error"
    using take_bounds [OF Cons.prems(1) _ fill(2)] by blast+
  have pos: "0 \<le> step_error" by (simp add: step_error_def)
  have "of_nat (count_list (fst (email_acquires fl ts ?st)) True) \<le>
      rs_tokens ?st + of_int (t - rs_lastRefill ?st) * refill_slope + 1 + of_nat (length ts) * (2 * step_error)"
    using Cons.prems(1) u fill tk by (intro Cons.IH) (simp_all add: not_le)
  moreover have "(if f \<le> 0 then 0 else 1) + rs_tokens ?st \<le> f + step_error" using tk(3) pos by auto
  moreover have "count_list (fst (email_acquires fl (u # ts) st)) True =
      (if f \<le> 0 then 0 else 1) + count_list (fst (email_acquires fl ts ?st)) True"
    using acquire_cases [of fl u st, folded f_def] by simp
  moreover have "of_int (u - rs_lastRefill st) * refill_slope + of_int (t - u) * refill_slope = of_int (t - rs_lastRefill st) * refill_slope"
    by (simp add: algebra_simps)
  ultimately show ?case using fill(3) by (auto simp: algebra_simps split: if_splits)
qed

lemma acquires_first:
  "double_rounding fl \<Longrightarrow> sorted (rs_lastRefill st # ts) \<Longrightarrow> \<forall>u\<in>set ts. u - rs_lastRefill st \<le> 2 ^ 53 \<Longrightarrow>
     length ts \<le> 100 \<Longrightarrow> of_nat (length ts) \<le> rs_tokens st \<Longrightarrow> rs_tokens st \<le> 100 \<Longrightarrow>
     fst (email_acquires fl ts st) = replicate (length ts) True"
proof (induction ts arbitrary: st)
  case (Cons u ts)
  define f where "f = rs_tokens (Email_refillTokens fl u st)"
  have u: "0 \<le> u - rs_lastRefill st" "u - rs_lastRefill st \<le> 2 ^ 53" "sorted (u # ts)" using Cons.prems(2,3) by auto
  have "(0 :: rat) \<le> of_nat (length (u # ts))" by (rule of_nat_0_le_iff)
  then have low: "- 1 \<le> rs_tokens st" using Cons.prems(5) by linarith
  note fill = refill_bounds [OF Cons.prems(1) u(1,2) low Cons.prems(6), folded f_def]
  have f: "of_nat (Suc (length ts)) \<le> f" using fill(4) [of "length (u # ts)"] Cons.prems(4,5) by simp
  have "(0 :: rat) \<le> of_nat (length ts)" by (rule of_nat_0_le_iff)
  with f have "0 < f" by simp
  note tk = take_bounds [OF Cons.prems(1) this fill(2)]
  have "of_nat (length ts) \<le> fl (f - 1)" using tk(4) [of "length ts"] f Cons.prems(4) by simp
  moreover have "\<forall>v\<in>set ts. v - u \<le> 2 ^ 53" using Cons.prems(3) u(1) by auto
  ultimately have "fst (email_acquires fl ts \<lparr>rs_tokens = fl (f - 1), rs_lastRefill = u\<rparr>) = replicate (length ts) True"
    using Cons.prems(1,4) u(3) tk(2) by (intro Cons.IH) simp_all
  then show ?case using acquire_cases [of fl u st, folded f_def] \<open>0 < f\<close> by simp
qed simp

section \<open>The retry loop\<close>

fun email_settled :: "exn + EmailResult \<Rightarrow> bool" where
  "email_settled (Inr r) = True"
| "email_settled (Inl e) = (\<not> Email_isRetryable e)"

fun email_result :: "exn + EmailResult \<Rightarrow> exn + EmailResult" where
  "email_result (Inr r) = Inr r"
| "email_result (Inl e) = Inl (email_rejected e)"

interpretation emailing: retry_loop Email_maxRetries out email_settled projl "\<lambda>k s. s = k" email_exhausted
  email_result "\<lambda>k. Email_calculateBackoff (Suc k) (rnd (Suc k))"
  "\<lambda>k le. email_attempts (nth_call out) rnd (Suc k) le" for out rnd
proof
  fix k s le
  assume "Email_maxRetries \<le> k"
  then show "email_attempts (nth_call out) rnd (Suc k) le s = ((email_exhausted le, []), s)"
    by (subst email_attempts.simps) simp
next
  fix k s le
  assume "k < Email_maxRetries" "s = k" "email_settled (out k)"
  then have "email_attempts (nth_call out) rnd (Suc k) le s = ((email_result (out k), []), Suc k)"
    by (subst email_attempts.simps) (cases "out k", auto simp: nth_call_def)
  then show "\<exists>s'. s' = Suc k \<and> email_attempts (nth_call out) rnd (Suc k) le s = ((email_result (out k), []), s')"
    by blast
next
  fix k s le
  assume k: "k < Email_maxRetries" "s = k" "\<not> email_settled (out k)"
  then obtain e where "out k = Inl e" "Email_isRetryable e" by (cases "out k") auto
  with k have "email_attempts (nth_call out) rnd (Suc k) le s =
      map_prod (map_prod id ((@) (if Suc k < Email_maxRetries then [Email_calculateBackoff (Suc k) (rnd (Suc k))] else []))) id
        (email_attempts (nth_call out) rnd (Suc (Suc k)) (Some (projl (out k))) (Suc k))"
    by (subst email_attempts.simps) (auto simp: nth_call_def split: prod.split)
  then show "\<exists>s'. s' = Suc k \<and> email_attempts (nth_call out) rnd (Suc k) le s =
      map_prod (map_prod id ((@) (if Suc k < Email_maxRetries then [Email_calculateBackoff (Suc k) (rnd (Suc k))] else []))) id
        (email_attempts (nth_call out) rnd (Suc (Suc k)) (Some (projl (out k))) s')"
    by blast
qed

text \<open>A send that passes the limit calls the provider up to three times, never for invalid parameters;
  its token is gone in every case.\<close>

lemma send_outcome:
  assumes "Email_acquire fl now st = (True, st')"
  shows "case Email_send fl (\<lambda>p. nth_call out) now rnd params (st, 0) of ((r, ds), st'', calls) \<Rightarrow> st'' = st' \<and>
    (case Email_validateParams params of
       Inl e \<Rightarrow> r = Inl e \<and> calls = 0
     | Inr _ \<Rightarrow>
        (case find (\<lambda>i. email_settled (out i)) [0..<3] of
           Some i \<Rightarrow> r = email_result (out i) \<and> calls = Suc i \<and> length ds = i
         | None \<Rightarrow> r = email_exhausted (Some (projl (out 2))) \<and> calls = 3 \<and> length ds = 2))"
  using emailing.loop_from [where k = 0 and s = 0 and out = out and rnd = rnd and le = None] assms
  by (cases "find (\<lambda>i. email_settled (out i)) [0..<3]"; cases "Email_validateParams params")
    (auto simp: Email_send_def Email_maxRetries_def)

section \<open>Properties\<close>

text \<open>
  C21. The token bucket bounds the sends, computed in doubles. Of sends at times that do not decrease, all no later than
  \<open>t\<close>, after the service started at \<open>t0\<close>: at most \<open>101 + (t - t0) / 600\<close> pass the limit, up to a rounding error
  of a factor \<open>1 + 1 / 2 ^ 50\<close> in the second term and \<open>1 / 2 ^ 45\<close> of a mail for each send that is tried (less than one mail in
  all for \<open>10 ^ 13\<close> sends in thirty thousand years); and the first hundred all pass. The 101st is no slip: any positive fraction
  of a token lets a mail through.
\<close>
theorem Email_rate_bound:
  assumes "double_rounding fl" and "sorted (t0 # ts)" and "\<forall>u\<in>set ts. u \<le> t" and "t0 \<le> t" and "t - t0 \<le> 2 ^ 53"
  shows "of_nat (count_list (fst (email_acquires fl ts (EmailService_new t0))) True) \<le>
      101 + (of_int (t - t0) :: rat) / 600 * (1 + 1 / 2 ^ 50) + of_nat (length ts) / 2 ^ 45 \<and>
    fst (email_acquires fl (take 100 ts) (EmailService_new t0)) = replicate (min (length ts) 100) True"
proof
  have st: "rs_tokens (EmailService_new t0) = 100" "rs_lastRefill (EmailService_new t0) = t0"
    by (simp_all add: EmailService_new_def Email_rateLimit_def)
  have "2 * step_error \<le> 1 / 2 ^ 45" by (simp add: step_error_def)
  then have e: "of_nat (length ts) * (2 * step_error) \<le> of_nat (length ts) / 2 ^ 45"
    using mult_left_mono [of "2 * step_error" "1 / 2 ^ 45" "of_nat (length ts)"] by simp
  have r: "of_int (t - t0) * refill_slope = of_int (t - t0) / 600 * (1 + 1 / 2 ^ 50)" by (simp add: refill_slope_def)
  have "of_nat (count_list (fst (email_acquires fl ts (EmailService_new t0))) True) \<le>
      (100 + of_int (t - t0) * refill_slope + 1) + of_nat (length ts) * (2 * step_error)"
    using acquires_bound [of fl "EmailService_new t0" ts t] assms unfolding st by (simp del: of_int_diff)
  also have "\<dots> \<le> (100 + of_int (t - t0) / 600 * (1 + 1 / 2 ^ 50) + 1) + of_nat (length ts) / 2 ^ 45"
    unfolding r by (rule add_left_mono [OF e])
  also have "\<dots> = 101 + of_int (t - t0) / 600 * (1 + 1 / 2 ^ 50) + of_nat (length ts) / 2 ^ 45" by simp
  finally show "of_nat (count_list (fst (email_acquires fl ts (EmailService_new t0))) True) \<le>
      101 + (of_int (t - t0) :: rat) / 600 * (1 + 1 / 2 ^ 50) + of_nat (length ts) / 2 ^ 45" .
  have "sorted (t0 # take 100 ts)" "\<forall>u\<in>set (take 100 ts). u - t0 \<le> 2 ^ 53"
    using assms(2,3,5) by (auto simp: sorted_wrt_take dest!: in_set_takeD)
  moreover have "(of_nat (length (take 100 ts)) :: rat) \<le> 100"
    by (metis (mono_tags) length_take min.cobounded2 of_nat_le_iff of_nat_numeral)
  ultimately show "fst (email_acquires fl (take 100 ts) (EmailService_new t0)) = replicate (min (length ts) 100) True"
    using acquires_first [of fl "EmailService_new t0" "take 100 ts"] assms(1) unfolding st by simp
qed

theorem Email_rate_bound_witness:
  "of_nat (count_list (fst (email_acquires sample_fl (replicate 200 7) (EmailService_new 7))) True) < (102 :: rat)"
  using Email_rate_bound [OF sample_fl_rounding, of 7 "replicate 200 7" 7] by (simp add: sorted_replicate)

end
