(* ===== verification/Bytes.thy ===== *)
theory Bytes
  imports Prelude "HOL-Library.Word"
begin

unbundle bit_operations_syntax

text \<open>
  Byte strings, and the encodings of Node's \<open>Buffer\<close> the source uses: \<open>utf8\<close>, \<open>hex\<close>, \<open>base64\<close> and
  \<open>base64url\<close>. A byte is an 8-bit word. What an encoding promises is the locale \<open>codec\<close>, interpreted on
  each of them. Decoding UTF-8 is partial here: a text with a character above U+00FF (the replacement
  character of an ill-formed sequence among them) has no counterpart in the model.
\<close>

type_synonym byte = "8 word"
type_synonym bytes = "byte list"

section \<open>Bits of a byte\<close>

lemma byte_eqI:
  fixes a b :: byte
  assumes "bit a 0 = bit b 0" "bit a 1 = bit b 1" "bit a 2 = bit b 2" "bit a 3 = bit b 3"
    "bit a 4 = bit b 4" "bit a 5 = bit b 5" "bit a 6 = bit b 6" "bit a 7 = bit b 7"
  shows "a = b"
proof (rule bit_word_eqI)
  fix n assume "n < LENGTH(8)"
  then consider "n = 0" | "n = 1" | "n = 2" | "n = 3" | "n = 4" | "n = 5" | "n = 6" | "n = 7" by fastforce
  then show "bit a n = bit b n" by cases (use assms in simp_all)
qed

lemma byte_bit_bound [simp]: "8 \<le> n \<Longrightarrow> \<not> bit (w :: byte) n"
  by (auto dest: bit_imp_le_length)

section \<open>The contract of an encoding\<close>

locale codec =
  fixes encode :: "'a \<Rightarrow> 'b" and decode :: "'b \<Rightarrow> 'a option"
  assumes decode_encode: "decode (encode x) = Some x"
begin

lemma encode_eq_iff: "encode x = encode y \<longleftrightarrow> x = y"
  by (metis decode_encode option.inject)

end

section \<open>UTF-8\<close>

definition utf8_char :: "char \<Rightarrow> bytes" where
  "utf8_char c =
     (let w = (of_char c :: byte)
      in if bit w 7 then [0xC0 OR drop_bit 6 w, 0x80 OR (w AND 0x3F)] else [w])"

definition utf8 :: "string \<Rightarrow> bytes" where
  "utf8 s = concat (map utf8_char s)"

fun utf8_text :: "bytes \<Rightarrow> string option" where
  "utf8_text [] = Some []"
| "utf8_text (b # bs) =
     (if \<not> bit b 7 then map_option ((#) (char_of (unat b))) (utf8_text bs)
      else (case bs of
              [] \<Rightarrow> None
            | c # cs \<Rightarrow>
                if (b = 0xC2 \<or> b = 0xC3) \<and> c AND 0xC0 = 0x80
                then map_option ((#) (char_of (unat (push_bit 6 (b AND 3) OR (c AND 0x3F))))) (utf8_text cs)
                else None))"

lemma char_of_byte: "char_of (unat (of_char c :: byte)) = c"
proof -
  have "unat (of_char c :: byte) = unat (word_of_nat (of_char c) :: byte)" by (metis of_nat_of_char)
  also have "\<dots> = of_char c" by (simp add: unsigned_of_nat take_bit_nat_eq_self)
  finally show ?thesis by simp
qed

lemma utf8_lead:
  fixes w :: byte
  assumes "bit w 7"
  shows "0xC0 OR drop_bit 6 w = 0xC2 \<or> 0xC0 OR drop_bit 6 w = 0xC3"
proof (cases "bit w 6")
  case True
  have "0xC0 OR drop_bit 6 w = 0xC3" by (rule byte_eqI) (use assms True in \<open>simp_all add: bit_simps\<close>)
  then show ?thesis ..
next
  case False
  have "0xC0 OR drop_bit 6 w = 0xC2" by (rule byte_eqI) (use assms False in \<open>simp_all add: bit_simps\<close>)
  then show ?thesis ..
qed

lemma utf8_tail:
  fixes w :: byte
  shows "(0x80 OR (w AND 0x3F)) AND 0xC0 = 0x80"
    and "push_bit 6 ((0xC0 OR drop_bit 6 w) AND 3) OR ((0x80 OR (w AND 0x3F)) AND 0x3F) = w"
    and "bit (0xC0 OR drop_bit 6 w) 7"
  by (rule byte_eqI; simp add: bit_simps)+ (simp add: bit_simps)

lemma utf8_char_text: "utf8_text (utf8_char c @ bs) = map_option ((#) c) (utf8_text bs)"
proof (cases "bit (of_char c :: byte) 7")
  case True
  show ?thesis using utf8_lead [OF True] utf8_tail [of "of_char c"] True
    by (simp add: utf8_char_def Let_def char_of_byte)
qed (simp add: utf8_char_def Let_def char_of_byte)

lemma utf8_text_utf8: "utf8_text (utf8 s) = Some s"
  by (induction s) (simp_all add: utf8_def utf8_char_text)

interpretation utf8_codec: codec utf8 utf8_text
  by unfold_locales (rule utf8_text_utf8)

section \<open>Hexadecimal\<close>

definition HEX_DIGITS :: string where
  "HEX_DIGITS = ''0123456789abcdef''"

definition hex_char :: "byte \<Rightarrow> char" where
  "hex_char w = HEX_DIGITS ! unat w"

definition hex_string :: "bytes \<Rightarrow> string" where
  "hex_string bs = concat (map (\<lambda>b. [hex_char (drop_bit 4 b), hex_char (b AND 0xF)]) bs)"

definition hex_value :: "char \<Rightarrow> byte option" where
  "hex_value c = map_option word_of_nat (find_index (\<lambda>d. d = char_lower c) HEX_DIGITS)"

text \<open>\<open>Buffer.from(s, 'hex')\<close> stops at the first pair that is not two hexadecimal digits.\<close>

fun hex_bytes :: "string \<Rightarrow> bytes" where
  "hex_bytes (c # d # cs) =
     (case (hex_value c, hex_value d) of
        (Some h, Some l) \<Rightarrow> (push_bit 4 h OR l) # hex_bytes cs
      | _ \<Rightarrow> [])"
| "hex_bytes _ = []"

lemma find_index_distinct: "distinct xs \<Longrightarrow> i < length xs \<Longrightarrow> find_index (\<lambda>d. d = xs ! i) xs = Some i"
proof (induction xs arbitrary: i)
  case (Cons x xs)
  then show ?case by (cases i) auto
qed simp

lemma unat_lt_of_bits:
  fixes w :: byte
  shows "unat (w AND 0xF) < 16" "unat (drop_bit 4 w) < 16" "unat (w AND 0x3F) < 64" "unat (drop_bit 2 w) < 64"
proof -
  have m: "w AND 0xF = take_bit 4 w" "w AND 0x3F = take_bit 6 w"
    by (simp_all add: take_bit_eq_mask mask_eq_exp_minus_1)
  have b: "unat w < 256" using unsigned_less [of w] by simp
  show "unat (w AND 0xF) < 16" "unat (w AND 0x3F) < 64"
    unfolding m unsigned_take_bit_eq by (simp_all add: take_bit_eq_mod)
  show "unat (drop_bit 4 w) < 16" "unat (drop_bit 2 w) < 64"
    unfolding unsigned_drop_bit_eq using b by (simp_all add: drop_bit_eq_div take_bit_eq_mod)
qed

lemma HEX_DIGITS_facts: "distinct HEX_DIGITS" "length HEX_DIGITS = 16" "map char_lower HEX_DIGITS = HEX_DIGITS"
  by code_simp+

lemma hex_value_char:
  assumes "unat w < 16"
  shows "hex_value (hex_char w) = Some w"
proof -
  have "char_lower (HEX_DIGITS ! unat w) = HEX_DIGITS ! unat w"
    using assms HEX_DIGITS_facts by (metis nth_map)
  then show ?thesis
    using find_index_distinct [OF HEX_DIGITS_facts(1)] assms by (simp add: hex_value_def hex_char_def HEX_DIGITS_facts)
qed

lemma hex_bytes_string: "hex_bytes (hex_string bs) = bs"
proof (induction bs)
  case (Cons b bs)
  have "push_bit 4 (drop_bit 4 b) OR (b AND 0xF) = b" by (rule byte_eqI) (simp_all add: bit_simps)
  with Cons.IH show ?case by (simp add: hex_string_def hex_value_char unat_lt_of_bits)
qed (simp add: hex_string_def)

lemma length_hex_bytes: "2 * length (hex_bytes s) \<le> length s"
  by (induction s rule: hex_bytes.induct) (auto split: option.split)

interpretation hex_codec: codec hex_string "\<lambda>s. Some (hex_bytes s)"
  by unfold_locales (simp add: hex_bytes_string)

section \<open>Base64\<close>

definition BASE64 :: string where
  "BASE64 = ''ABCDEFGHIJKLMNOPQRSTUVWXYZabcdefghijklmnopqrstuvwxyz0123456789+/''"

definition BASE64URL :: string where
  "BASE64URL = ''ABCDEFGHIJKLMNOPQRSTUVWXYZabcdefghijklmnopqrstuvwxyz0123456789-_''"

fun base64_with :: "string \<Rightarrow> string \<Rightarrow> bytes \<Rightarrow> string" where
  "base64_with alphabet pad [] = []"
| "base64_with alphabet pad [a] =
     [alphabet ! unat (drop_bit 2 a), alphabet ! unat (push_bit 4 (a AND 3))] @ pad @ pad"
| "base64_with alphabet pad [a, b] =
     [alphabet ! unat (drop_bit 2 a), alphabet ! unat (push_bit 4 (a AND 3) OR drop_bit 4 b),
      alphabet ! unat (push_bit 2 (b AND 0xF))] @ pad"
| "base64_with alphabet pad (a # b # c # bs) =
     [alphabet ! unat (drop_bit 2 a), alphabet ! unat (push_bit 4 (a AND 3) OR drop_bit 4 b),
      alphabet ! unat (push_bit 2 (b AND 0xF) OR drop_bit 6 c), alphabet ! unat (c AND 0x3F)] @ base64_with alphabet pad bs"

definition base64 :: "bytes \<Rightarrow> string" where
  "base64 = base64_with BASE64 ''=''"

definition base64url :: "bytes \<Rightarrow> string" where
  "base64url = base64_with BASE64URL []"

text \<open>\<open>Buffer.from(s, 'base64')\<close> reads both alphabets, stops at the padding and skips other characters.\<close>

definition base64_value :: "char \<Rightarrow> byte option" where
  "base64_value c =
     (case find_index (\<lambda>d. d = c) BASE64 of
        Some i \<Rightarrow> Some (word_of_nat i)
      | None \<Rightarrow> map_option word_of_nat (find_index (\<lambda>d. d = c) BASE64URL))"

fun base64_groups :: "byte list \<Rightarrow> bytes" where
  "base64_groups (a # b # c # d # ws) =
     [push_bit 2 a OR drop_bit 4 b, push_bit 4 b OR drop_bit 2 c, push_bit 6 c OR d] @ base64_groups ws"
| "base64_groups [a, b, c] = [push_bit 2 a OR drop_bit 4 b, push_bit 4 b OR drop_bit 2 c]"
| "base64_groups [a, b] = [push_bit 2 a OR drop_bit 4 b]"
| "base64_groups _ = []"

definition base64_bytes :: "string \<Rightarrow> bytes" where
  "base64_bytes s = base64_groups (List.map_filter base64_value (takeWhile (\<lambda>c. c \<noteq> CHR ''='') s))"

lemma sextet:
  assumes "\<not> bit w 6" "\<not> bit w 7"
  shows "unat (w :: byte) < 64"
proof -
  have "w AND 0x3F = w" by (rule byte_eqI) (use assms in \<open>simp_all add: bit_simps\<close>)
  then show ?thesis using unat_lt_of_bits(3) [of w] by simp
qed

text \<open>Both alphabets, as far as decoding is concerned.\<close>

definition base64_alphabet :: "string \<Rightarrow> bool" where
  "base64_alphabet alphabet \<longleftrightarrow>
     (\<forall>w. unat w < 64 \<longrightarrow> base64_value (alphabet ! unat w) = Some w \<and> alphabet ! unat w \<noteq> CHR ''='')"

lemma BASE64_facts: "distinct BASE64" "distinct BASE64URL" "length BASE64 = 64" "length BASE64URL = 64"
  "CHR ''='' \<notin> set BASE64" "CHR ''='' \<notin> set BASE64URL" "CHR ''-'' \<notin> set BASE64" "CHR ''_'' \<notin> set BASE64"
  "take 62 BASE64 = take 62 BASE64URL" "BASE64URL ! 62 = CHR ''-''" "BASE64URL ! 63 = CHR ''_''"
  unfolding BASE64_def BASE64URL_def by simp_all

lemma alphabets: "base64_alphabet BASE64" "base64_alphabet BASE64URL"
proof -
  have of_nat: "word_of_nat (unat w) = w" for w :: byte by simp
  have std: "base64_value (BASE64 ! i) = Some (word_of_nat i)" if "i < 64" for i
    using find_index_distinct [OF BASE64_facts(1)] that by (simp add: base64_value_def BASE64_facts)
  then show "base64_alphabet BASE64"
    unfolding base64_alphabet_def using BASE64_facts(3,5) by (metis nth_mem of_nat)
  have "base64_value (BASE64URL ! i) = Some (word_of_nat i)" if "i < 64" for i
  proof (cases "i < 62")
    case True
    then have "BASE64URL ! i = BASE64 ! i" using BASE64_facts(9) by (metis nth_take)
    with std that show ?thesis by simp
  next
    case False
    with that have "i = 62 \<or> i = 63" by linarith
    then have "BASE64URL ! i \<notin> set BASE64" using BASE64_facts by auto
    then have "find_index (\<lambda>d. d = BASE64URL ! i) BASE64 = None" by (auto simp: find_index_None)
    then show ?thesis
      using find_index_distinct [OF BASE64_facts(2)] that by (simp add: base64_value_def BASE64_facts)
  qed
  then show "base64_alphabet BASE64URL"
    unfolding base64_alphabet_def using BASE64_facts(4,6) by (metis nth_mem of_nat)
qed

lemma groups_of_three:
  fixes a b c :: byte
  shows "push_bit 2 (drop_bit 2 a) OR drop_bit 4 (push_bit 4 (a AND 3)) = a"
    and "push_bit 2 (drop_bit 2 a) OR drop_bit 4 (push_bit 4 (a AND 3) OR drop_bit 4 b) = a"
    and "push_bit 4 (push_bit 4 (a AND 3) OR drop_bit 4 b) OR drop_bit 2 (push_bit 2 (b AND 0xF)) = b"
    and "push_bit 4 (push_bit 4 (a AND 3) OR drop_bit 4 b) OR drop_bit 2 (push_bit 2 (b AND 0xF) OR drop_bit 6 c) = b"
    and "push_bit 6 (push_bit 2 (b AND 0xF) OR drop_bit 6 c) OR (c AND 0x3F) = c"
  by (rule byte_eqI; simp add: bit_simps)+

lemma sextets:
  fixes a b c :: byte
  shows "unat (drop_bit 2 a) < 64" "unat (push_bit 4 (a AND 3)) < 64" "unat (push_bit 4 (a AND 3) OR drop_bit 4 b) < 64"
    "unat (push_bit 2 (b AND 0xF)) < 64" "unat (push_bit 2 (b AND 0xF) OR drop_bit 6 c) < 64" "unat (c AND 0x3F) < 64"
  by (rule sextet; simp add: bit_simps)+

lemma base64_bytes_quad:
  assumes "base64_alphabet al" "unat p < 64" "unat q < 64" "unat r < 64" "unat t < 64"
  shows "base64_bytes ([al ! unat p, al ! unat q, al ! unat r, al ! unat t] @ rest) =
    [push_bit 2 p OR drop_bit 4 q, push_bit 4 q OR drop_bit 2 r, push_bit 6 r OR t] @ base64_bytes rest"
  using assms by (simp add: base64_bytes_def base64_alphabet_def map_filter_simps)

lemma base64_bytes_end:
  assumes "base64_alphabet al" "unat p < 64" "unat q < 64" "pad = [] \<or> pad = ''=''"
  shows "unat r < 64 \<Longrightarrow> base64_bytes ([al ! unat p, al ! unat q, al ! unat r] @ pad) = [push_bit 2 p OR drop_bit 4 q, push_bit 4 q OR drop_bit 2 r]"
    and "base64_bytes ([al ! unat p, al ! unat q] @ pad @ pad) = [push_bit 2 p OR drop_bit 4 q]"
  using assms by (auto simp: base64_bytes_def base64_alphabet_def map_filter_simps)

lemma base64_bytes_with:
  assumes "base64_alphabet al" and "pad = [] \<or> pad = ''=''"
  shows "base64_bytes (base64_with al pad bs) = bs"
  using assms
proof (induction al pad bs rule: base64_with.induct)
  case (1 al pad)
  then show ?case by (simp add: base64_bytes_def map_filter_simps)
next
  case (2 al pad a)
  then show ?case unfolding base64_with.simps
    by (simp only: base64_bytes_end sextets groups_of_three)
next
  case (3 al pad a b)
  then show ?case unfolding base64_with.simps
    by (simp only: base64_bytes_end sextets groups_of_three)
next
  case (4 al pad a b c bs)
  then show ?case unfolding base64_with.simps
    by (simp only: base64_bytes_quad sextets groups_of_three) simp
qed

interpretation base64_codec: codec base64 "\<lambda>s. Some (base64_bytes s)"
  by unfold_locales (simp add: base64_def base64_bytes_with alphabets)

interpretation base64url_codec: codec base64url "\<lambda>s. Some (base64_bytes s)"
  by unfold_locales (simp add: base64url_def base64_bytes_with alphabets)

end
