(* ===== verification/Configuration.thy ===== *)
theory Configuration
  imports ValueObjects
begin

text \<open>
  Connection settings and clients: the node lists of \<open>src/infrastructure/config/redis.config.ts\<close>, token
  verification and health of \<open>src/infrastructure/supabase/supabase.service.ts\<close>, health and transactions of
  \<open>src/infrastructure/database/prisma.service.ts\<close>. What a client answers is an argument.
\<close>

section \<open>Node lists\<close>

record redis_node =
  rn_host :: string
  rn_port :: int

text \<open>\<open>parseInt(s, 10)\<close>: blanks, a sign, digits, then anything; \<open>None\<close> is \<open>NaN\<close>.\<close>

definition digit_value :: "char \<Rightarrow> int" where
  "digit_value c = int (of_char c) - 48"

definition digits_value :: "string \<Rightarrow> int" where
  "digits_value ds = foldl (\<lambda>n c. 10 * n + digit_value c) 0 ds"

definition js_parseInt :: "string \<Rightarrow> int option" where
  "js_parseInt s =
     (let t = dropWhile js_white s;
          negative = (case t of c # _ \<Rightarrow> c = CHR ''-'' | [] \<Rightarrow> False);
          u = (case t of c # cs \<Rightarrow> if c = CHR ''-'' \<or> c = CHR ''+'' then cs else t | [] \<Rightarrow> []);
          ds = takeWhile is_digit u
      in if ds = [] then None else Some (if negative then - digits_value ds else digits_value ds))"

text \<open>\<open>const [host, portStr] = node.trim().split(':')\<close> and \<open>parseInt(portStr, 10) || fallback\<close>.\<close>

definition parse_node :: "int \<Rightarrow> string \<Rightarrow> redis_node" where
  "parse_node fallback node =
     (let parts = str_split (CHR '':'') (str_trim node);
          port = (case parts of _ # portStr # _ \<Rightarrow> js_parseInt portStr | _ \<Rightarrow> None)
      in \<lparr>rn_host = hd parts, rn_port = (case port of Some p \<Rightarrow> if p = 0 then fallback else p | None \<Rightarrow> fallback)\<rparr>)"

definition parseSentinelNodes :: "string option \<Rightarrow> redis_node list" where
  "parseSentinelNodes nodesStr =
     (case nodesStr of
        None \<Rightarrow> []
      | Some s \<Rightarrow> if s = [] then [] else map (parse_node 26379) (str_split (CHR '','') s))"

definition parseClusterNodes :: "string option \<Rightarrow> redis_node list" where
  "parseClusterNodes nodesStr =
     (case nodesStr of
        None \<Rightarrow> []
      | Some s \<Rightarrow> if s = [] then [] else map (parse_node 6379) (str_split (CHR '','') s))"

section \<open>Values of the configuration\<close>

text \<open>
  A value that is declared a number comes from the configuration: a number when a configuration factory
  or the default supplies it, a text when it is read from an environment variable. In a comparison
  a text is converted with \<open>Number\<close>; the model reads decimal integers, other notations as \<open>NaN\<close>, and a bound that
  is \<open>NaN\<close> ends the loop at once, as 0 does. \<open>===\<close> converts nothing.
\<close>

datatype config_value = ConfigNumber int | ConfigText string

definition js_Number :: "string \<Rightarrow> int option" where
  "js_Number s =
     (let t = str_trim s
      in if t = [] then Some 0
         else if list_all is_digit t then Some (digits_value t)
         else (case t of c # ds \<Rightarrow> if (c = CHR ''-'' \<or> c = CHR ''+'') \<and> ds \<noteq> [] \<and> list_all is_digit ds
                 then Some (if c = CHR ''-'' then - digits_value ds else digits_value ds) else None))"

fun config_bound :: "config_value \<Rightarrow> int" where
  "config_bound (ConfigNumber n) = n"
| "config_bound (ConfigText t) = (case js_Number t of Some n \<Rightarrow> n | None \<Rightarrow> 0)"

text \<open>What \<open>configService.getOrThrow\<close> throws, and \<open>configService.get\<close> with a number for default over environment
  variables.\<close>

definition missing_key :: "string \<Rightarrow> exn" where
  "missing_key key = JsTypeError (''Configuration key \"'' @ key @ ''\" does not exist'')"

type_synonym environment = "string \<rightharpoonup> string"

definition config_getOrThrow :: "environment \<Rightarrow> string \<Rightarrow> exn + string" where
  "config_getOrThrow env key = (case env key of Some v \<Rightarrow> Inr v | None \<Rightarrow> Inl (missing_key key))"

definition config_get :: "environment \<Rightarrow> string \<Rightarrow> string \<Rightarrow> string" where
  "config_get env key d = (case env key of Some v \<Rightarrow> v | None \<Rightarrow> d)"

definition config_number :: "environment \<Rightarrow> string \<Rightarrow> int \<Rightarrow> config_value" where
  "config_number env key d = (case env key of Some v \<Rightarrow> ConfigText v | None \<Rightarrow> ConfigNumber d)"

section \<open>Redis connections\<close>

text \<open>
  The URL parser is an argument: host name and port text of an address, or none for an address it
  refuses. The settings are those of \<open>redis.config.ts\<close>; \<open>None\<close> for \<open>maxRetriesPerRequest\<close> is \<open>null\<close>.
\<close>

record redis_settings =
  rcf_url :: "string option"
  rcf_password :: "string option"
  rcf_db :: "int option"
  rcf_keyPrefix :: "string option"
  rcf_maxRetries :: "int option"
  rcf_connectTimeoutMs :: "int option"
  rcf_commandTimeoutMs :: "int option"

type_synonym url_parser = "string \<Rightarrow> (string \<times> string) option"

definition redis_url :: "redis_settings \<Rightarrow> string" where
  "redis_url cfg = (case rcf_url cfg of Some u \<Rightarrow> u | None \<Rightarrow> ''redis://localhost:6379'')"

definition parseRedisHost :: "url_parser \<Rightarrow> redis_settings \<Rightarrow> string" where
  "parseRedisHost url cfg = (case url (redis_url cfg) of Some (hostname, p) \<Rightarrow> hostname | None \<Rightarrow> ''localhost'')"

definition parseRedisPort :: "url_parser \<Rightarrow> redis_settings \<Rightarrow> int" where
  "parseRedisPort url cfg =
     (case url (redis_url cfg) of
        Some (h, p) \<Rightarrow> (case js_Number p of Some n \<Rightarrow> if n = 0 then 6379 else n | None \<Rightarrow> 6379)
      | None \<Rightarrow> 6379)"

record redis_connection =
  rc_host :: string
  rc_port :: int
  rc_password :: "string option"
  rc_db :: int
  rc_maxRetriesPerRequest :: "int option"

record cache_connection = redis_connection +
  rc_keyPrefix :: string
  rc_connectTimeout :: int
  rc_commandTimeout :: int
  rc_lazyConnect :: bool

definition Publisher_connection :: "url_parser \<Rightarrow> redis_settings \<Rightarrow> redis_connection" where
  "Publisher_connection url cfg =
     \<lparr>rc_host = parseRedisHost url cfg, rc_port = parseRedisPort url cfg, rc_password = rcf_password cfg,
      rc_db = (case rcf_db cfg of Some n \<Rightarrow> n | None \<Rightarrow> 0), rc_maxRetriesPerRequest = None\<rparr>"

definition Processor_connection :: "url_parser \<Rightarrow> redis_settings \<Rightarrow> redis_connection" where
  "Processor_connection url cfg =
     \<lparr>rc_host = parseRedisHost url cfg, rc_port = parseRedisPort url cfg, rc_password = rcf_password cfg,
      rc_db = (case rcf_db cfg of Some n \<Rightarrow> n | None \<Rightarrow> 0), rc_maxRetriesPerRequest = None\<rparr>"

definition Cache_connection :: "url_parser \<Rightarrow> redis_settings \<Rightarrow> cache_connection" where
  "Cache_connection url cfg =
     \<lparr>rc_host = parseRedisHost url cfg, rc_port = parseRedisPort url cfg, rc_password = rcf_password cfg,
      rc_db = (case rcf_db cfg of Some n \<Rightarrow> n | None \<Rightarrow> 0),
      rc_maxRetriesPerRequest = Some (case rcf_maxRetries cfg of Some n \<Rightarrow> n | None \<Rightarrow> 3),
      rc_keyPrefix = (case rcf_keyPrefix cfg of Some p \<Rightarrow> p | None \<Rightarrow> ''es:''),
      rc_connectTimeout = (case rcf_connectTimeoutMs cfg of Some n \<Rightarrow> n | None \<Rightarrow> 5000),
      rc_commandTimeout = (case rcf_commandTimeoutMs cfg of Some n \<Rightarrow> n | None \<Rightarrow> 2000), rc_lazyConnect = True\<rparr>"

text \<open>The queues: how jobs are retried and kept, and how fast the worker takes them.\<close>

record job_options =
  jo_removeOnComplete :: "(int \<times> int) option"
  jo_removeOnFail :: "int option"
  jo_attempts :: nat
  jo_backoffDelay :: nat

definition Publisher_job_options :: job_options where
  "Publisher_job_options = \<lparr>jo_removeOnComplete = Some (86400, 1000), jo_removeOnFail = Some 604800, jo_attempts = 3, jo_backoffDelay = 1000\<rparr>"

definition EVENT_QUEUE_NAME :: string where "EVENT_QUEUE_NAME = ''domain-events''"
definition DLQ_NAME :: string where "DLQ_NAME = ''domain-events-dlq''"

record worker_options =
  wo_concurrency :: nat
  wo_limiterMax :: nat
  wo_limiterDuration :: nat

definition Processor_worker_options :: worker_options where
  "Processor_worker_options = \<lparr>wo_concurrency = 5, wo_limiterMax = 100, wo_limiterDuration = 1000\<rparr>"

section \<open>The database address\<close>

text \<open>
  \<open>buildPrismaUrl\<close> on an address the URL parser has taken apart: everything before the query, and the
  query's pairs. \<open>set\<close> replaces the first pair of a name and removes the others, or appends one.
\<close>

record database_config =
  dc_poolMax :: int
  dc_ssl :: bool
  dc_sslRejectUnauthorized :: bool

record parsed_url =
  pu_base :: string
  pu_params :: "(string \<times> string) list"

definition params_set :: "string \<Rightarrow> string \<Rightarrow> (string \<times> string) list \<Rightarrow> (string \<times> string) list" where
  "params_set k v ps =
     (if k \<in> fst ` set ps
      then takeWhile (\<lambda>p. fst p \<noteq> k) ps @ (k, v) # filter (\<lambda>p. fst p \<noteq> k) (dropWhile (\<lambda>p. fst p \<noteq> k) ps)
      else ps @ [(k, v)])"

definition buildPrismaUrl :: "database_config \<Rightarrow> parsed_url \<Rightarrow> parsed_url" where
  "buildPrismaUrl config url =
     (let ps = params_set ''pool_timeout'' ''10'' (params_set ''connection_limit'' (show_int (dc_poolMax config)) (pu_params url));
          ps = (if dc_ssl config
                then let ps = params_set ''sslmode'' ''require'' ps
                     in if \<not> dc_sslRejectUnauthorized config
                        then params_set ''sslrootcert'' [] (params_set ''sslkey'' [] (params_set ''sslcert'' [] ps)) else ps
                else ps)
      in url\<lparr>pu_params := ps\<rparr>)"

section \<open>Supabase\<close>

record supabase_user =
  su_id :: string
  su_email :: "string option"

text \<open>\<open>auth.getUser\<close> gives a user (or none) and an error (or none), or throws.\<close>

definition Supabase_verifyToken :: "exn + supabase_user option \<times> string option \<Rightarrow> (string \<times> string) option" where
  "Supabase_verifyToken reply =
     (case reply of
        Inl e \<Rightarrow> None
      | Inr (user, error) \<Rightarrow>
          (case (error, user) of
             (None, Some u) \<Rightarrow> Some (su_id u, case su_email u of Some em \<Rightarrow> em | None \<Rightarrow> [])
           | _ \<Rightarrow> None))"

definition Supabase_healthCheck :: "(nat \<Rightarrow> int) \<Rightarrow> exn + string option \<Rightarrow> string \<times> int" where
  "Supabase_healthCheck clk reply =
     (case reply of
        Inl e \<Rightarrow> (''unhealthy'', clk 1 - clk 0)
      | Inr error \<Rightarrow> (case error of Some m \<Rightarrow> ''degraded'' | None \<Rightarrow> ''healthy'', clk 1 - clk 0))"

text \<open>The clients: address, key, session options and headers of each.\<close>

record supabase_client =
  sc_url :: string
  sc_key :: string
  sc_autoRefreshToken :: bool
  sc_persistSession :: bool
  sc_headers :: "(string \<times> string) list"

record SupabaseService =
  sb_adminClient :: supabase_client
  sb_publicClient :: supabase_client

definition supabase_createClient :: "string \<Rightarrow> string \<Rightarrow> (string \<times> string) list \<Rightarrow> supabase_client" where
  "supabase_createClient url key headers =
     \<lparr>sc_url = url, sc_key = key, sc_autoRefreshToken = False, sc_persistSession = False, sc_headers = headers\<rparr>"

definition Supabase_onModuleInit :: "environment \<Rightarrow> exn + SupabaseService" where
  "Supabase_onModuleInit env =
     bindE (config_getOrThrow env ''SUPABASE_URL'') (\<lambda>supabaseUrl.
     bindE (config_getOrThrow env ''SUPABASE_PUBLISHABLE_KEY'') (\<lambda>supabaseKey.
     bindE (config_getOrThrow env ''SUPABASE_SECRET_KEY'') (\<lambda>serviceRoleKey.
       Inr \<lparr>sb_adminClient = supabase_createClient supabaseUrl serviceRoleKey [],
            sb_publicClient = supabase_createClient supabaseUrl supabaseKey []\<rparr>)))"

definition Supabase_getUserClient :: "environment \<Rightarrow> string \<Rightarrow> exn + supabase_client" where
  "Supabase_getUserClient env accessToken =
     bindE (config_getOrThrow env ''SUPABASE_URL'') (\<lambda>supabaseUrl.
     bindE (config_getOrThrow env ''SUPABASE_PUBLISHABLE_KEY'') (\<lambda>supabaseKey.
       Inr (supabase_createClient supabaseUrl supabaseKey [(''Authorization'', ''Bearer '' @ accessToken)])))"

section \<open>PrismaService\<close>

text \<open>The options of the client: which events it emits, and the error format.\<close>

definition Prisma_client_options :: "string option \<Rightarrow> string list \<times> string" where
  "Prisma_client_options nodeEnv =
     (let isDev = (nodeEnv = Some ''development'') in (if isDev then [''query''] else [], if isDev then ''pretty'' else ''minimal''))"

definition Prisma_isHealthy :: "exn + 'a \<Rightarrow> bool" where
  "Prisma_isHealthy reply = (case reply of Inr _ \<Rightarrow> True | Inl _ \<Rightarrow> False)"

section \<open>Lemmas\<close>

lemma digits_value_snoc: "digits_value (ds @ [c]) = 10 * digits_value ds + digit_value c"
  by (simp add: digits_value_def)

lemma decimal_digit:
  assumes "k < 10"
  shows "is_digit (''0123456789'' ! k)" "digit_value (''0123456789'' ! k) = int k"
proof -
  from assms consider "k = 0" | "k = 1" | "k = 2" | "k = 3" | "k = 4" | "k = 5" | "k = 6" | "k = 7" | "k = 8" | "k = 9" by fastforce
  then show "is_digit (''0123456789'' ! k)" "digit_value (''0123456789'' ! k) = int k"
    by (cases; simp add: char_class_defs digit_value_def)+
qed

lemma show_nat_digits: "list_all is_digit (show_nat n) \<and> digits_value (show_nat n) = int n"
proof (induction n rule: show_nat.induct)
  case (1 n)
  show ?case
  proof (cases "n < 10")
    case True
    then have "show_nat n = [''0123456789'' ! n]" by (subst show_nat.simps) (rule if_P)
    then show ?thesis using decimal_digit [OF True] by (simp add: digits_value_def)
  next
    case False
    then have s: "show_nat n = show_nat (n div 10) @ [''0123456789'' ! (n mod 10)]" by (subst show_nat.simps) (rule if_not_P)
    have "n mod 10 < 10" by simp
    from decimal_digit [OF this] show ?thesis
      using 1 [OF False] div_mult_mod_eq [of "int n" 10] by (simp add: s digits_value_snoc zdiv_int zmod_int)
  qed
qed

lemma parseInt_show_nat: "js_parseInt (show_nat n) = Some (int n)"
proof -
  have d: "list_all is_digit (show_nat n)" using show_nat_digits by blast
  obtain c cs where c: "show_nat n = c # cs" using show_nat_nonempty by (metis neq_Nil_conv)
  then have "is_digit c" using d by simp
  then have "\<not> js_white c" "c \<noteq> CHR ''-''" "c \<noteq> CHR ''+''" by (auto simp: js_white_def char_class_defs)
  moreover have "takeWhile is_digit cs = cs"
    using d unfolding c by (simp add: takeWhile_eq_all_conv list_all_iff)
  moreover have "digits_value (c # cs) = int n" using show_nat_digits [of n] c by simp
  ultimately show ?thesis using \<open>is_digit c\<close> by (simp add: js_parseInt_def Let_def c del: takeWhile_eq_all_conv)
qed

definition node_text :: "redis_node \<Rightarrow> string" where
  "node_text n = rn_host n @ '':'' @ show_int (rn_port n)"

definition plain_node :: "redis_node \<Rightarrow> bool" where
  "plain_node n \<longleftrightarrow> CHR '':'' \<notin> set (rn_host n) \<and> CHR '','' \<notin> set (rn_host n) \<and> list_all not_white (rn_host n) \<and> 0 < rn_port n"

lemma digits_plain: "is_digit c \<Longrightarrow> not_white c \<and> c \<noteq> CHR '':'' \<and> c \<noteq> CHR '',''"
  by (auto simp: not_white_def js_white_def char_class_defs)

lemma port_plain:
  "list_all not_white (show_nat n)" "CHR '':'' \<notin> set (show_nat n)" "CHR '','' \<notin> set (show_nat n)"
  using show_nat_digits [of n] digits_plain by (auto simp: list_all_iff)

lemma parse_node_text:
  assumes "plain_node n"
  shows "parse_node fallback (node_text n) = n"
proof -
  have p: "show_int (rn_port n) = show_nat (nat (rn_port n))" using assms by (simp add: show_int_def plain_node_def)
  have "list_all not_white (node_text n)"
    using assms port_plain(1) by (simp add: node_text_def p plain_node_def not_white_def js_white_def)
  then have "str_trim (node_text n) = node_text n" by (rule str_trim_no_white)
  moreover have "str_split (CHR '':'') (node_text n) = [rn_host n, show_nat (nat (rn_port n))]"
    using assms port_plain(2) by (simp add: node_text_def p plain_node_def str_split_append str_split_no_sep)
  ultimately show ?thesis
    using assms by (simp add: parse_node_def parseInt_show_nat plain_node_def)
qed

lemma split_node_list:
  assumes "ns \<noteq> []" and "\<forall>n\<in>set ns. plain_node n"
  shows "str_split (CHR '','') (str_join '','' (map node_text ns)) = map node_text ns"
proof (rule str_join_split)
  show "map node_text ns \<noteq> []" using assms(1) by simp
  have "CHR '','' \<notin> set (node_text n)" if "plain_node n" for n
    using that port_plain(3) by (auto simp: node_text_def plain_node_def show_int_def)
  then show "\<forall>w\<in>set (map node_text ns). CHR '','' \<notin> set w" using assms(2) by auto
qed

section \<open>Properties\<close>

text \<open>
  The node lists are read back. For nodes whose hosts hold no colon, comma or blank and whose ports are
  positive, both parsers turn the comma-separated \<open>host:port\<close> list into exactly these nodes; a node
  without a port, or with a port that is zero or unreadable, gets the default of its kind.
\<close>
theorem node_list_roundtrip:
  assumes "ns \<noteq> []" and "\<forall>n\<in>set ns. plain_node n"
  shows "parseSentinelNodes (Some (str_join '','' (map node_text ns))) = ns \<and>
    parseClusterNodes (Some (str_join '','' (map node_text ns))) = ns \<and>
    (\<forall>h. list_all not_white h \<longrightarrow> CHR '':'' \<notin> set h \<longrightarrow> CHR '','' \<notin> set h \<longrightarrow> h \<noteq> [] \<longrightarrow>
       parseSentinelNodes (Some h) = [\<lparr>rn_host = h, rn_port = 26379\<rparr>] \<and>
       parseClusterNodes (Some h) = [\<lparr>rn_host = h, rn_port = 6379\<rparr>])"
proof (intro conjI allI impI)
  obtain n ms where "ns = n # ms" using assms(1) by (cases ns) auto
  then have ne: "str_join '','' (map node_text ns) \<noteq> []" by (cases ms) (simp_all add: node_text_def)
  have "map (parse_node f) (map node_text ns) = ns" for f
    using assms(2) by (simp add: map_idI parse_node_text)
  then show "parseSentinelNodes (Some (str_join '','' (map node_text ns))) = ns"
    "parseClusterNodes (Some (str_join '','' (map node_text ns))) = ns"
    using ne by (simp_all only: parseSentinelNodes_def parseClusterNodes_def split_node_list [OF assms] option.case if_False)
next
  fix h assume h: "list_all not_white h" "CHR '':'' \<notin> set h" "CHR '','' \<notin> set h" "h \<noteq> []"
  then show "parseSentinelNodes (Some h) = [\<lparr>rn_host = h, rn_port = 26379\<rparr>]"
    by (simp add: parseSentinelNodes_def parse_node_def str_split_no_sep str_trim_no_white)
  show "parseClusterNodes (Some h) = [\<lparr>rn_host = h, rn_port = 6379\<rparr>]"
    using h by (simp add: parseClusterNodes_def parse_node_def str_split_no_sep str_trim_no_white)
qed

theorem node_list_roundtrip_witness:
  "parseSentinelNodes (Some (str_join '','' (map node_text [\<lparr>rn_host = ''a'', rn_port = 1\<rparr>, \<lparr>rn_host = ''b.c'', rn_port = 26380\<rparr>]))) =
     [\<lparr>rn_host = ''a'', rn_port = 1\<rparr>, \<lparr>rn_host = ''b.c'', rn_port = 26380\<rparr>]"
  using node_list_roundtrip [of "[\<lparr>rn_host = ''a'', rn_port = 1\<rparr>, \<lparr>rn_host = ''b.c'', rn_port = 26380\<rparr>]"]
  by (simp add: plain_node_def not_white_def js_white_def)
section \<open>Addresses and keys\<close>

lemma map_of_takeWhile_other: "map_of (takeWhile (\<lambda>p. fst p \<noteq> k) ps) k = None"
  by (induction ps) auto

lemma map_of_filter_other: "k' \<noteq> k \<Longrightarrow> map_of (filter (\<lambda>p. fst p \<noteq> k) ps) k' = map_of ps k'"
  by (induction ps) auto

lemma map_of_params_set: "map_of (params_set k v ps) k' = (if k' = k then Some v else map_of ps k')"
proof (induction ps)
  case (Cons p ps)
  then show ?case by (auto simp: params_set_def map_of_filter_other map_add_def split: if_splits)
qed (simp add: params_set_def)

lemma params_set_keys: "fst ` set (params_set k v ps) = insert k (fst ` set ps)"
proof (induction ps)
  case (Cons p ps)
  then show ?case by (auto simp: params_set_def split: if_splits)
qed (simp add: params_set_def)

lemma params_set_noop:
  assumes "distinct (map fst ps)" "map_of ps k = Some v"
  shows "params_set k v ps = ps"
  using assms
proof (induction ps)
  case (Cons p ps)
  show ?case
  proof (cases "fst p = k")
    case True
    then have "\<forall>q\<in>set ps. fst q \<noteq> k" using Cons.prems(1) by (auto simp: image_iff)
    then have "filter (\<lambda>q. fst q \<noteq> k) ps = ps" by simp
    then show ?thesis using True Cons.prems(2) by (cases p) (simp add: params_set_def)
  next
    case False
    then have ih: "params_set k v ps = ps" using Cons by (cases p) auto
    have "map_of ps k \<noteq> None" using Cons.prems(2) False by (cases p) simp
    then have "k \<in> fst ` set ps" by (simp add: map_of_eq_None_iff)
    with ih False show ?thesis by (simp add: params_set_def)
  qed
qed simp

lemma distinct_params_set: "distinct (map fst ps) \<Longrightarrow> distinct (map fst (params_set k v ps))"
proof (induction ps)
  case (Cons p ps)
  then show ?case by (auto simp: params_set_def distinct_map_filter image_iff dest: set_takeWhileD set_dropWhileD split: if_splits)
qed (simp add: params_set_def)
lemma params_set_ok:
  "distinct (map fst ps) \<Longrightarrow> distinct (map fst (params_set k v ps)) \<and> map_of (params_set k v ps) = (map_of ps)(k \<mapsto> v)"
  by (simp add: distinct_params_set map_of_params_set fun_eq_iff)

text \<open>
  The database address. \<open>buildPrismaUrl\<close> sets the connection limit to the pool's maximum and the pool
  timeout to 10, asks for SSL when it is on (with empty certificate names when certificates are not
  verified), and keeps every other parameter; built again from its result, the address stays as it is.
\<close>

theorem buildPrismaUrl_params:
  assumes "distinct (map fst (pu_params u))"
  shows "map_of (pu_params (buildPrismaUrl config u)) =
      (map_of (pu_params u))(''connection_limit'' \<mapsto> show_int (dc_poolMax config), ''pool_timeout'' \<mapsto> ''10'') ++
      (if dc_ssl config
       then [''sslmode'' \<mapsto> ''require''] ++
         (if dc_sslRejectUnauthorized config then Map.empty else [''sslcert'' \<mapsto> [], ''sslkey'' \<mapsto> [], ''sslrootcert'' \<mapsto> []])
       else Map.empty) \<and>
    pu_base (buildPrismaUrl config u) = pu_base u \<and>
    buildPrismaUrl config (buildPrismaUrl config u) = buildPrismaUrl config u"
proof (intro conjI)
  show lookup: "map_of (pu_params (buildPrismaUrl config u)) =
      (map_of (pu_params u))(''connection_limit'' \<mapsto> show_int (dc_poolMax config), ''pool_timeout'' \<mapsto> ''10'') ++
      (if dc_ssl config
       then [''sslmode'' \<mapsto> ''require''] ++
         (if dc_sslRejectUnauthorized config then Map.empty else [''sslcert'' \<mapsto> [], ''sslkey'' \<mapsto> [], ''sslrootcert'' \<mapsto> []])
       else Map.empty)"
    by (simp add: buildPrismaUrl_def Let_def map_of_params_set fun_eq_iff map_add_def)
  show "pu_base (buildPrismaUrl config u) = pu_base u" by (simp add: buildPrismaUrl_def Let_def)
  have "distinct (map fst (pu_params (buildPrismaUrl config u)))"
    using assms by (simp add: buildPrismaUrl_def Let_def distinct_params_set)
  from params_set_noop [OF this] show "buildPrismaUrl config (buildPrismaUrl config u) = buildPrismaUrl config u"
    unfolding buildPrismaUrl_def [of config "buildPrismaUrl config u"]
    by (simp add: lookup Let_def map_add_def)
qed

theorem buildPrismaUrl_params_witness:
  "map_of (pu_params (buildPrismaUrl \<lparr>dc_poolMax = 10, dc_ssl = True, dc_sslRejectUnauthorized = True\<rparr>
      \<lparr>pu_base = ''postgresql://h/d'', pu_params = [(''schema'', ''s''), (''sslmode'', ''prefer'')]\<rparr>)) ''sslmode'' = Some ''require''"
  using conjunct1 [OF buildPrismaUrl_params [of "\<lparr>pu_base = ''postgresql://h/d'', pu_params = [(''schema'', ''s''), (''sslmode'', ''prefer'')]\<rparr>"
      "\<lparr>dc_poolMax = 10, dc_ssl = True, dc_sslRejectUnauthorized = True\<rparr>"]]
  by (simp add: map_add_def)

text \<open>
  Which client holds which key. The service starts exactly when address and both keys are configured;
  then only the admin client has the secret key, and the client for a user, which can always be made, is
  the public one with the user's token in one more header.
\<close>

theorem supabase_keys:
  "((\<exists>s. Supabase_onModuleInit env = Inr s) \<longleftrightarrow>
     {''SUPABASE_URL'', ''SUPABASE_PUBLISHABLE_KEY'', ''SUPABASE_SECRET_KEY''} \<subseteq> dom env) \<and>
   (\<forall>s. Supabase_onModuleInit env = Inr s \<longrightarrow>
      Some (sc_key (sb_adminClient s)) = env ''SUPABASE_SECRET_KEY'' \<and>
      Some (sc_key (sb_publicClient s)) = env ''SUPABASE_PUBLISHABLE_KEY'' \<and>
      Supabase_getUserClient env token = Inr ((sb_publicClient s)\<lparr>sc_headers := [(''Authorization'', ''Bearer '' @ token)]\<rparr>))"
  by (auto simp: Supabase_onModuleInit_def Supabase_getUserClient_def config_getOrThrow_def supabase_createClient_def
      bindE_eq_Inr split: option.splits)
theorem supabase_keys_witness:
  "\<exists>s. Supabase_onModuleInit [''SUPABASE_URL'' \<mapsto> ''u'', ''SUPABASE_PUBLISHABLE_KEY'' \<mapsto> ''p'', ''SUPABASE_SECRET_KEY'' \<mapsto> ''s''] = Inr s \<and>
    sc_key (sb_adminClient s) = ''s'' \<and> sc_key (sb_publicClient s) = ''p''"
proof -
  let ?env = "[''SUPABASE_URL'' \<mapsto> ''u'', ''SUPABASE_PUBLISHABLE_KEY'' \<mapsto> ''p'', ''SUPABASE_SECRET_KEY'' \<mapsto> ''s'']"
  note k = supabase_keys [of ?env "''t''"]
  have "{''SUPABASE_URL'', ''SUPABASE_PUBLISHABLE_KEY'', ''SUPABASE_SECRET_KEY''} \<subseteq> dom ?env" by simp
  then obtain s where s: "Supabase_onModuleInit ?env = Inr s" using conjunct1 [OF k] by blast
  moreover have "Some (sc_key (sb_adminClient s)) = Some ''s''" "Some (sc_key (sb_publicClient s)) = Some ''p''"
    using conjunct2 [OF k] s by simp_all
  ultimately show ?thesis by blast
qed

end
