(* ===== verification/Crypto.thy ===== *)
theory Crypto
  imports Bytes Configuration
begin

text \<open>
  \<open>src/security/encryption/encryption.service.ts\<close> and \<open>src/common/utils/crypto.util.ts\<close>. The primitives
  of Node's \<open>crypto\<close> (scrypt, AES-256-GCM, SHA-256, HMAC) are the functions of the record \<open>node_crypto\<close>;
  \<open>nc_open\<close> may throw, as \<open>decipher.final()\<close> does for a wrong tag. \<open>timingSafeEqual\<close> and the encodings of
  buffers are modelled (theory \<open>Bytes\<close>). Random bytes are arguments.
\<close>

record node_crypto =
  nc_scrypt :: "(nat \<times> nat \<times> nat) option \<Rightarrow> bytes \<Rightarrow> bytes \<Rightarrow> nat \<Rightarrow> bytes"
  nc_seal :: "bytes \<Rightarrow> bytes \<Rightarrow> bytes \<Rightarrow> bytes \<times> bytes"
  nc_open :: "bytes \<Rightarrow> bytes \<Rightarrow> bytes \<Rightarrow> bytes \<Rightarrow> exn + bytes"
  nc_sha256 :: "bytes \<Rightarrow> bytes"
  nc_hmac :: "bytes \<Rightarrow> bytes \<Rightarrow> bytes"

text \<open>What Node documents of them: scrypt derives as many bytes as asked for, and what is sealed
  under a key of 32 bytes and an initialisation vector of 12 opens under the same.\<close>

definition crypto_laws :: "node_crypto \<Rightarrow> bool" where
  "crypto_laws nc \<longleftrightarrow>
     (\<forall>opts password salt n. length (nc_scrypt nc opts password salt n) = n) \<and>
     (\<forall>key iv p. length key = 32 \<longrightarrow> length iv = 12 \<longrightarrow>
        nc_open nc key iv (snd (nc_seal nc key iv p)) (fst (nc_seal nc key iv p)) = Inr p)"

definition timingSafeEqual :: "bytes \<Rightarrow> bytes \<Rightarrow> exn + bool" where
  "timingSafeEqual a b =
     (if length a \<noteq> length b then Inl (JsRangeError ''Input buffers must have the same byte length'') else Inr (a = b))"

section \<open>EncryptionService\<close>

record EncryptedData =
  ed_ciphertext :: string
  ed_iv :: string
  ed_tag :: string
  ed_keyVersion :: int

record EncryptionKey =
  ek_key :: bytes
  ek_version :: int
  ek_createdAt :: int

record EncryptionService =
  es_keys :: "EncryptionKey list"
  es_currentKeyVersion :: config_value

definition IV_LENGTH :: nat where "IV_LENGTH = 12"
definition KEY_LENGTH :: nat where "KEY_LENGTH = 32"

text \<open>\<open>clk v\<close> is the clock reading for version \<open>v\<close>; without a master key the configuration throws.\<close>

definition EncryptionService_new ::
  "node_crypto \<Rightarrow> string option \<Rightarrow> config_value option \<Rightarrow> (int \<Rightarrow> int) \<Rightarrow> exn + EncryptionService" where
  "EncryptionService_new nc masterKey versions clk =
     bindE (case masterKey of None \<Rightarrow> Inl (missing_key ''ENCRYPTION_MASTER_KEY'') | Some secret \<Rightarrow> Inr secret) (\<lambda>secret.
       let keyVersions = (case versions of Some n \<Rightarrow> n | None \<Rightarrow> ConfigNumber 1)
       in Inr \<lparr>es_keys = map (\<lambda>v. \<lparr>ek_key = nc_scrypt nc None (utf8 secret) (utf8 (''enterprise-encryption-v'' @ show_int v)) KEY_LENGTH,
                 ek_version = v, ek_createdAt = clk v\<rparr>) [1..config_bound keyVersions],
            es_currentKeyVersion = keyVersions\<rparr>)"

definition Encryption_getKeyByVersion :: "EncryptionService \<Rightarrow> int \<Rightarrow> EncryptionKey option" where
  "Encryption_getKeyByVersion es version = find (\<lambda>k. ek_version k = version) (es_keys es)"

definition Encryption_getCurrentKey :: "EncryptionService \<Rightarrow> exn + EncryptionKey" where
  "Encryption_getCurrentKey es =
     (case find (\<lambda>k. ConfigNumber (ek_version k) = es_currentKeyVersion es) (es_keys es) of
        None \<Rightarrow> Inl (JsError ''No current encryption key available'')
      | Some key \<Rightarrow> Inr key)"

definition Encryption_encrypt :: "node_crypto \<Rightarrow> bytes \<Rightarrow> EncryptionService \<Rightarrow> string \<Rightarrow> exn + EncryptedData" where
  "Encryption_encrypt nc iv es plaintext =
     (if plaintext = [] then Inl (JsError ''Cannot encrypt empty or null plaintext'')
      else bindE (Encryption_getCurrentKey es) (\<lambda>currentKey.
        case nc_seal nc (ek_key currentKey) iv (utf8 plaintext) of (encrypted, tag) \<Rightarrow>
          Inr \<lparr>ed_ciphertext = base64 encrypted, ed_iv = base64 iv, ed_tag = base64 tag, ed_keyVersion = ek_version currentKey\<rparr>))"

text \<open>The plaintext is \<open>None\<close> when it is no text of the model (see theory \<open>Bytes\<close>).\<close>

definition Encryption_decrypt :: "node_crypto \<Rightarrow> EncryptionService \<Rightarrow> EncryptedData \<Rightarrow> exn + string option" where
  "Encryption_decrypt nc es encryptedData =
     (case Encryption_getKeyByVersion es (ed_keyVersion encryptedData) of
        None \<Rightarrow> Inl (JsError (''Encryption key version '' @ show_int (ed_keyVersion encryptedData) @
                  '' not found. Possible key rotation issue.''))
      | Some key \<Rightarrow>
          bindE (nc_open nc (ek_key key) (base64_bytes (ed_iv encryptedData)) (base64_bytes (ed_tag encryptedData))
                   (base64_bytes (ed_ciphertext encryptedData)))
            (\<lambda>decrypted. Inr (utf8_text decrypted)))"

definition Encryption_reEncrypt ::
  "node_crypto \<Rightarrow> bytes \<Rightarrow> EncryptionService \<Rightarrow> EncryptedData \<Rightarrow> exn + EncryptedData option" where
  "Encryption_reEncrypt nc iv es encryptedData =
     bindE (Encryption_decrypt nc es encryptedData) (\<lambda>text. case text of
         None \<Rightarrow> Inr None
       | Some plaintext \<Rightarrow> bindE (Encryption_encrypt nc iv es plaintext) (\<lambda>d. Inr (Some d)))"

text \<open>\<open>random n\<close> is what \<open>randomBytes(n)\<close> gives; the default lengths are those of the signatures.\<close>

definition Encryption_generateSecureRandom :: "(nat \<Rightarrow> bytes) \<Rightarrow> nat option \<Rightarrow> string" where
  "Encryption_generateSecureRandom random len = base64url (random (case len of Some n \<Rightarrow> n | None \<Rightarrow> 32))"

definition Encryption_generateToken :: "(nat \<Rightarrow> bytes) \<Rightarrow> nat option \<Rightarrow> string" where
  "Encryption_generateToken random len = base64url (random (case len of Some n \<Rightarrow> n | None \<Rightarrow> 48))"

definition Encryption_hash :: "node_crypto \<Rightarrow> string \<Rightarrow> string" where
  "Encryption_hash nc v = hex_string (nc_sha256 nc (utf8 v))"

definition Encryption_timingSafeCompare :: "string \<Rightarrow> string \<Rightarrow> exn + bool" where
  "Encryption_timingSafeCompare a b =
     (if length a \<noteq> length b then Inr False else timingSafeEqual (utf8 a) (utf8 b))"

section \<open>Cryptographic utilities\<close>

definition ALPHANUMERIC :: string where
  "ALPHANUMERIC = ''ABCDEFGHIJKLMNOPQRSTUVWXYZabcdefghijklmnopqrstuvwxyz0123456789''"

text \<open>The character one random byte selects.\<close>

definition secureRandom_char :: "string \<Rightarrow> byte \<Rightarrow> char" where
  "secureRandom_char charset b = charset ! (unat b mod length charset)"

definition secureRandom :: "(nat \<Rightarrow> bytes) \<Rightarrow> int \<Rightarrow> string option \<Rightarrow> exn + string" where
  "secureRandom random len charset_opt =
     (let charset = (case charset_opt of Some cs \<Rightarrow> cs | None \<Rightarrow> ALPHANUMERIC)
      in if len \<le> 0 then Inl (JsRangeError ''Length must be positive'')
         else if length charset = 0 then Inl (JsRangeError ''Charset must not be empty'')
         else let bytes = random (nat len) in Inr (map (\<lambda>i. secureRandom_char charset (bytes ! i)) [0..<nat len]))"

definition secureToken :: "(nat \<Rightarrow> bytes) \<Rightarrow> nat option \<Rightarrow> string" where
  "secureToken random byteLength = base64url (random (case byteLength of Some n \<Rightarrow> n | None \<Rightarrow> 32))"

definition isValidUuidV4 :: "string \<Rightarrow> bool" where
  "isValidUuidV4 v = rx_test UUID_V4_REGEX v"

definition hmacSign :: "node_crypto \<Rightarrow> string \<Rightarrow> string \<Rightarrow> string" where
  "hmacSign nc data secret = hex_string (nc_hmac nc (utf8 secret) (utf8 data))"

text \<open>The branch for buffers of different length compares one with itself, which cannot throw.\<close>

definition constantTimeCompare :: "string \<Rightarrow> string \<Rightarrow> exn + bool" where
  "constantTimeCompare a b =
     (let bufA = utf8 a; bufB = utf8 b
      in if length bufA \<noteq> length bufB then bindE (timingSafeEqual bufA bufA) (\<lambda>_. Inr False)
         else timingSafeEqual bufA bufB)"

definition hmacVerify :: "node_crypto \<Rightarrow> string \<Rightarrow> string \<Rightarrow> string \<Rightarrow> exn + bool" where
  "hmacVerify nc data signature secret = constantTimeCompare signature (hmacSign nc data secret)"

definition SCRYPT_KEYLEN :: nat where "SCRYPT_KEYLEN = 64"

definition SCRYPT_OPTIONS :: "(nat \<times> nat \<times> nat) option" where
  "SCRYPT_OPTIONS = Some (16384, 8, 1)"

definition hashPassword :: "node_crypto \<Rightarrow> bytes \<Rightarrow> string \<Rightarrow> string" where
  "hashPassword nc salt password =
     hex_string salt @ '':'' @ hex_string (nc_scrypt nc SCRYPT_OPTIONS (utf8 password) salt SCRYPT_KEYLEN)"

definition verifyPassword :: "node_crypto \<Rightarrow> string \<Rightarrow> string \<Rightarrow> exn + bool" where
  "verifyPassword nc password storedHash =
     (case str_split (CHR '':'') storedHash of
        saltHex # hashHex # _ \<Rightarrow>
          if saltHex = [] \<or> hashHex = [] then Inr False
          else let salt = hex_bytes saltHex; expectedHash = hex_bytes hashHex;
                   derivedKey = nc_scrypt nc SCRYPT_OPTIONS (utf8 password) salt (length expectedHash)
               in timingSafeEqual derivedKey expectedHash
      | _ \<Rightarrow> Inr False)"

section \<open>Lemmas\<close>

lemma find_version: "find (\<lambda>k. ek_version k = v) (map (\<lambda>v. \<lparr>ek_key = f v, ek_version = v, ek_createdAt = g v\<rparr>) [1..n]) =
  (if 1 \<le> v \<and> v \<le> n then Some \<lparr>ek_key = f v, ek_version = v, ek_createdAt = g v\<rparr> else None)"
proof -
  have "find (\<lambda>k. ek_version k = v) (map (\<lambda>v. \<lparr>ek_key = f v, ek_version = v, ek_createdAt = g v\<rparr>) xs) =
    (if v \<in> set xs then Some \<lparr>ek_key = f v, ek_version = v, ek_createdAt = g v\<rparr> else None)" for xs :: "int list"
    by (induction xs) auto
  then show ?thesis by simp
qed

lemma utf8_eq: "utf8 a = utf8 b \<longleftrightarrow> a = b"
  by (rule utf8_codec.encode_eq_iff)

lemma hex_string_eq: "hex_string a = hex_string b \<longleftrightarrow> a = b"
  by (rule hex_codec.encode_eq_iff)

lemma hex_string_no_colon: "CHR '':'' \<notin> set (hex_string bs)"
proof -
  have "hex_char w \<in> set HEX_DIGITS" if "unat w < 16" for w
    using that by (simp add: hex_char_def HEX_DIGITS_facts)
  moreover have "CHR '':'' \<notin> set HEX_DIGITS" by (simp add: HEX_DIGITS_def)
  ultimately have "hex_char w \<noteq> CHR '':''" if "unat w < 16" for w using that by metis
  then have "hex_char (drop_bit 4 b) \<noteq> CHR '':''" "hex_char (b AND 0xF) \<noteq> CHR '':''" for b
    using unat_lt_of_bits(1,2) [of b] by blast+
  then show ?thesis by (auto simp: hex_string_def dest: sym)
qed

lemma hex_string_Nil: "hex_string bs = [] \<longleftrightarrow> bs = []"
  by (cases bs) (auto simp: hex_string_def)

lemma timingSafeEqual_eq: "length a = length b \<Longrightarrow> timingSafeEqual a b = Inr (a = b)"
  by (simp add: timingSafeEqual_def)

lemma decrypt_encrypted:
  assumes "crypto_laws nc" "length iv = 12" "length key = 32"
    and "Encryption_getKeyByVersion es v = Some \<lparr>ek_key = key, ek_version = v, ek_createdAt = t\<rparr>"
  shows "Encryption_decrypt nc es \<lparr>ed_ciphertext = base64 (fst (nc_seal nc key iv (utf8 p))), ed_iv = base64 iv,
    ed_tag = base64 (snd (nc_seal nc key iv (utf8 p))), ed_keyVersion = v\<rparr> = Inr (Some p)"
  using assms by (simp add: Encryption_decrypt_def crypto_laws_def base64_def base64_bytes_with alphabets utf8_text_utf8)

lemma residue_count:
  assumes "i < l"
  shows "card {k. k < N \<and> k mod l = i} = N div l + (if i < N mod l then 1 else 0 :: nat)"
proof (induction N)
  case (Suc N)
  have "{k. k < Suc N \<and> k mod l = i} = (if N mod l = i then insert N {k. k < N \<and> k mod l = i} else {k. k < N \<and> k mod l = i})"
    by (auto simp: less_Suc_eq)
  then have "card {k. k < Suc N \<and> k mod l = i} = card {k. k < N \<and> k mod l = i} + (if N mod l = i then 1 else 0)" by simp
  with Suc assms show ?case by (auto simp: div_Suc mod_Suc split: if_splits)
qed simp

lemma card_bytes: "card {b :: byte. P (unat b)} = card {k. k < 256 \<and> P k}"
proof (rule bij_betw_same_card [of unat])
  have "k \<in> unat ` {b :: byte. P (unat b)}" if "k < 256" "P k" for k
  proof -
    have "unat (word_of_nat k :: byte) = k" using that by (simp add: unsigned_of_nat take_bit_nat_eq_self)
    then show ?thesis using that by (metis (mono_tags) imageI mem_Collect_eq)
  qed
  moreover have "unat b < 256" for b :: byte using unsigned_less [of b] by simp
  ultimately show "bij_betw unat {b :: byte. P (unat b)} {k. k < 256 \<and> P k}"
    by (auto simp: bij_betw_def inj_on_def word_unat_eq_iff)
qed

section \<open>Properties\<close>

text \<open>
  C9. Encryption is a round trip that survives the rotation of keys. What a service with \<open>m\<close> key versions
  encrypts carries version \<open>m\<close>; a service with the same master key and \<open>n\<close> versions decrypts it to the same
  text when \<open>m \<le> n\<close> and otherwise says that the version is missing; re-encrypting moves it to version \<open>n\<close> and
  keeps the text.
\<close>
theorem encryption_survives_rotation:
  assumes "crypto_laws nc" "length iv = 12" "length iv' = 12" "p \<noteq> []" "1 \<le> m"
    and old: "EncryptionService_new nc (Some secret) (Some (ConfigNumber m)) clk = Inr old"
    and new: "EncryptionService_new nc (Some secret) (Some (ConfigNumber n)) clk' = Inr new"
  shows "\<exists>d. Encryption_encrypt nc iv old p = Inr d \<and> ed_keyVersion d = m \<and>
    (if m \<le> n
     then Encryption_decrypt nc new d = Inr (Some p) \<and>
       (\<exists>d'. Encryption_reEncrypt nc iv' new d = Inr (Some d') \<and> ed_keyVersion d' = n \<and>
         Encryption_decrypt nc new d' = Inr (Some p))
     else Encryption_decrypt nc new d =
       Inl (JsError (''Encryption key version '' @ show_int m @ '' not found. Possible key rotation issue.'')))"
proof -
  let ?key = "\<lambda>v. nc_scrypt nc None (utf8 secret) (utf8 (''enterprise-encryption-v'' @ show_int v)) KEY_LENGTH"
  have len: "length (?key v) = 32" for v using assms(1) by (simp add: crypto_laws_def KEY_LENGTH_def)
  have byV: "Encryption_getKeyByVersion es v =
      (if 1 \<le> v \<and> v \<le> j then Some \<lparr>ek_key = ?key v, ek_version = v, ek_createdAt = c v\<rparr> else None)"
    and enc: "1 \<le> j \<Longrightarrow> Encryption_encrypt nc x es p = Inr \<lparr>ed_ciphertext = base64 (fst (nc_seal nc (?key j) x (utf8 p))),
      ed_iv = base64 x, ed_tag = base64 (snd (nc_seal nc (?key j) x (utf8 p))), ed_keyVersion = j\<rparr>"
    if "EncryptionService_new nc (Some secret) (Some (ConfigNumber j)) c = Inr es" for es j c v x
    using that assms(4)
    by (auto simp: EncryptionService_new_def Let_def Encryption_getKeyByVersion_def Encryption_encrypt_def
        Encryption_getCurrentKey_def find_version split_beta)
  show ?thesis
  proof (cases "m \<le> n")
    case True
    have "Encryption_getKeyByVersion new m = Some \<lparr>ek_key = ?key m, ek_version = m, ek_createdAt = clk' m\<rparr>"
      "Encryption_getKeyByVersion new n = Some \<lparr>ek_key = ?key n, ek_version = n, ek_createdAt = clk' n\<rparr>"
      using byV [OF new] True assms(5) by simp_all
    then show ?thesis
      using True assms(5) enc [OF old assms(5), of iv] enc [OF new, of iv']
        decrypt_encrypted [OF assms(1,2) len] decrypt_encrypted [OF assms(1,3) len]
      by (simp add: Encryption_reEncrypt_def)
  next
    case False
    then show ?thesis using enc [OF old assms(5), of iv] byV [OF new, of m]
      by (simp add: Encryption_decrypt_def)
  qed
qed

definition toy_crypto :: node_crypto where
  "toy_crypto = \<lparr>nc_scrypt = (\<lambda>opts password salt n. replicate n (word_of_nat (length salt))),
     nc_seal = (\<lambda>key iv p. (rev p, key)), nc_open = (\<lambda>key iv tag c. if tag = key then Inr (rev c) else Inl (JsError ''unable to authenticate data'')),
     nc_sha256 = id, nc_hmac = (\<lambda>k d. k @ d)\<rparr>"

lemma toy_crypto_laws: "crypto_laws toy_crypto"
  by (simp add: crypto_laws_def toy_crypto_def)

theorem encryption_survives_rotation_witness:
  "\<exists>d. Encryption_encrypt toy_crypto (replicate 12 0)
      (projr (EncryptionService_new toy_crypto (Some ''k'') (Some (ConfigNumber 1)) id)) ''secret'' = Inr d \<and>
    Encryption_decrypt toy_crypto (projr (EncryptionService_new toy_crypto (Some ''k'') (Some (ConfigNumber 3)) id)) d = Inr (Some ''secret'')"
  using encryption_survives_rotation [OF toy_crypto_laws, of "replicate 12 0" "replicate 12 1" "''secret''" 1 "''k''" id _ 3 id]
  by (auto simp: EncryptionService_new_def)

text \<open>
  Key versions that come from the environment disable encryption. \<open>ENCRYPTION_KEY_VERSIONS\<close> is in no
  configuration factory, so a value for it is a text. The keys are then derived as for the number it
  reads as, and what an older service encrypted is still decrypted; but the current version is compared
  with \<open>===\<close>, no key has a text as its version, and every encryption and re-encryption throws.
\<close>
theorem versions_from_environment:
  assumes "EncryptionService_new nc (Some secret) (Some (ConfigText t)) clk = Inr es"
  shows "(p \<noteq> [] \<longrightarrow> Encryption_encrypt nc iv es p = Inl (JsError ''No current encryption key available'')) \<and>
    (\<forall>d d'. Encryption_reEncrypt nc iv es d \<noteq> Inr (Some d')) \<and>
    (\<exists>es'. EncryptionService_new nc (Some secret) (Some (ConfigNumber (config_bound (ConfigText t)))) clk = Inr es' \<and>
       (\<forall>d. Encryption_decrypt nc es d = Encryption_decrypt nc es' d))"
proof -
  have "find (\<lambda>k. ConfigNumber (ek_version k) = ConfigText t) ks = None" for ks :: "EncryptionKey list" by (induction ks) auto
  then have none: "Encryption_getCurrentKey es = Inl (JsError ''No current encryption key available'')"
    using assms by (auto simp: EncryptionService_new_def Let_def Encryption_getCurrentKey_def)
  then have "Encryption_encrypt nc iv es q \<noteq> Inr d" for q d by (simp add: Encryption_encrypt_def)
  then have "Encryption_reEncrypt nc iv es d \<noteq> Inr (Some d')" for d d'
    by (auto simp: Encryption_reEncrypt_def bindE_def split: sum.splits option.splits)
  then show ?thesis using none assms
    by (auto simp: Encryption_encrypt_def EncryptionService_new_def Let_def Encryption_decrypt_def Encryption_getKeyByVersion_def)
qed

theorem versions_from_environment_witness:
  "Encryption_encrypt toy_crypto (replicate 12 0)
     (projr (EncryptionService_new toy_crypto (Some ''k'') (Some (ConfigText ''2'')) id)) ''secret'' =
   Inl (JsError ''No current encryption key available'') \<and> config_bound (ConfigText ''2'') = 2"
proof -
  have "config_bound (ConfigText ''2'') = 2" by code_simp
  then show ?thesis
    using versions_from_environment [where nc = toy_crypto and secret = "''k''" and t = "''2''" and clk = id
        and p = "''secret''" and iv = "replicate 12 0"]
    by (simp add: EncryptionService_new_def Let_def)
qed

text \<open>
  The two constant-time comparisons. \<open>constantTimeCompare\<close> decides equality for all strings. The
  service's \<open>timingSafeCompare\<close> decides it too unless the strings have the same length and different numbers
  of UTF-8 bytes: it compares lengths in characters, and the comparison of the buffers then throws.
\<close>
theorem comparisons_decide:
  "constantTimeCompare a b = Inr (a = b) \<and>
   Encryption_timingSafeCompare a b =
     (if length a = length b \<and> length (utf8 a) \<noteq> length (utf8 b)
      then Inl (JsRangeError ''Input buffers must have the same byte length'') else Inr (a = b)) \<and>
   Encryption_timingSafeCompare ''e'' [CHR 0xE9] = Inl (JsRangeError ''Input buffers must have the same byte length'')"
proof (intro conjI)
  show "constantTimeCompare a b = Inr (a = b)"
    by (auto simp: constantTimeCompare_def timingSafeEqual_def Let_def utf8_eq)
  show "Encryption_timingSafeCompare a b =
     (if length a = length b \<and> length (utf8 a) \<noteq> length (utf8 b)
      then Inl (JsRangeError ''Input buffers must have the same byte length'') else Inr (a = b))"
    by (auto simp: Encryption_timingSafeCompare_def timingSafeEqual_def utf8_eq)
  show "Encryption_timingSafeCompare ''e'' [CHR 0xE9] = Inl (JsRangeError ''Input buffers must have the same byte length'')"
    by code_simp
qed
text \<open>
  \<open>secureRandom\<close> gives a text of the requested length over the charset, but, with no rejection
  sampling, not every character alike: of the 256 values of a byte, the \<open>i\<close>-th of \<open>l\<close> characters is chosen by
  \<open>256 div l\<close>, and one more when \<open>i < 256 mod l\<close>. The characters are equally likely only if \<open>l\<close> divides 256, and those
  after the 256th are never chosen.
\<close>

theorem secureRandom_bias:
  assumes "distinct cs" "i < length cs"
  shows "card {b. secureRandom_char cs b = cs ! i} = 256 div length cs + (if i < 256 mod length cs then 1 else 0) \<and>
    (0 < n \<longrightarrow> (\<exists>s. secureRandom random n (Some cs) = Inr s \<and> length s = nat n \<and> set s \<subseteq> set cs))"
proof (intro conjI impI)
  have "secureRandom_char cs b = cs ! i \<longleftrightarrow> unat b mod length cs = i" for b
    using assms unfolding secureRandom_char_def by (intro nth_eq_iff_index_eq) (auto intro: mod_less_divisor)
  then show "card {b. secureRandom_char cs b = cs ! i} = 256 div length cs + (if i < 256 mod length cs then 1 else 0)"
    using residue_count [OF assms(2), of 256] card_bytes [of "\<lambda>k. k mod length cs = i"] by simp
next
  have "0 < length cs" using assms(2) by linarith
  moreover from this have "secureRandom_char cs b \<in> set cs" for b by (simp add: secureRandom_char_def)
  moreover assume "0 < n"
  ultimately show "\<exists>s. secureRandom random n (Some cs) = Inr s \<and> length s = nat n \<and> set s \<subseteq> set cs"
    by (auto simp: secureRandom_def Let_def)
qed

theorem secureRandom_bias_witness:
  "card {b. secureRandom_char ALPHANUMERIC b = CHR ''A''} = 5 \<and> card {b. secureRandom_char ALPHANUMERIC b = CHR ''9''} = 4"
proof -
  have d: "distinct ALPHANUMERIC" "length ALPHANUMERIC = 62" "ALPHANUMERIC ! 0 = CHR ''A''" "ALPHANUMERIC ! 61 = CHR ''9''"
    by (simp_all add: ALPHANUMERIC_def)
  then show ?thesis
    using conjunct1 [OF secureRandom_bias [of ALPHANUMERIC 0]] conjunct1 [OF secureRandom_bias [of ALPHANUMERIC 61]] by simp
qed

text \<open>
  C37. What \<open>verifyPassword\<close> accepts. A stored hash \<open>salt:hash\<close> is accepted exactly when scrypt with the
  decoded salt derives the decoded hash, as long as that is; so the hash \<open>hashPassword\<close> stored verifies the
  password it was made from. But a hash part that does not begin with two hexadecimal digits decodes to
  no bytes at all, and then every password is accepted.
\<close>
theorem verifyPassword_accepts:
  assumes "crypto_laws nc" "CHR '':'' \<notin> set s" "CHR '':'' \<notin> set h" "s \<noteq> []" "h \<noteq> []"
  shows "verifyPassword nc password (s @ '':'' @ h) =
      Inr (nc_scrypt nc SCRYPT_OPTIONS (utf8 password) (hex_bytes s) (length (hex_bytes h)) = hex_bytes h) \<and>
    (salt \<noteq> [] \<longrightarrow> verifyPassword nc password (hashPassword nc salt password) = Inr True) \<and>
    (hex_value (hd h) = None \<longrightarrow> verifyPassword nc password (s @ '':'' @ h) = Inr True)"
proof -
  have len: "length (nc_scrypt nc o' p x n) = n" for o' p x n using assms(1) by (simp add: crypto_laws_def)
  have run: "verifyPassword nc password (s @ '':'' @ h) =
      Inr (nc_scrypt nc SCRYPT_OPTIONS (utf8 password) (hex_bytes s) (length (hex_bytes h)) = hex_bytes h)"
    if "CHR '':'' \<notin> set s" "CHR '':'' \<notin> set h" "s \<noteq> []" "h \<noteq> []" for s h
    using that by (simp add: verifyPassword_def str_split_append str_split_no_sep timingSafeEqual_eq len Let_def)
  have "hex_bytes h = []" if "hex_value (hd h) = None"
    using that by (cases h rule: hex_bytes.cases) simp_all
  moreover have "verifyPassword nc password (hashPassword nc salt password) = Inr True" if "salt \<noteq> []"
  proof -
    have "nc_scrypt nc SCRYPT_OPTIONS (utf8 password) salt SCRYPT_KEYLEN \<noteq> []"
      using len [of SCRYPT_OPTIONS "utf8 password" salt SCRYPT_KEYLEN] by (auto simp: SCRYPT_KEYLEN_def simp flip: length_0_conv)
    then show ?thesis using that run [OF hex_string_no_colon hex_string_no_colon]
      unfolding hashPassword_def by (simp add: hex_string_Nil hex_bytes_string len)
  qed
  moreover have "nc_scrypt nc o' p x 0 = []" for o' p x using len [of o' p x 0] by simp
  ultimately show ?thesis using run [OF assms(2-5)] by auto
qed

theorem verifyPassword_accepts_witness:
  "verifyPassword toy_crypto ''anything'' (''00'' @ '':'' @ ''zz'') = Inr True"
proof -
  have "hex_value (CHR ''z'') = None" by code_simp
  then show ?thesis
    using conjunct2 [OF conjunct2 [OF verifyPassword_accepts [OF toy_crypto_laws, of "''00''" "''zz''" "''anything''" "[]"]]] by simp
qed

end
