(* ===== verification/Dates.thy ===== *)
theory Dates
  imports Errors
begin

text \<open>
  \<open>src/common/utils/date.util.ts\<close>. date-fns is third-party: the record \<open>date_fns\<close> of the functions the
  source calls, on instants. A \<open>Date\<close> argument is an instant or invalid, a string argument is parsed
  (\<open>None\<close> is an invalid date). What date-fns documents of its differences, in a zone without clock
  changes, is \<open>differences_truncate\<close>: whole units, rounded towards zero.
\<close>

record date_fns =
  df_parseISO :: "string \<Rightarrow> int option"
  df_format :: "int \<Rightarrow> string \<Rightarrow> exn + string"
  df_startOfDay :: "int \<Rightarrow> int"
  df_diffSeconds :: "int \<Rightarrow> int \<Rightarrow> int"
  df_diffMinutes :: "int \<Rightarrow> int \<Rightarrow> int"
  df_diffHours :: "int \<Rightarrow> int \<Rightarrow> int"
  df_diffDays :: "int \<Rightarrow> int \<Rightarrow> int"
  df_addDays :: "int \<Rightarrow> int \<Rightarrow> int"
  df_subDays :: "int \<Rightarrow> int \<Rightarrow> int"

datatype date_arg = At int | InvalidDate | Iso string

fun instant_of :: "date_fns \<Rightarrow> date_arg \<Rightarrow> int option" where
  "instant_of fns (At t) = Some t"
| "instant_of fns InvalidDate = None"
| "instant_of fns (Iso s) = df_parseISO fns s"

text \<open>The message is only built for an argument that is invalid.\<close>

fun invalid_date :: "date_arg \<Rightarrow> exn" where
  "invalid_date (Iso s) = JsError (''Invalid date: '' @ s)"
| "invalid_date _ = JsError ''Invalid date: Invalid Date''"

section \<open>Normalisation, parsing, formatting\<close>

definition toUtcDate :: "date_fns \<Rightarrow> date_arg \<Rightarrow> exn + int" where
  "toUtcDate fns date = (case instant_of fns date of None \<Rightarrow> Inl (invalid_date date) | Some d \<Rightarrow> Inr (df_startOfDay fns d))"

definition toUtcString :: "date_fns \<Rightarrow> date_arg \<Rightarrow> exn + json" where
  "toUtcString fns date = (case instant_of fns date of None \<Rightarrow> Inl (invalid_date date) | Some d \<Rightarrow> Inr (JDate d))"

definition parseDate :: "date_fns \<Rightarrow> string \<Rightarrow> int option" where
  "parseDate fns v = df_parseISO fns v"

definition parseDateOrThrow :: "date_fns \<Rightarrow> string \<Rightarrow> exn + int" where
  "parseDateOrThrow fns v =
     (case parseDate fns v of
        None \<Rightarrow> Inl (JsError (''Invalid date format: \"'' @ v @ ''\". Expected ISO 8601.''))
      | Some d \<Rightarrow> Inr d)"

definition FORMAT_MAP :: "(string \<times> string) list" where
  "FORMAT_MAP =
     [(''iso'', ''yyyy-MM-dd'' @ [CHR 0x27, CHR ''T'', CHR 0x27] @ ''HH:mm:ss'' @ [CHR 0x27, CHR ''Z'', CHR 0x27]),
      (''short'', ''yyyy-MM-dd''), (''long'', ''MMMM d, yyyy''), (''datetime'', ''yyyy-MM-dd HH:mm:ss''), (''time'', ''HH:mm:ss'')]"

definition formatDate :: "date_fns \<Rightarrow> date_arg \<Rightarrow> string option \<Rightarrow> exn + string" where
  "formatDate fns date format_opt =
     (let format = (case format_opt of Some f \<Rightarrow> f | None \<Rightarrow> ''iso'')
      in case instant_of fns date of
           None \<Rightarrow> Inl (invalid_date date)
         | Some d \<Rightarrow> df_format fns d (case map_of FORMAT_MAP format of Some pattern \<Rightarrow> pattern | None \<Rightarrow> format))"

section \<open>Durations\<close>

record Duration =
  du_days :: int
  du_hours :: int
  du_minutes :: int
  du_seconds :: int
  du_totalSeconds :: int
  du_totalMinutes :: int
  du_totalHours :: int
  du_totalDays :: int

text \<open>The remainder \<open>a % b\<close>, which has the sign of \<open>a\<close>.\<close>

definition js_rem :: "int \<Rightarrow> int \<Rightarrow> int" where
  "js_rem a b = sgn a * (\<bar>a\<bar> mod \<bar>b\<bar>)"

definition durationBetween :: "date_fns \<Rightarrow> date_arg \<Rightarrow> date_arg \<Rightarrow> exn + Duration" where
  "durationBetween fns start end' =
     (case (instant_of fns start, instant_of fns end') of
        (Some s, Some e) \<Rightarrow>
          let totalSeconds = df_diffSeconds fns e s; days = df_diffDays fns e s; hours = js_rem (df_diffHours fns e s) 24;
              minutes = js_rem (df_diffMinutes fns e s) 60; seconds = js_rem totalSeconds 60
          in Inr \<lparr>du_days = \<bar>days\<bar>, du_hours = \<bar>hours\<bar>, du_minutes = \<bar>minutes\<bar>, du_seconds = \<bar>seconds\<bar>,
               du_totalSeconds = \<bar>totalSeconds\<bar>, du_totalMinutes = \<bar>df_diffMinutes fns e s\<bar>,
               du_totalHours = \<bar>df_diffHours fns e s\<bar>, du_totalDays = \<bar>days\<bar>\<rparr>
      | _ \<Rightarrow> Inl (JsError ''Invalid date(s) provided for duration calculation''))"

definition formatDuration :: "Duration \<Rightarrow> string" where
  "formatDuration d =
     (let parts = (if du_days d > 0 then [show_int (du_days d) @ ''d''] else []) @
            (if du_hours d > 0 then [show_int (du_hours d) @ ''h''] else []) @
            (if du_minutes d > 0 then [show_int (du_minutes d) @ ''m''] else [])
      in str_join '' '' (parts @ (if length parts = 0 \<or> du_seconds d > 0 then [show_int (du_seconds d) @ ''s''] else [])))"

section \<open>Comparisons\<close>

text \<open>Comparisons with an invalid date are false.\<close>

definition isExpired :: "date_fns \<Rightarrow> int \<Rightarrow> date_arg \<Rightarrow> bool" where
  "isExpired fns now date = (case instant_of fns date of Some d \<Rightarrow> d < now | None \<Rightarrow> False)"

definition isWithinDays :: "date_fns \<Rightarrow> int \<Rightarrow> date_arg \<Rightarrow> int \<Rightarrow> bool" where
  "isWithinDays fns now date days =
     (case instant_of fns date of Some d \<Rightarrow> df_subDays fns now days < d \<and> d < df_addDays fns now days | None \<Rightarrow> False)"

definition ago_or_in :: "int \<Rightarrow> string \<Rightarrow> string" where
  "ago_or_in n unit' = (if n > 0 then show_int n @ unit' @ '' ago'' else ''in '' @ show_int \<bar>n\<bar> @ unit')"

definition relativeTime :: "date_fns \<Rightarrow> int \<Rightarrow> date_arg \<Rightarrow> exn + string" where
  "relativeTime fns now date =
     (case instant_of fns date of
        None \<Rightarrow> formatDate fns InvalidDate (Some ''short'')
      | Some d \<Rightarrow>
          let seconds = df_diffSeconds fns now d; minutes = df_diffMinutes fns now d;
              hours = df_diffHours fns now d; days = df_diffDays fns now d
          in if \<bar>seconds\<bar> < 60 then Inr ''just now''
             else if \<bar>minutes\<bar> < 60 then Inr (ago_or_in minutes ''m'')
             else if \<bar>hours\<bar> < 24 then Inr (ago_or_in hours ''h'')
             else if \<bar>days\<bar> < 30 then Inr (ago_or_in days ''d'')
             else formatDate fns (At d) (Some ''short''))"

section \<open>What date-fns promises\<close>

definition trunc_div :: "int \<Rightarrow> int \<Rightarrow> int" where
  "trunc_div x n = sgn x * (\<bar>x\<bar> div n)"

definition differences_truncate :: "date_fns \<Rightarrow> bool" where
  "differences_truncate fns \<longleftrightarrow>
     (\<forall>a b. df_diffSeconds fns a b = trunc_div (a - b) 1000 \<and> df_diffMinutes fns a b = trunc_div (a - b) 60000 \<and>
        df_diffHours fns a b = trunc_div (a - b) 3600000 \<and> df_diffDays fns a b = trunc_div (a - b) 86400000)"

section \<open>Lemmas\<close>

lemma abs_trunc_div: "0 < n \<Longrightarrow> \<bar>trunc_div x n\<bar> = \<bar>x\<bar> div n"
proof -
  assume "0 < n"
  then have "0 \<le> \<bar>x\<bar> div n" by (simp add: pos_imp_zdiv_nonneg_iff)
  then show ?thesis by (cases "x = 0") (simp_all add: trunc_div_def abs_mult)
qed

lemma abs_js_rem: "\<bar>js_rem a b\<bar> = \<bar>a\<bar> mod \<bar>b\<bar>" if "b \<noteq> 0"
proof -
  have "0 \<le> \<bar>a\<bar> mod \<bar>b\<bar>" using that by simp
  then show ?thesis by (cases "a = 0") (simp_all add: js_rem_def abs_mult)
qed

lemma div_units: "x div 60000 = x div 1000 div (60 :: int)" "x div 3600000 = x div 1000 div (3600 :: int)"
  "x div 86400000 = x div 1000 div (86400 :: int)"
  using zdiv_zmult2_eq [of 60 x 1000] zdiv_zmult2_eq [of 3600 x 1000] zdiv_zmult2_eq [of 86400 x 1000] by simp_all

lemma duration_eq:
  assumes "differences_truncate fns" and "instant_of fns a = Some s" and "instant_of fns b = Some e"
  shows "durationBetween fns a b = Inr
    (let t = \<bar>e - s\<bar> div 1000
     in \<lparr>du_days = t div 86400, du_hours = t div 3600 mod 24, du_minutes = t div 60 mod 60, du_seconds = t mod 60,
        du_totalSeconds = t, du_totalMinutes = t div 60, du_totalHours = t div 3600, du_totalDays = t div 86400\<rparr>)"
  using assms by (simp add: durationBetween_def differences_truncate_def Let_def abs_trunc_div abs_js_rem div_units)

section \<open>Properties\<close>

text \<open>
  A duration recomposes. In a zone without clock changes the parts of \<open>durationBetween\<close> make up the whole
  seconds between the two instants, with hours below 24 and minutes and seconds below 60, the totals are
  the whole units of that span, and the order of the two dates does not matter.
\<close>

theorem duration_recomposes:
  assumes "differences_truncate fns" and "instant_of fns a = Some s" and "instant_of fns b = Some e"
  shows "\<exists>d. durationBetween fns a b = Inr d \<and> durationBetween fns b a = Inr d \<and>
    ((du_days d * 24 + du_hours d) * 60 + du_minutes d) * 60 + du_seconds d = \<bar>e - s\<bar> div 1000 \<and>
    0 \<le> du_hours d \<and> du_hours d < 24 \<and> 0 \<le> du_minutes d \<and> du_minutes d < 60 \<and> 0 \<le> du_seconds d \<and> du_seconds d < 60 \<and>
    du_totalSeconds d = \<bar>e - s\<bar> div 1000 \<and> du_totalMinutes d = \<bar>e - s\<bar> div 60000 \<and>
    du_totalHours d = \<bar>e - s\<bar> div 3600000 \<and> du_totalDays d = du_days d"
proof -
  define t where "t = \<bar>e - s\<bar> div 1000"
  have sym: "\<bar>s - e\<bar> = \<bar>e - s\<bar>" by simp
  have "t div 3600 = t div 60 div 60" "t div 86400 = t div 60 div 60 div 24"
    using zdiv_zmult2_eq [of 60 t 60] zdiv_zmult2_eq [of 24 t 3600] by simp_all
  then have "((t div 86400 * 24 + t div 3600 mod 24) * 60 + t div 60 mod 60) * 60 + t mod 60 = t"
    by (simp only: div_mult_mod_eq)
  moreover have "\<bar>e - s\<bar> div 60000 = t div 60" "\<bar>e - s\<bar> div 3600000 = t div 3600"
    by (simp_all add: t_def div_units)
  moreover define d where "d = \<lparr>du_days = t div 86400, du_hours = t div 3600 mod 24, du_minutes = t div 60 mod 60,
    du_seconds = t mod 60, du_totalSeconds = t, du_totalMinutes = t div 60, du_totalHours = t div 3600, du_totalDays = t div 86400\<rparr>"
  have parts: "du_days d = t div 86400" "du_hours d = t div 3600 mod 24" "du_minutes d = t div 60 mod 60" "du_seconds d = t mod 60"
    "du_totalSeconds d = t" "du_totalMinutes d = t div 60" "du_totalHours d = t div 3600" "du_totalDays d = t div 86400"
    unfolding d_def by (rule Duration.select_convs)+
  moreover have "durationBetween fns a b = Inr d" "durationBetween fns b a = Inr d"
    unfolding duration_eq [OF assms] duration_eq [OF assms(1,3,2)] sym Let_def t_def [symmetric] d_def by (rule refl)+
  moreover have "0 \<le> x mod 24" "x mod 24 < 24" "0 \<le> x mod 60" "x mod 60 < 60" for x :: int by simp_all
  ultimately show ?thesis unfolding t_def [symmetric] by (intro exI [of _ d]) (simp only: parts simp_thms)
qed

definition utc_date_fns :: date_fns where
  "utc_date_fns = \<lparr>df_parseISO = (\<lambda>s. None), df_format = (\<lambda>d p. Inr p), df_startOfDay = (\<lambda>d. d div 86400000 * 86400000),
     df_diffSeconds = (\<lambda>a b. trunc_div (a - b) 1000), df_diffMinutes = (\<lambda>a b. trunc_div (a - b) 60000),
     df_diffHours = (\<lambda>a b. trunc_div (a - b) 3600000), df_diffDays = (\<lambda>a b. trunc_div (a - b) 86400000),
     df_addDays = (\<lambda>d n. d + n * 86400000), df_subDays = (\<lambda>d n. d - n * 86400000)\<rparr>"

theorem duration_recomposes_witness:
  "\<exists>d. durationBetween utc_date_fns (At 0) (At 100000000) = Inr d \<and> du_days d = 1 \<and> du_hours d = 3 \<and> du_minutes d = 46 \<and> du_seconds d = 40"
proof -
  have "differences_truncate utc_date_fns" by (simp add: differences_truncate_def utc_date_fns_def)
  from duration_recomposes [OF this, of "At 0" 0 "At 100000000" 100000000] show ?thesis
    by (auto simp: durationBetween_def utc_date_fns_def trunc_div_def js_rem_def Let_def)
qed

end
