(* ===== verification/Controllers.thy ===== *)
theory Controllers
  imports Guards Filters Dtos
begin

text \<open>
  The REST controllers of \<open>src/presentation/rest/controllers\<close>, and the one of \<open>src/observability/metrics\<close>: their routes with the metadata the guards
  read (\<open>Public\<close>, \<open>Roles\<close>, \<open>Permissions\<close>, \<open>RateLimit\<close>) and their handlers. The user controller's handlers are the
  source's placeholders. Bodies arrive as the DTO's fields; \<open>clk k\<close> is the \<open>k\<close>-th \<open>new Date()\<close> of a handler.
\<close>

section \<open>Routes\<close>

datatype route =
    Login | Register | Refresh | Logout
  | CreateUser | ListUsers | GetUser | UpdateUser | DeleteUser
  | Liveness | Readiness | Metrics

text \<open>
  What the decorators of a handler declare: verb and path, \<open>HttpCode\<close>, the metadata of the guards, the
  rate limit, and the documentation (summary, parameters, statuses in their order). \<open>ControllerDecl\<close> has the
  decorators of a class.
\<close>

record RouteDecl =
  rt_verb :: string
  rt_path :: string
  rt_httpCode :: "nat option"
  rt_metadata :: Metadata
  rt_limit :: "RateLimitOptions option"
  rt_summary :: string
  rt_parameters :: "string list"
  rt_responses :: "nat list"

record ControllerDecl =
  ct_path :: string
  ct_metadata :: Metadata
  ct_throttled :: bool

definition Public :: Metadata where
  "Public = \<lparr>md_isPublic = Some True, md_roles = None, md_permissions = None\<rparr>"

definition Guarded :: "string list option \<Rightarrow> string list option \<Rightarrow> Metadata" where
  "Guarded roles permissions = \<lparr>md_isPublic = None, md_roles = roles, md_permissions = permissions\<rparr>"

definition AuthController_decl :: ControllerDecl where
  "AuthController_decl = \<lparr>ct_path = ''api/v1/auth'', ct_metadata = Guarded None None, ct_throttled = True\<rparr>"

definition UserController_decl :: ControllerDecl where
  "UserController_decl = \<lparr>ct_path = ''api/v1/users'', ct_metadata = Guarded None None, ct_throttled = False\<rparr>"

definition HealthController_decl :: ControllerDecl where
  "HealthController_decl = \<lparr>ct_path = ''health'', ct_metadata = Public, ct_throttled = False\<rparr>"

definition MetricsController_decl :: ControllerDecl where
  "MetricsController_decl = \<lparr>ct_path = ''metrics'', ct_metadata = Guarded None None, ct_throttled = False\<rparr>"

definition login_route :: RouteDecl where
  "login_route = \<lparr>rt_verb = ''POST'', rt_path = ''login'', rt_httpCode = Some 200, rt_metadata = Public,
     rt_limit = Some \<lparr>ro_limit = 10, ro_windowSeconds = 60, ro_keyPrefix = Some ''auth:login''\<rparr>,
     rt_summary = ''Authenticate user'', rt_parameters = [], rt_responses = [200, 401, 429]\<rparr>"

definition register_route :: RouteDecl where
  "register_route = \<lparr>rt_verb = ''POST'', rt_path = ''register'', rt_httpCode = Some 201, rt_metadata = Public,
     rt_limit = Some \<lparr>ro_limit = 5, ro_windowSeconds = 300, ro_keyPrefix = Some ''auth:register''\<rparr>,
     rt_summary = ''Register new user'', rt_parameters = [], rt_responses = [201, 409, 429]\<rparr>"

definition refresh_route :: RouteDecl where
  "refresh_route = \<lparr>rt_verb = ''POST'', rt_path = ''refresh'', rt_httpCode = Some 200, rt_metadata = Guarded None None,
     rt_limit = Some \<lparr>ro_limit = 20, ro_windowSeconds = 60, ro_keyPrefix = Some ''auth:refresh''\<rparr>,
     rt_summary = ''Refresh access token'', rt_parameters = [], rt_responses = [200, 401]\<rparr>"

definition logout_route :: RouteDecl where
  "logout_route = \<lparr>rt_verb = ''POST'', rt_path = ''logout'', rt_httpCode = Some 204, rt_metadata = Guarded None None,
     rt_limit = None, rt_summary = ''Logout'', rt_parameters = [], rt_responses = [204, 401]\<rparr>"

definition createUser_route :: RouteDecl where
  "createUser_route = \<lparr>rt_verb = ''POST'', rt_path = [], rt_httpCode = Some 201,
     rt_metadata = Guarded (Some [''admin'']) (Some [''users:write'']),
     rt_limit = None, rt_summary = ''Create user'', rt_parameters = [], rt_responses = [201, 409, 422]\<rparr>"

definition listUsers_route :: RouteDecl where
  "listUsers_route = \<lparr>rt_verb = ''GET'', rt_path = [], rt_httpCode = None, rt_metadata = Guarded None (Some [''users:read'']),
     rt_limit = None, rt_summary = ''List users'', rt_parameters = [''page'', ''limit'', ''status'', ''email''], rt_responses = [200]\<rparr>"

definition getUser_route :: RouteDecl where
  "getUser_route = \<lparr>rt_verb = ''GET'', rt_path = '':id'', rt_httpCode = None, rt_metadata = Guarded None (Some [''users:read'']),
     rt_limit = None, rt_summary = ''Get user by ID'', rt_parameters = [''id''], rt_responses = [200, 404]\<rparr>"

definition updateUser_route :: RouteDecl where
  "updateUser_route = \<lparr>rt_verb = ''PATCH'', rt_path = '':id'', rt_httpCode = None, rt_metadata = Guarded None (Some [''users:write'']),
     rt_limit = None, rt_summary = ''Update user'', rt_parameters = [''id''], rt_responses = [200, 404, 422]\<rparr>"

definition deleteUser_route :: RouteDecl where
  "deleteUser_route = \<lparr>rt_verb = ''DELETE'', rt_path = '':id'', rt_httpCode = Some 204,
     rt_metadata = Guarded (Some [''admin'']) (Some [''users:delete'']),
     rt_limit = None, rt_summary = ''Delete user'', rt_parameters = [''id''], rt_responses = [204, 404]\<rparr>"

definition liveness_route :: RouteDecl where
  "liveness_route = \<lparr>rt_verb = ''GET'', rt_path = [], rt_httpCode = None, rt_metadata = Guarded None None,
     rt_limit = None, rt_summary = ''Liveness probe'', rt_parameters = [], rt_responses = [200]\<rparr>"

definition readiness_route :: RouteDecl where
  "readiness_route = \<lparr>rt_verb = ''GET'', rt_path = ''ready'', rt_httpCode = None, rt_metadata = Guarded None None,
     rt_limit = None, rt_summary = ''Readiness probe'', rt_parameters = [], rt_responses = [200, 503]\<rparr>"

definition metrics_route :: RouteDecl where
  "metrics_route = \<lparr>rt_verb = ''GET'', rt_path = [], rt_httpCode = None, rt_metadata = Guarded None None,
     rt_limit = None, rt_summary = [], rt_parameters = [], rt_responses = []\<rparr>"

fun route_decl :: "route \<Rightarrow> RouteDecl" where
  "route_decl Login = login_route"
| "route_decl Register = register_route"
| "route_decl Refresh = refresh_route"
| "route_decl Logout = logout_route"
| "route_decl CreateUser = createUser_route"
| "route_decl ListUsers = listUsers_route"
| "route_decl GetUser = getUser_route"
| "route_decl UpdateUser = updateUser_route"
| "route_decl DeleteUser = deleteUser_route"
| "route_decl Liveness = liveness_route"
| "route_decl Readiness = readiness_route"
| "route_decl Metrics = metrics_route"

fun controller_of :: "route \<Rightarrow> ControllerDecl" where
  "controller_of Liveness = HealthController_decl"
| "controller_of Readiness = HealthController_decl"
| "controller_of Metrics = MetricsController_decl"
| "controller_of r = (if r = Login \<or> r = Register \<or> r = Refresh \<or> r = Logout then AuthController_decl else UserController_decl)"

definition handler_metadata :: "route \<Rightarrow> Metadata" where
  "handler_metadata r = rt_metadata (route_decl r)"

definition class_metadata :: "route \<Rightarrow> Metadata" where
  "class_metadata r = ct_metadata (controller_of r)"

lemmas route_defs = login_route_def register_route_def refresh_route_def logout_route_def createUser_route_def
  listUsers_route_def getUser_route_def updateUser_route_def deleteUser_route_def liveness_route_def readiness_route_def
  metrics_route_def MetricsController_decl_def
  AuthController_decl_def UserController_decl_def HealthController_decl_def Public_def Guarded_def
  handler_metadata_def class_metadata_def

text \<open>
  The guards of a route. \<open>AuthController\<close> names \<open>ThrottlerGuard\<close> once more for its routes: after the global
  guards a second instance with a store of its own counts the request again. \<open>clk 0\<close> and \<open>clk 1\<close> are the clock
  readings of the first throttler, \<open>clk 2\<close> and \<open>clk 3\<close> those of the second; its headers replace the others'.
\<close>

definition route_guards ::
  "'s session_db \<Rightarrow> (string option \<Rightarrow> string + TokenPayload) \<Rightarrow> ThrottleConfig \<Rightarrow> (nat \<Rightarrow> int) \<Rightarrow> route \<Rightarrow> string option \<Rightarrow>
     ThrottleRequest \<Rightarrow> 's \<times> rate_store \<times> rate_store \<Rightarrow>
     ((exn + AuthenticatedUser option) \<times> headers) \<times> 's \<times> rate_store \<times> rate_store" where
  "route_guards d verify cfg clk r authorization request = (\<lambda>(s, store, own).
     let rq = request\<lparr>rq_custom := rt_limit (route_decl r)\<rparr>
     in case SecurityModule_guards d verify cfg (clk 0) (clk 1) (handler_metadata r) (class_metadata r) authorization rq (s, store) of
          ((Inl e, h), s', store') \<Rightarrow> ((Inl e, h), s', store', own)
        | ((Inr user, h), s', store') \<Rightarrow>
            if ct_throttled (controller_of r)
            then (case Throttler_canActivate cfg (clk 2) (clk 3) (rq\<lparr>rq_userId := map_option us_id user\<rparr>) own of
                    (res, h', own') \<Rightarrow> ((bindE res (\<lambda>_. Inr user), h'), s', store', own'))
            else ((Inr user, h), s', store', own))"

section \<open>AuthController\<close>

record LoginDto =
  ld_email :: string
  ld_password :: string

record RegisterDto =
  rd_email :: string
  rd_password :: string
  rd_firstName :: string
  rd_lastName :: string

record RequestInfo =
  ri_userAgent :: "string option"
  ri_ip :: "string option"

record TokenResponseDto = TokenPair +
  tr_tokenType :: string

definition bearer :: "TokenPair \<Rightarrow> TokenResponseDto" where
  "bearer tp = TokenPair.extend tp \<lparr>tr_tokenType = ''Bearer''\<rparr>"

definition AuthController_login ::
  "auth_env \<Rightarrow> 's session_db \<Rightarrow> string \<Rightarrow> string \<Rightarrow> int \<Rightarrow> LoginDto \<Rightarrow> RequestInfo \<Rightarrow> ('s, exn, TokenResponseDto) proc" where
  "AuthController_login en d jti tok now loginDto request =
     bindP (Auth_generateTokenPair en d jti tok now ''user-id'' (ld_email loginDto) [''user''] (ri_userAgent request) (ri_ip request))
       (\<lambda>tokenPair. returnP (bearer tokenPair))"

definition AuthController_register ::
  "auth_env \<Rightarrow> 's session_db \<Rightarrow> string \<Rightarrow> string \<Rightarrow> int \<Rightarrow> RegisterDto \<Rightarrow> RequestInfo \<Rightarrow> ('s, exn, TokenResponseDto) proc" where
  "AuthController_register en d jti tok now registerDto request =
     bindP (Auth_generateTokenPair en d jti tok now ''new-user-id'' (rd_email registerDto) [''user''] (ri_userAgent request) (ri_ip request))
       (\<lambda>tokenPair. returnP (bearer tokenPair))"

definition AuthController_refresh ::
  "auth_env \<Rightarrow> 's session_db \<Rightarrow> string \<Rightarrow> string \<Rightarrow> (nat \<Rightarrow> int) \<Rightarrow> string \<Rightarrow> RequestInfo \<Rightarrow> ('s, exn, TokenResponseDto) proc" where
  "AuthController_refresh en d jti tok clk refreshToken request =
     bindP (Auth_refreshTokens en d jti tok clk refreshToken (ri_userAgent request) (ri_ip request))
       (\<lambda>tokenPair. returnP (bearer tokenPair))"

text \<open>\<open>logout\<close> runs behind the guards, so \<open>request.user\<close> is there.\<close>

definition AuthController_logout ::
  "auth_env \<Rightarrow> 's session_db \<Rightarrow> int \<Rightarrow> string option \<Rightarrow> AuthenticatedUser \<Rightarrow> ('s, exn, unit) proc" where
  "AuthController_logout en d now refreshToken user = Auth_revokeToken en d now (us_id user) refreshToken"

section \<open>UserController\<close>

record CreateUserBody =
  cb_email :: string
  cb_password :: string
  cb_firstName :: string
  cb_lastName :: string

record UpdateUserBody =
  ub_firstName :: "string option"
  ub_lastName :: "string option"
  ub_status :: "string option"

definition user_response ::
  "string \<Rightarrow> string \<Rightarrow> string \<Rightarrow> string \<Rightarrow> string \<Rightarrow> bool \<Rightarrow> json \<Rightarrow> int \<Rightarrow> int \<Rightarrow> json" where
  "user_response i email firstName lastName status verified lastLogin created updated =
     JObj [(''id'', JStr i), (''email'', JStr email), (''firstName'', JStr firstName), (''lastName'', JStr lastName),
       (''status'', JStr status), (''emailVerified'', JBool verified), (''lastLoginAt'', lastLogin),
       (''createdAt'', JDate created), (''updatedAt'', JDate updated), (''roles'', JArr [JStr ''user''])]"

definition UserController_createUser :: "(nat \<Rightarrow> int) \<Rightarrow> CreateUserBody \<Rightarrow> json" where
  "UserController_createUser clk dto =
     user_response ''generated-uuid'' (cb_email dto) (cb_firstName dto) (cb_lastName dto) ''ACTIVE'' False JNull (clk 0) (clk 1)"

definition UserController_listUsers :: "int option \<Rightarrow> int option \<Rightarrow> json" where
  "UserController_listUsers query_page query_limit =
     (let page = max 1 (case query_page of Some p \<Rightarrow> p | None \<Rightarrow> 1);
          limit = min 100 (max 1 (case query_limit of Some l \<Rightarrow> l | None \<Rightarrow> 20))
      in JObj [(''items'', JArr []), (''total'', JNum 0), (''page'', JNum page), (''limit'', JNum limit)])"

definition UserController_getUser :: "(nat \<Rightarrow> int) \<Rightarrow> string \<Rightarrow> json" where
  "UserController_getUser clk i =
     user_response i ''user@example.com'' ''John'' ''Doe'' ''ACTIVE'' True (JDate (clk 0)) (clk 1) (clk 2)"

definition UserController_updateUser :: "(nat \<Rightarrow> int) \<Rightarrow> string \<Rightarrow> UpdateUserBody \<Rightarrow> json" where
  "UserController_updateUser clk i dto =
     user_response i ''user@example.com'' (case ub_firstName dto of Some x \<Rightarrow> x | None \<Rightarrow> ''John'')
       (case ub_lastName dto of Some x \<Rightarrow> x | None \<Rightarrow> ''Doe'') (case ub_status dto of Some x \<Rightarrow> x | None \<Rightarrow> ''ACTIVE'')
       True JNull (clk 0) (clk 1)"

definition UserController_deleteUser :: "string \<Rightarrow> json" where
  "UserController_deleteUser i = JUndef"

section \<open>HealthController\<close>

text \<open>\<open>process.uptime()\<close> is a number with a fraction, kept as the value it is; heap sizes are bytes and
  rounded half up to whole mebibytes.\<close>

definition mebibytes :: "nat \<Rightarrow> string" where
  "mebibytes bytes = show_nat ((2 * bytes + 1048576) div 2097152) @ ''MB''"

definition HealthController_liveness :: "int \<Rightarrow> json \<Rightarrow> json" where
  "HealthController_liveness now uptime = JObj [(''status'', JStr ''ok''), (''timestamp'', JDate now), (''uptime'', uptime)]"

definition HealthController_readiness :: "int \<Rightarrow> json \<Rightarrow> nat \<Rightarrow> nat \<Rightarrow> json" where
  "HealthController_readiness now uptime heapUsed heapTotal =
     JObj [(''status'', JStr ''ok''), (''timestamp'', JDate now), (''uptime'', uptime),
       (''memory'', JObj [(''heapUsed'', JStr (mebibytes heapUsed)), (''heapTotal'', JStr (mebibytes heapTotal))])]"

section \<open>Lemmas\<close>

context prisma_sessions
begin

lemma generate_keeps_accounts:
  "Auth_generateTokenPair en d jti v now u em roles ua ip s = (Inr tp, s') \<Longrightarrow> accounts s' = accounts s"
  using create_law [of "\<lparr>ns_userId = u, ns_refreshToken = projr (en_hash en v (en_bcryptRounds en)), ns_userAgent = map_option (take 512) ua,
      ns_ipAddress = ip, ns_expiresAt = now + en_refreshTokenTtlDays en * 86400000\<rparr>" s]
  by (auto simp: Auth_generateTokenPair_def bindP_def split: sum.splits)

text \<open>A fresh pair of an active account is accepted.\<close>

lemma generated_pair_valid:
  assumes "bcrypt_ok en" and "en_sign en \<lparr>tk_sub = u, tk_email = em, tk_roles = roles, tk_jti = jti\<rparr> = Inr acc"
    and "accounts s u = Some user" and "au_status user = ACTIVE" and "tk_sub p = u"
  shows "\<exists>s' x. Auth_generateTokenPair en d jti v now u em roles ua ip s =
      (Inr \<lparr>tp_accessToken = acc, tp_refreshToken = u @ ''.'' @ v, tp_expiresIn = en_accessTokenTtl en\<rparr>, s') \<and>
    Jwt_validate d p s' = (Inr x, s') \<and> us_id x = au_id user"
proof -
  obtain y s' where g: "Auth_generateTokenPair en d jti v now u em roles ua ip s =
      (Inr \<lparr>tp_accessToken = acc, tp_refreshToken = u @ ''.'' @ v, tp_expiresIn = en_accessTokenTtl en\<rparr>, s')"
    "sess s' = sess s @ [y]" "ss_userId y = u" "ss_revokedAt y = None"
    using generate_ok [OF assms(1,2), of v now ua ip s] by auto
  have "find (\<lambda>r. ss_userId r = tk_sub p \<and> ss_revokedAt r = None) (sess s') \<noteq> None"
    using g(2-4) assms(5) by (auto simp: find_None_iff)
  then show ?thesis
    using g(1) validate_cases [of p s'] generate_keeps_accounts [OF g(1)] assms(3-5) by auto
qed

end

section \<open>Properties\<close>

text \<open>
  C30. Who may do what. The routes without authentication are login, registration and the two health
  checks. On every other route the role and permission guards let an authenticated user pass exactly when
  it holds the route's permission (\<open>users:read\<close> to list or read, \<open>users:write\<close> to create or change, \<open>users:delete\<close> to
  delete, none to refresh, log out or read metrics) and, to create or delete, the role \<open>admin\<close>.
\<close>
theorem access_matrix:
  "(override (md_isPublic (handler_metadata r)) (md_isPublic (class_metadata r)) = Some True \<longleftrightarrow>
     r \<in> {Login, Register, Liveness, Readiness}) \<and>
   (bindE (RolesGuard_canActivate (handler_metadata r) (class_metadata r) (Some u))
      (\<lambda>_. PermissionsGuard_canActivate (handler_metadata r) (class_metadata r) (Some u)) = Inr () \<longleftrightarrow>
     (r \<in> {CreateUser, DeleteUser} \<longrightarrow> ''admin'' \<in> set (us_roles u)) \<and>
     (r \<in> {ListUsers, GetUser} \<longrightarrow> ''users:read'' \<in> set (us_permissions u)) \<and>
     (r \<in> {CreateUser, UpdateUser} \<longrightarrow> ''users:write'' \<in> set (us_permissions u)) \<and>
     (r = DeleteUser \<longrightarrow> ''users:delete'' \<in> set (us_permissions u)))"
proof (intro conjI)
  show "override (md_isPublic (handler_metadata r)) (md_isPublic (class_metadata r)) = Some True \<longleftrightarrow>
     r \<in> {Login, Register, Liveness, Readiness}"
    by (cases r) (simp_all add: override_def route_defs)
  have both: "bindE x (\<lambda>_. y) = Inr () \<longleftrightarrow> x = Inr () \<and> y = Inr ()" for x y :: "exn + unit"
    by (cases x) simp_all
  show "bindE (RolesGuard_canActivate (handler_metadata r) (class_metadata r) (Some u))
      (\<lambda>_. PermissionsGuard_canActivate (handler_metadata r) (class_metadata r) (Some u)) = Inr () \<longleftrightarrow>
     (r \<in> {CreateUser, DeleteUser} \<longrightarrow> ''admin'' \<in> set (us_roles u)) \<and>
     (r \<in> {ListUsers, GetUser} \<longrightarrow> ''users:read'' \<in> set (us_permissions u)) \<and>
     (r \<in> {CreateUser, UpdateUser} \<longrightarrow> ''users:write'' \<in> set (us_permissions u)) \<and>
     (r = DeleteUser \<longrightarrow> ''users:delete'' \<in> set (us_permissions u))"
    unfolding both roles_ok_iff permissions_ok_iff by (cases r) (simp_all add: override_def route_defs)
qed

theorem access_matrix_witness:
  "bindE (RolesGuard_canActivate (handler_metadata DeleteUser) (class_metadata DeleteUser)
        (Some \<lparr>us_id = ''u'', us_email = ''a@b.c'', us_roles = [''admin''], us_permissions = [''users:delete'']\<rparr>))
      (\<lambda>_. PermissionsGuard_canActivate (handler_metadata DeleteUser) (class_metadata DeleteUser)
        (Some \<lparr>us_id = ''u'', us_email = ''a@b.c'', us_roles = [''admin''], us_permissions = [''users:delete'']\<rparr>)) = Inr ()"
  using conjunct2 [OF access_matrix [of DeleteUser "\<lparr>us_id = ''u'', us_email = ''a@b.c'', us_roles = [''admin''], us_permissions = [''users:delete'']\<rparr>"]]
  by simp

text \<open>
  An expired session cannot be refreshed. The refresh route is not public, so a client whose access
  token has expired is refused by the guards, whatever its refresh token: nothing changes, and the client
  is answered with 401 and the code \<open>TOKEN_EXPIRED\<close>, in a body whose hint at \<open>/auth/refresh\<close> the filter
  has replaced by the address asked for.
\<close>

theorem expired_token_cannot_refresh:
  assumes "verify authorization = Inl ''jwt expired''"
  shows "\<exists>e rs. route_guards d verify cfg clk Refresh authorization request (s, store, own) = ((Inl e, []), s, store, own) \<and>
    AllExceptions_catch env r (Thrown e) = Inr rs \<and> rs_status rs = 401 \<and>
    map_of (rs_body rs) ''code'' = Some (JStr ''TOKEN_EXPIRED'') \<and>
    map_of (rs_body rs) ''detail'' = Some (JStr ''Your access token has expired. Please refresh your token.'') \<and>
    map_of (rs_body rs) ''instance'' = Some (JStr (fr_url r))"
  using assms
  by (simp add: route_guards_def route_defs SecurityModule_guards_def JwtAuthGuard_canActivate_def override_def
      JwtAuthGuard_handleRequest_def http_passes AllExceptions_http_def problem_json_def put_all_def map_of_obj_put)

theorem expired_token_cannot_refresh_witness:
  "\<exists>e rs. route_guards mem_session_db (\<lambda>a. Inl ''jwt expired'') \<lparr>tc_defaultLimit = 2, tc_defaultWindow = 60\<rparr> int Refresh
      (Some ''Bearer old'') plain_request (sample_auth_state, Map.empty, Map.empty) = ((Inl e, []), sample_auth_state, Map.empty, Map.empty) \<and>
    AllExceptions_catch production_env sample_filter_request (Thrown e) = Inr rs \<and> rs_status rs = 401"
  using expired_token_cannot_refresh [of "\<lambda>a. Inl ''jwt expired''" "Some ''Bearer old''" mem_session_db
      "\<lparr>tc_defaultLimit = 2, tc_defaultWindow = 60\<rparr>" int plain_request sample_auth_state Map.empty Map.empty production_env sample_filter_request]
  by blast

text \<open>
  Logging in takes no credentials. The route is public, the password is never read, and whatever
  email is sent the answer is a token pair of the account \<open>user-id\<close>; when that account is active, the access
  token is accepted from then on.
\<close>

theorem login_takes_no_credentials:
  assumes "prisma_sessions d sess accounts" and "bcrypt_ok en"
    and "en_sign en \<lparr>tk_sub = ''user-id'', tk_email = em, tk_roles = [''user''], tk_jti = jti\<rparr> = Inr acc"
    and "accounts s ''user-id'' = Some user" and "au_status user = ACTIVE"
  shows "\<exists>tr s' u. AuthController_login en d jti tok now \<lparr>ld_email = em, ld_password = pw\<rparr> request s = (Inr tr, s') \<and>
    tp_accessToken tr = acc \<and> tr_tokenType tr = ''Bearer'' \<and>
    Jwt_validate d \<lparr>tk_sub = ''user-id'', tk_email = em, tk_roles = [''user''], tk_jti = jti\<rparr> s' = (Inr u, s') \<and>
    us_id u = au_id user"
proof -
  obtain s' x where "Auth_generateTokenPair en d jti tok now ''user-id'' em [''user''] (ri_userAgent request) (ri_ip request) s =
      (Inr \<lparr>tp_accessToken = acc, tp_refreshToken = ''user-id'' @ ''.'' @ tok, tp_expiresIn = en_accessTokenTtl en\<rparr>, s')"
    and "Jwt_validate d \<lparr>tk_sub = ''user-id'', tk_email = em, tk_roles = [''user''], tk_jti = jti\<rparr> s' = (Inr x, s')"
    and "us_id x = au_id user"
    using prisma_sessions.generated_pair_valid [where d = d and sess = sess and accounts = accounts and s = s and
        u = "''user-id''" and roles = "[''user'']" and p = "\<lparr>tk_sub = ''user-id'', tk_email = em, tk_roles = [''user''], tk_jti = jti\<rparr>" and
        v = tok and now = now and ua = "ri_userAgent request" and ip = "ri_ip request", OF assms] by fastforce
  then show ?thesis by (simp add: AuthController_login_def bearer_def TokenPair.defs)
qed

definition login_state :: mem_auth where
  "login_state = (0, [], [''user-id'' \<mapsto> sample_account\<lparr>au_id := ''user-id''\<rparr>])"

theorem login_takes_no_credentials_witness:
  "\<exists>tr s' u. AuthController_login sample_env mem_session_db ''j'' ''t'' 0 \<lparr>ld_email = ''x@y.z'', ld_password = []\<rparr>
      \<lparr>ri_userAgent = None, ri_ip = None\<rparr> login_state = (Inr tr, s') \<and>
    Jwt_validate mem_session_db \<lparr>tk_sub = ''user-id'', tk_email = ''x@y.z'', tk_roles = [''user''], tk_jti = ''j''\<rparr> s' = (Inr u, s')"
proof -
  have "en_sign sample_env \<lparr>tk_sub = ''user-id'', tk_email = ''x@y.z'', tk_roles = [''user''], tk_jti = ''j''\<rparr> = Inr ''jwt''"
    by (simp add: sample_env_def)
  moreover have "(\<lambda>(n, xs, us). us) login_state ''user-id'' = Some (sample_account\<lparr>au_id := ''user-id''\<rparr>)"
    by (simp add: login_state_def)
  moreover have "au_status (sample_account\<lparr>au_id := ''user-id''\<rparr>) = ACTIVE" by (simp add: sample_account_def)
  ultimately show ?thesis
    using login_takes_no_credentials [OF memauth.prisma_sessions_axioms sample_env_ok(1)] by blast
qed

text \<open>
  Listing users normalises the page and the limit as \<open>normalizeOffsetPagination\<close> does, so the limit is
  between 1 and 100. Through the two interceptors, in the order they are registered, the object comes
  out unchanged as the \<open>data\<close> of an envelope, whose \<open>meta\<close> has no \<open>total\<close>, \<open>totalPages\<close> or \<open>hasNext\<close>.
\<close>

theorem listUsers_normalised:
  "UserController_listUsers p l =
     (let n = normalizeOffsetPagination p l
      in JObj [(''items'', JArr []), (''total'', JNum 0), (''page'', JNum (op_page n)), (''limit'', JNum (op_limit n))]) \<and>
   (let answer = PresentationTransform_intercept c (CommonTransform_intercept c' (UserController_listUsers p l))
    in get_key ''data'' answer = UserController_listUsers p l \<and>
       (\<forall>k\<in>{''total'', ''totalPages'', ''hasNext''}. \<not> has_key k (get_key ''meta'' answer)))"
  by (auto simp: UserController_listUsers_def normalizeOffsetPagination_def Let_def DEFAULT_PAGE_def DEFAULT_LIMIT_def
      MAX_LIMIT_def PresentationTransform_intercept_def CommonTransform_intercept_def CommonTransform_isAlreadyWrapped_def
      CommonTransform_meta_def json_get_def split: option.split)

definition sample_envelope :: EnvelopeContext where
  "sample_envelope = \<lparr>ec_headerRequestId = None, ec_contextRequestId = None, ec_requestId = Some ''r'', ec_apiVersion = None,
     ec_protocol = ''http'', ec_host = ''h'', ec_originalUrl = ''/'', ec_now = 0\<rparr>"

theorem listUsers_normalised_witness:
  "get_key ''data'' (PresentationTransform_intercept sample_envelope (CommonTransform_intercept sample_envelope
      (UserController_listUsers (Some 0) (Some 500)))) =
    JObj [(''items'', JArr []), (''total'', JNum 0), (''page'', JNum 1), (''limit'', JNum 100)]"
proof -
  note l = listUsers_normalised [of "Some 0" "Some 500" sample_envelope sample_envelope, unfolded Let_def]
  have "op_page (normalizeOffsetPagination (Some 0) (Some 500)) = 1" "op_limit (normalizeOffsetPagination (Some 0) (Some 500)) = 100"
    by (simp_all add: normalizeOffsetPagination_def MAX_LIMIT_def Let_def)
  then show ?thesis
    using trans [OF conjunct1 [OF conjunct2 [OF l]] conjunct1 [OF l]] by simp
qed

end
