(* ===== verification/AuthSettings.thy ===== *)
theory AuthSettings
  imports SessionAuth Configuration
begin

text \<open>
  Where the authentication settings come from: the constructor of \<open>AuthService\<close>
  (\<open>src/security/authentication/auth.service.ts\<close>), the options of \<open>JwtModule\<close> (\<open>auth.module.ts\<close>) and of \<open>JwtStrategy\<close>
  (\<open>jwt.strategy.ts\<close>). No configuration factory supplies these keys, so a value that is set is an environment
  variable and a text. What jsonwebtoken and bcrypt document of a text are named hypotheses.
\<close>

section \<open>Options\<close>

record jwt_options =
  jw_secret :: string
  jw_algorithm :: string
  jw_issuer :: string
  jw_audience :: string

definition JwtModule_options :: "environment \<Rightarrow> exn + jwt_options" where
  "JwtModule_options env =
     bindE (config_getOrThrow env ''JWT_SECRET'') (\<lambda>secret.
       Inr \<lparr>jw_secret = secret, jw_algorithm = ''HS256'', jw_issuer = config_get env ''JWT_ISSUER'' ''enterprise-system'',
            jw_audience = config_get env ''JWT_AUDIENCE'' ''enterprise-api''\<rparr>)"

text \<open>The options \<open>generateTokenPair\<close> signs with replace those of the module.\<close>

definition Auth_sign_options :: "environment \<Rightarrow> jwt_options \<Rightarrow> jwt_options" where
  "Auth_sign_options env module' =
     module'\<lparr>jw_algorithm := ''HS256'', jw_issuer := config_get env ''JWT_ISSUER'' ''enterprise-system'',
       jw_audience := config_get env ''JWT_AUDIENCE'' ''enterprise-api''\<rparr>"

record verify_options =
  vo_ignoreExpiration :: bool
  vo_secretOrKey :: string
  vo_algorithms :: "string list"
  vo_issuer :: string
  vo_audience :: string

definition JwtStrategy_options :: "environment \<Rightarrow> exn + verify_options" where
  "JwtStrategy_options env =
     bindE (config_getOrThrow env ''JWT_SECRET'') (\<lambda>secret.
       Inr \<lparr>vo_ignoreExpiration = False, vo_secretOrKey = secret, vo_algorithms = [''HS256''],
            vo_issuer = config_get env ''JWT_ISSUER'' ''enterprise-system'',
            vo_audience = config_get env ''JWT_AUDIENCE'' ''enterprise-api''\<rparr>)"

text \<open>The constructor of \<open>JwtStrategy\<close> hands them to passport-jwt, whose constructor may throw.\<close>

definition JwtStrategy_new :: "(verify_options \<Rightarrow> exn + unit) \<Rightarrow> environment \<Rightarrow> exn + verify_options" where
  "JwtStrategy_new passport env =
     bindE (JwtStrategy_options env) (\<lambda>options. bindE (passport options) (\<lambda>_. Inr options))"

record auth_config =
  ac_accessTokenTtl :: config_value
  ac_refreshTokenTtlDays :: config_value
  ac_refreshTokenSecret :: string
  ac_bcryptRounds :: config_value

definition AuthService_new :: "environment \<Rightarrow> exn + auth_config" where
  "AuthService_new env =
     bindE (config_getOrThrow env ''JWT_REFRESH_SECRET'') (\<lambda>refreshTokenSecret.
       Inr \<lparr>ac_accessTokenTtl = config_number env ''JWT_ACCESS_TTL_SECONDS'' 900,
            ac_refreshTokenTtlDays = config_number env ''JWT_REFRESH_TTL_DAYS'' 7,
            ac_refreshTokenSecret = refreshTokenSecret,
            ac_bcryptRounds = config_number env ''BCRYPT_ROUNDS'' 12\<rparr>)"

text \<open>
  \<open>expiresAt.setDate(expiresAt.getDate() + this.refreshTokenTtlDays)\<close>: with a text the plus sign concatenates, and
  \<open>setDate\<close> converts the result. \<open>day\<close> is the day of the month of the call.
\<close>

definition session_days :: "nat \<Rightarrow> config_value \<Rightarrow> int" where
  "session_days day v =
     (case v of
        ConfigNumber n \<Rightarrow> n
      | ConfigText t \<Rightarrow> config_bound (ConfigText (show_nat day @ t)) - int day)"

text \<open>
  The service with these settings. \<open>sign\<close> gets the life time of the token in milliseconds, which jsonwebtoken
  makes of \<open>expiresIn\<close> (\<open>lifetime\<close>); \<open>bcrypt\<close> gets the second argument of \<open>bcrypt.hash\<close> as it is. The number of seconds
  in the answer is the value as configured, a text as the number it reads as.
\<close>

definition auth_env_of ::
  "nat \<Rightarrow> (config_value \<Rightarrow> int) \<Rightarrow> (int \<Rightarrow> TokenPayload \<Rightarrow> exn + string) \<Rightarrow> (string \<Rightarrow> config_value \<Rightarrow> exn + string) \<Rightarrow>
   (string \<Rightarrow> string \<Rightarrow> exn + bool) \<Rightarrow> auth_config \<Rightarrow> auth_env" where
  "auth_env_of day lifetime sign bcrypt compare c =
     \<lparr>en_accessTokenTtl = config_bound (ac_accessTokenTtl c), en_refreshTokenTtlDays = session_days day (ac_refreshTokenTtlDays c),
      en_bcryptRounds = 0, en_sign = sign (lifetime (ac_accessTokenTtl c)),
      en_hash = (\<lambda>v n. bcrypt v (ac_bcryptRounds c)), en_compare = compare\<rparr>"

section \<open>What the libraries document\<close>

text \<open>jsonwebtoken: a number is a time in seconds, a text without a unit one in milliseconds.\<close>

definition jwt_lifetime_law :: "(config_value \<Rightarrow> int) \<Rightarrow> bool" where
  "jwt_lifetime_law lifetime \<longleftrightarrow>
     (\<forall>n. lifetime (ConfigNumber n) = n * 1000) \<and>
     (\<forall>t. t \<noteq> [] \<and> list_all is_digit t \<longrightarrow> lifetime (ConfigText t) = digits_value t)"

text \<open>passport-jwt: of the options given here, only a secret that is empty is refused.\<close>

definition passport_law :: "(verify_options \<Rightarrow> exn + unit) \<Rightarrow> bool" where
  "passport_law passport \<longleftrightarrow> (\<forall>v. (\<exists>e. passport v = Inl e) \<longleftrightarrow> vo_secretOrKey v = [])"

definition sample_passport :: "verify_options \<Rightarrow> exn + unit" where
  "sample_passport v = (if vo_secretOrKey v = [] then Inl (JsError ''JwtStrategy requires a secret or key'') else Inr ())"

lemma sample_passport_law: "passport_law sample_passport"
  by (simp add: passport_law_def sample_passport_def)

text \<open>bcrypt: a number is a cost, a text a salt, which begins with a dollar sign or is refused.\<close>

definition bcrypt_salt_law :: "(string \<Rightarrow> config_value \<Rightarrow> exn + string) \<Rightarrow> bool" where
  "bcrypt_salt_law bcrypt \<longleftrightarrow> (\<forall>v t. \<not> str_prefix ''$'' t \<longrightarrow> (\<exists>e. bcrypt v (ConfigText t) = Inl e))"

section \<open>Properties\<close>

lemma config_bound_digits: "t \<noteq> [] \<Longrightarrow> list_all is_digit t \<Longrightarrow> config_bound (ConfigText t) = digits_value t"
proof -
  assume t: "t \<noteq> []" "list_all is_digit t"
  then have "list_all not_white t" by (auto simp: list_all_iff digits_plain)
  then have "str_trim t = t" by (rule str_trim_no_white)
  with t show ?thesis by (simp add: js_Number_def Let_def)
qed

lemma digits_value_append: "digits_value (s @ t) = digits_value s * 10 ^ length t + digits_value t"
proof (induction t rule: rev_induct)
  case (snoc c t)
  then show ?case
    using digits_value_snoc [of "s @ t" c] digits_value_snoc [of t c] by (simp add: algebra_simps)
qed (simp add: digits_value_def)

text \<open>
  Issuing and checking agree. In every environment the module that signs access tokens and the
  strategy that checks them start under the same condition, and then they have the same secret,
  algorithm, issuer and audience.
\<close>

theorem jwt_settings_agree:
  "(\<exists>e. JwtModule_options env = Inl e \<and> JwtStrategy_options env = Inl e \<and> env ''JWT_SECRET'' = None) \<or>
   (\<exists>m v. JwtModule_options env = Inr m \<and> JwtStrategy_options env = Inr v \<and> Some (jw_secret m) = env ''JWT_SECRET'' \<and>
      Auth_sign_options env m = m \<and> vo_secretOrKey v = jw_secret m \<and> vo_algorithms v = [jw_algorithm m] \<and>
      vo_issuer v = jw_issuer m \<and> vo_audience v = jw_audience m)"
  by (cases "env ''JWT_SECRET''")
    (simp_all add: JwtModule_options_def JwtStrategy_options_def Auth_sign_options_def config_getOrThrow_def)

text \<open>
  C38. Numbers set in the environment change their meaning, because they arrive as texts. Without
  \<open>JWT_ACCESS_TTL_SECONDS\<close> an access token is signed for 900 seconds, and 900 is what the answer announces; set to a text
  of digits, the token is signed for that number of milliseconds, while the answer announces as many seconds.
  \<open>JWT_REFRESH_TTL_DAYS\<close> set to a text of digits is appended to the day of the month, and the session lasts until the day of that
  number: on the 15th, the text 7 gives sessions of 142 days. \<open>BCRYPT_ROUNDS\<close> set to a text of digits is
  taken for a salt: no token pair is issued any more, and no session is stored.
\<close>
theorem auth_numbers_from_environment:
  assumes "jwt_lifetime_law lifetime" "bcrypt_salt_law bcrypt" "AuthService_new env = Inr c"
    and en_def: "en = auth_env_of day lifetime sign bcrypt compare c"
  shows "(env ''JWT_ACCESS_TTL_SECONDS'' = None \<longrightarrow> en_accessTokenTtl en = 900 \<and> en_sign en = sign 900000) \<and>
    (\<forall>t. env ''JWT_ACCESS_TTL_SECONDS'' = Some t \<and> t \<noteq> [] \<and> list_all is_digit t \<longrightarrow>
       en_accessTokenTtl en = digits_value t \<and> en_sign en = sign (digits_value t)) \<and>
    (\<forall>tp s'. Auth_generateTokenPair en d jti tok now u em roles ua ip s = (Inr tp, s') \<longrightarrow> tp_expiresIn tp = en_accessTokenTtl en) \<and>
    (\<forall>t. env ''JWT_REFRESH_TTL_DAYS'' = Some t \<and> list_all is_digit t \<longrightarrow>
       en_refreshTokenTtlDays en = int day * 10 ^ length t + digits_value t - int day) \<and>
    (\<forall>t. env ''BCRYPT_ROUNDS'' = Some t \<and> list_all is_digit t \<longrightarrow>
       (\<exists>e. Auth_generateTokenPair en d jti tok now u em roles ua ip s = (Inl e, s)))"
proof (intro conjI allI impI)
  have c: "ac_accessTokenTtl c = config_number env ''JWT_ACCESS_TTL_SECONDS'' 900"
    "ac_refreshTokenTtlDays c = config_number env ''JWT_REFRESH_TTL_DAYS'' 7" "ac_bcryptRounds c = config_number env ''BCRYPT_ROUNDS'' 12"
    using assms(3) by (auto simp: AuthService_new_def bindE_eq_Inr)
  { assume "env ''JWT_ACCESS_TTL_SECONDS'' = None"
    then show "en_accessTokenTtl en = 900" "en_sign en = sign 900000"
      using assms(1) by (simp_all add: en_def auth_env_of_def c config_number_def jwt_lifetime_law_def) }
  { fix t assume t: "env ''JWT_ACCESS_TTL_SECONDS'' = Some t \<and> t \<noteq> [] \<and> list_all is_digit t"
    then show "en_accessTokenTtl en = digits_value t" "en_sign en = sign (digits_value t)"
      using assms(1) config_bound_digits [of t]
      by (simp_all add: en_def auth_env_of_def c config_number_def jwt_lifetime_law_def del: config_bound.simps) }
  { fix tp s' assume "Auth_generateTokenPair en d jti tok now u em roles ua ip s = (Inr tp, s')"
    then show "tp_expiresIn tp = en_accessTokenTtl en"
      by (auto simp: Auth_generateTokenPair_def bindP_def split: sum.splits prod.splits) }
  { fix t assume t: "env ''JWT_REFRESH_TTL_DAYS'' = Some t \<and> list_all is_digit t"
    have "config_bound (ConfigText (show_nat day @ t)) = digits_value (show_nat day @ t)"
      using t show_nat_digits [of day] show_nat_nonempty [of day] by (intro config_bound_digits) simp_all
    then show "en_refreshTokenTtlDays en = int day * 10 ^ length t + digits_value t - int day"
      using t show_nat_digits [of day] digits_value_append [of "show_nat day" t]
      by (simp add: en_def auth_env_of_def c config_number_def session_days_def del: config_bound.simps) }
  { fix t assume t: "env ''BCRYPT_ROUNDS'' = Some t \<and> list_all is_digit t"
    then have "\<not> str_prefix ''$'' t" by (cases t) (auto simp: char_class_defs)
    with t assms(2) obtain e where "en_hash en tok n = Inl e" for n
      by (auto simp: en_def auth_env_of_def c config_number_def bcrypt_salt_law_def)
    then show "\<exists>e. Auth_generateTokenPair en d jti tok now u em roles ua ip s = (Inl e, s)"
      by (cases "en_sign en \<lparr>tk_sub = u, tk_email = em, tk_roles = roles, tk_jti = jti\<rparr>") (simp_all add: Auth_generateTokenPair_def) }
qed

definition sample_lifetime :: "config_value \<Rightarrow> int" where
  "sample_lifetime v = (case v of ConfigNumber n \<Rightarrow> n * 1000 | ConfigText t \<Rightarrow> digits_value t)"

definition salt_or_cost :: "string \<Rightarrow> config_value \<Rightarrow> exn + string" where
  "salt_or_cost v salt = (case salt of ConfigNumber n \<Rightarrow> Inr v | ConfigText t \<Rightarrow> if str_prefix ''$'' t then Inr v else Inl (JsError ''Invalid salt''))"

theorem auth_numbers_from_environment_witness:
  "\<exists>e. Auth_generateTokenPair (auth_env_of 15 sample_lifetime (\<lambda>ms p. Inr ''jwt'') salt_or_cost (\<lambda>a b. Inr (a = b))
      (projr (AuthService_new [''JWT_REFRESH_SECRET'' \<mapsto> ''s'', ''BCRYPT_ROUNDS'' \<mapsto> ''12'']))) mem_session_db ''j'' ''t'' 0 ''u'' ''a@b.c'' [] None None
      sample_auth_state = (Inl e, sample_auth_state)"
proof -
  let ?env = "[''JWT_REFRESH_SECRET'' \<mapsto> ''s'', ''BCRYPT_ROUNDS'' \<mapsto> ''12'']"
  have "jwt_lifetime_law sample_lifetime" "bcrypt_salt_law salt_or_cost"
    by (simp_all add: jwt_lifetime_law_def sample_lifetime_def bcrypt_salt_law_def salt_or_cost_def)
  moreover obtain c where c: "AuthService_new ?env = Inr c" by (simp add: AuthService_new_def config_getOrThrow_def)
  moreover have "list_all is_digit ''12''" by code_simp
  ultimately show ?thesis
    using auth_numbers_from_environment [where lifetime = sample_lifetime and bcrypt = salt_or_cost and env = ?env and c = c and
        sign = "\<lambda>ms p. Inr ''jwt''" and compare = "\<lambda>a b. Inr (a = b)" and d = mem_session_db and jti = "''j''" and tok = "''t''" and
        now = 0 and u = "''u''" and em = "''a@b.c''" and day = 15 and roles = "[]" and ua = None and ip = None and s = sample_auth_state, OF _ _ _ refl] by simp
qed

end
