(* ===== verification/Observability.thy ===== *)
theory Observability
  imports Redaction Complex_Main
begin

text \<open>
  \<open>src/observability\<close>: health indicators and readiness, the request-logger middleware, the span wrapper of
  the tracing service and the counters of the metrics service. What a dependency answers is an argument
  (the database's and Redis' replies); \<open>start\<close> and \<open>end\<close> readings of \<open>performance.now()\<close> are rationals.
  OpenTelemetry and prom-client are third-party: a span is the list of calls made on it, and the registry the
  list of observations.
\<close>

section \<open>Health\<close>

datatype HealthStatus = healthy | degraded | unhealthy

record DependencyHealth =
  dh_name :: string
  dh_status :: HealthStatus
  dh_latencyMs :: "int option"
  dh_message :: "string option"
  dh_details :: "(string \<times> json) list option"

record SystemHealth =
  sh_status :: HealthStatus
  sh_timestamp :: int
  sh_uptime :: int
  sh_version :: string
  sh_dependencies :: "DependencyHealth list"

text \<open>\<open>Math.round\<close>, and \<open>error instanceof Error ? error.message : d\<close>.\<close>

definition js_round :: "rat \<Rightarrow> int" where
  "js_round x = \<lfloor>x + 1 / 2\<rfloor>"

definition message_or :: "exn \<Rightarrow> string \<Rightarrow> string" where
  "message_or e d = (if is_Error e then exn_message e else d)"

definition unhealthy_dependency :: "string \<Rightarrow> rat \<Rightarrow> string \<Rightarrow> DependencyHealth" where
  "unhealthy_dependency name elapsed message =
     \<lparr>dh_name = name, dh_status = unhealthy, dh_latencyMs = Some (js_round elapsed), dh_message = Some message, dh_details = None\<rparr>"

definition checkPostgres :: "rat \<Rightarrow> exn + unit \<Rightarrow> DependencyHealth" where
  "checkPostgres elapsed reply =
     (case reply of
        Inr _ \<Rightarrow> \<lparr>dh_name = ''postgresql'', dh_status = healthy, dh_latencyMs = Some (js_round elapsed), dh_message = None, dh_details = None\<rparr>
      | Inl e \<Rightarrow> unhealthy_dependency ''postgresql'' elapsed (message_or e ''Connection failed''))"

definition checkRedis :: "rat \<Rightarrow> exn + string \<Rightarrow> DependencyHealth" where
  "checkRedis elapsed reply =
     (case reply of
        Inr pong \<Rightarrow> \<lparr>dh_name = ''redis'', dh_status = (if pong = ''PONG'' then healthy else degraded),
          dh_latencyMs = Some (js_round elapsed), dh_message = None, dh_details = None\<rparr>
      | Inl e \<Rightarrow> unhealthy_dependency ''redis'' elapsed (message_or e ''Connection failed''))"

definition checkBullMQ :: "rat \<Rightarrow> exn + string \<Rightarrow> DependencyHealth" where
  "checkBullMQ elapsed reply =
     (case reply of
        Inr info \<Rightarrow> \<lparr>dh_name = ''bullmq'', dh_status = (if info \<noteq> [] \<and> str_includes info ''db'' then healthy else degraded),
          dh_latencyMs = Some (js_round elapsed), dh_message = None, dh_details = Some [(''redisConnected'', JBool True)]\<rparr>
      | Inl e \<Rightarrow> unhealthy_dependency ''bullmq'' elapsed (message_or e ''Queue check failed''))"

definition checkAll :: "(nat \<Rightarrow> rat) \<Rightarrow> exn + unit \<Rightarrow> exn + string \<Rightarrow> exn + string \<Rightarrow> DependencyHealth list" where
  "checkAll elapsed postgres redis queue =
     [checkPostgres (elapsed 0) postgres, checkRedis (elapsed 1) redis, checkBullMQ (elapsed 2) queue]"

definition Health_isAlive :: bool where "Health_isAlive = True"

definition calculateOverallStatus :: "DependencyHealth list \<Rightarrow> HealthStatus" where
  "calculateOverallStatus deps =
     (let unhealthies = filter (\<lambda>d. dh_status d = unhealthy) deps; degradeds = filter (\<lambda>d. dh_status d = degraded) deps
      in if 0 < length unhealthies then unhealthy else if 0 < length degradeds then degraded else healthy)"

text \<open>A rejected check: \<open>result.reason?.message || 'Health check failed'\<close>.\<close>

definition settled_health :: "exn + DependencyHealth \<Rightarrow> DependencyHealth" where
  "settled_health r =
     (case r of
        Inr h \<Rightarrow> h
      | Inl e \<Rightarrow> \<lparr>dh_name = ''unknown'', dh_status = unhealthy, dh_latencyMs = None,
          dh_message = Some (if is_Error e \<and> exn_message e \<noteq> [] then exn_message e else ''Health check failed''), dh_details = None\<rparr>)"

definition checkReadiness :: "int \<Rightarrow> (nat \<Rightarrow> int) \<Rightarrow> string option \<Rightarrow> (exn + DependencyHealth) list \<Rightarrow> SystemHealth" where
  "checkReadiness startTime clk appVersion outcomes =
     (let dependencies = map settled_health outcomes
      in \<lparr>sh_status = calculateOverallStatus dependencies, sh_timestamp = clk 0,
          sh_uptime = (clk 1 - startTime) div 1000,
          sh_version = (case appVersion of Some v \<Rightarrow> if v = [] then ''1.0.0'' else v | None \<Rightarrow> ''1.0.0''),
          sh_dependencies = dependencies\<rparr>)"

section \<open>Request logger\<close>

text \<open>A request as the middleware sees it, and what the response has when it finishes. \<open>rp_timeText\<close> and
  \<open>rp_time\<close> are the elapsed milliseconds as text and as number with two decimals.\<close>

record LoggedRequest =
  lr_method :: string
  lr_originalUrl :: string
  lr_ip :: "string option"
  lr_remoteAddress :: "string option"
  lr_requestId :: "string option"
  lr_correlationId :: "string option"
  lr_userAgent :: "string option"

record FinishedResponse =
  rp_statusCode :: nat
  rp_timeText :: string
  rp_time :: json
  rp_contentLength :: "int option"

definition SKIP_PATHS :: "string list" where
  "SKIP_PATHS = [''/health'', ''/health/live'', ''/health/ready'', ''/metrics'']"

text \<open>\<open>(header as string) || undefined\<close>, and \<open>a || b || d\<close>.\<close>

definition header_value :: "string option \<Rightarrow> json" where
  "header_value h = (case h of Some s \<Rightarrow> if s = [] then JUndef else JStr s | None \<Rightarrow> JUndef)"

definition or_text :: "string option \<Rightarrow> string \<Rightarrow> string" where
  "or_text x d = (case x of Some s \<Rightarrow> if s = [] then d else s | None \<Rightarrow> d)"

definition RequestLogger_use :: "LoggedRequest \<Rightarrow> LoggerService \<Rightarrow> LoggerService" where
  "RequestLogger_use r logger =
     (if lr_originalUrl r \<in> set SKIP_PATHS then logger
      else Logger_setContext [(''requestId'', header_value (lr_requestId r)), (''correlationId'', header_value (lr_correlationId r))] logger)"

definition RequestLogger_finish :: "LoggedRequest \<Rightarrow> FinishedResponse \<Rightarrow> LoggerService \<Rightarrow> log_entry list" where
  "RequestLogger_finish r p logger =
     (if lr_originalUrl r \<in> set SKIP_PATHS then []
      else Logger_http (Text (lr_method r @ '' '' @ lr_originalUrl r @ '' '' @ show_nat (rp_statusCode p) @ '' '' @ rp_timeText p @ ''ms''))
        (Some (plain_meta [(''method'', JStr (lr_method r)), (''url'', JStr (lr_originalUrl r)), (''statusCode'', JNum (int (rp_statusCode p))),
           (''responseTimeMs'', rp_time p), (''contentLength'', JNum (case rp_contentLength p of Some n \<Rightarrow> n | None \<Rightarrow> 0)),
           (''userAgent'', JStr (or_text (lr_userAgent r) ''unknown'')),
           (''ip'', JStr (or_text (lr_ip r) (or_text (lr_remoteAddress r) ''unknown''))),
           (''requestId'', header_value (lr_requestId r)), (''correlationId'', header_value (lr_correlationId r))])) logger)"

text \<open>The middleware and its one logger over a run of requests: they start, and finish in any order.\<close>

datatype request_event = Started LoggedRequest | Finished LoggedRequest FinishedResponse

fun request_log_run :: "request_event list \<Rightarrow> LoggerService \<Rightarrow> log_entry list" where
  "request_log_run [] logger = []"
| "request_log_run (Started r # es) logger = request_log_run es (RequestLogger_use r logger)"
| "request_log_run (Finished r p # es) logger = RequestLogger_finish r p logger @ request_log_run es logger"

section \<open>Tracing and metrics\<close>

datatype span_call = SetStatus bool "string option" | RecordException exn | EndSpan

definition withSpan :: "('s, exn, 'a) proc \<Rightarrow> ('s \<times> span_call list, exn, 'a) proc" where
  "withSpan fn = (\<lambda>(s, calls).
     case fn s of
       (Inr result, s') \<Rightarrow> (Inr result, s', calls @ [SetStatus True None, EndSpan])
     | (Inl error, s') \<Rightarrow>
         (Inl error, s', calls @ [SetStatus False (Some (message_or error ''Unknown error'')), RecordException error, EndSpan]))"

text \<open>The metrics of the registry: histograms with their buckets, counters and gauges, and the labels of each.\<close>

datatype metric_kind = Histogram "rat list" | Counter | Gauge

record metric =
  mt_name :: string
  mt_kind :: metric_kind
  mt_labels :: "string list"

definition METRICS :: "metric list" where
  "METRICS =
     [\<lparr>mt_name = ''http_request_duration_seconds'', mt_kind = Histogram [5/1000, 1/100, 25/1000, 5/100, 1/10, 1/4, 1/2, 1, 5/2, 5, 10],
        mt_labels = [''method'', ''status'', ''path'']\<rparr>,
      \<lparr>mt_name = ''http_requests_total'', mt_kind = Counter, mt_labels = [''method'', ''status'', ''path'']\<rparr>,
      \<lparr>mt_name = ''active_connections'', mt_kind = Gauge, mt_labels = []\<rparr>,
      \<lparr>mt_name = ''domain_events_total'', mt_kind = Counter, mt_labels = [''event_type'']\<rparr>,
      \<lparr>mt_name = ''database_query_duration_seconds'', mt_kind = Histogram [1/1000, 5/1000, 1/100, 25/1000, 5/100, 1/10, 1/4, 1/2, 1, 5/2],
        mt_labels = [''operation'', ''table'']\<rparr>,
      \<lparr>mt_name = ''cache_hit_ratio'', mt_kind = Gauge, mt_labels = []\<rparr>,
      \<lparr>mt_name = ''cache_operations_total'', mt_kind = Counter, mt_labels = [''operation'', ''result'']\<rparr>]"

datatype observation = Observe string "(string \<times> string) list" rat | Increment string "(string \<times> string) list" | AddGauge string int | SetGauge string rat

definition recordHttpRequest :: "string \<Rightarrow> nat \<Rightarrow> string \<Rightarrow> rat \<Rightarrow> observation list" where
  "recordHttpRequest method status path durationSeconds =
     (let labels = [(''method'', method), (''status'', show_nat status), (''path'', path)]
      in [Observe ''http_request_duration_seconds'' labels durationSeconds, Increment ''http_requests_total'' labels])"

definition recordDomainEvent :: "string \<Rightarrow> observation list" where
  "recordDomainEvent eventType = [Increment ''domain_events_total'' [(''event_type'', eventType)]]"

definition recordDatabaseQuery :: "string \<Rightarrow> string \<Rightarrow> rat \<Rightarrow> observation list" where
  "recordDatabaseQuery operation table durationSeconds =
     [Observe ''database_query_duration_seconds'' [(''operation'', operation), (''table'', table)] durationSeconds]"

definition incrementConnections :: "observation list" where
  "incrementConnections = [AddGauge ''active_connections'' 1]"

definition decrementConnections :: "observation list" where
  "decrementConnections = [AddGauge ''active_connections'' (-1)]"

definition recordCacheOperation :: "string \<Rightarrow> bool \<Rightarrow> observation list" where
  "recordCacheOperation operation hit =
     [Increment ''cache_operations_total'' [(''operation'', operation), (''result'', if hit then ''hit'' else ''miss'')]]"

definition updateCacheHitRatio :: "rat \<Rightarrow> observation list" where
  "updateCacheHitRatio ratio = [SetGauge ''cache_hit_ratio'' ratio]"
text \<open>An observation is declared if the registry has a metric of its name and kind with exactly its labels.\<close>

fun declared :: "metric list \<Rightarrow> observation \<Rightarrow> bool" where
  "declared ms (Observe name labels v) = list_ex (\<lambda>m. mt_name m = name \<and> mt_labels m = map fst labels \<and> (case mt_kind m of Histogram bs \<Rightarrow> True | _ \<Rightarrow> False)) ms"
| "declared ms (Increment name labels) = list_ex (\<lambda>m. mt_name m = name \<and> mt_labels m = map fst labels \<and> mt_kind m = Counter) ms"
| "declared ms (AddGauge name n) = list_ex (\<lambda>m. mt_name m = name \<and> mt_labels m = [] \<and> mt_kind m = Gauge) ms"
| "declared ms (SetGauge name v) = list_ex (\<lambda>m. mt_name m = name \<and> mt_labels m = [] \<and> mt_kind m = Gauge) ms"

section \<open>Lemmas\<close>

definition logs_request :: "LoggedRequest \<Rightarrow> bool" where
  "logs_request r \<longleftrightarrow> lr_originalUrl r \<notin> set SKIP_PATHS"

fun logger_after :: "request_event list \<Rightarrow> LoggerService \<Rightarrow> LoggerService" where
  "logger_after [] l = l"
| "logger_after (Started r # es) l = logger_after es (RequestLogger_use r l)"
| "logger_after (Finished r p # es) l = logger_after es l"

lemma request_log_run_append: "request_log_run (xs @ ys) l = request_log_run xs l @ request_log_run ys (logger_after xs l)"
  by (induction xs l rule: logger_after.induct) simp_all

lemma logger_after_append: "logger_after (xs @ ys) l = logger_after ys (logger_after xs l)"
  by (induction xs l rule: logger_after.induct) simp_all

lemma use_distinct: "distinct (map fst (ls_context l)) \<Longrightarrow> distinct (map fst (ls_context (RequestLogger_use r l)))"
  by (simp add: RequestLogger_use_def Logger_setContext_def distinct_put_all)

lemma after_distinct: "distinct (map fst (ls_context l)) \<Longrightarrow> distinct (map fst (ls_context (logger_after es l)))"
  by (induction es l rule: logger_after.induct) (simp_all add: use_distinct)

lemma after_unlogged: "\<forall>r. Started r \<in> set es \<longrightarrow> \<not> logs_request r \<Longrightarrow> logger_after es l = l"
  by (induction es l rule: logger_after.induct) (simp_all add: RequestLogger_use_def logs_request_def)

lemma use_requestId:
  "logs_request r \<Longrightarrow> map_of (ls_context (RequestLogger_use r l)) ''requestId'' = Some (header_value (lr_requestId r))"
  by (simp add: RequestLogger_use_def Logger_setContext_def logs_request_def put_all_def map_of_obj_put)

lemma finish_requestId:
  assumes "logs_request r" "distinct (map fst (ls_context l))" "map_of (ls_context l) ''requestId'' = Some v"
  shows "\<exists>e. RequestLogger_finish r p l = [e] \<and> map_of (lg_meta e) ''requestId'' = Some v"
  using assms unfolding RequestLogger_finish_def Logger_http_def logs_request_def
  by (simp add: map_of_put_all distinct_put_all)

lemma overall_status:
  "calculateOverallStatus deps = unhealthy \<longleftrightarrow> (\<exists>d\<in>set deps. dh_status d = unhealthy)"
  "calculateOverallStatus deps = healthy \<longleftrightarrow> (\<forall>d\<in>set deps. dh_status d = healthy)"
proof -
  have n: "0 < length (filter P deps) \<longleftrightarrow> (\<exists>d\<in>set deps. P d)" for P by (auto simp: filter_empty_conv)
  show "calculateOverallStatus deps = unhealthy \<longleftrightarrow> (\<exists>d\<in>set deps. dh_status d = unhealthy)"
    unfolding calculateOverallStatus_def Let_def n by simp
  have "dh_status d = healthy \<longleftrightarrow> dh_status d \<noteq> unhealthy \<and> dh_status d \<noteq> degraded" for d :: DependencyHealth
    by (cases "dh_status d") simp_all
  then show "calculateOverallStatus deps = healthy \<longleftrightarrow> (\<forall>d\<in>set deps. dh_status d = healthy)"
    unfolding calculateOverallStatus_def Let_def n by auto
qed

lemma settled_status:
  "dh_status (settled_health r) = unhealthy \<longleftrightarrow> (case r of Inl e \<Rightarrow> True | Inr h \<Rightarrow> dh_status h = unhealthy)"
  "dh_status (settled_health r) = healthy \<longleftrightarrow> (\<exists>h. r = Inr h \<and> dh_status h = healthy)"
  by (cases r; simp add: settled_health_def)+

section \<open>Properties\<close>

text \<open>
  Readiness reports the worst of its dependencies and never throws. The system is unhealthy exactly
  when a check rejects or reports a dependency unhealthy, healthy exactly when every check reports healthy,
  and lists one dependency per check in order. Over the three indicators it is healthy exactly when the database
  answers, Redis answers \<open>PONG\<close> and its key space is not empty: a new system without any key is degraded.
\<close>
theorem readiness_worst:
  "(sh_status (checkReadiness t clk v outcomes) = unhealthy \<longleftrightarrow>
     (\<exists>r\<in>set outcomes. case r of Inl e \<Rightarrow> True | Inr h \<Rightarrow> dh_status h = unhealthy)) \<and>
   (sh_status (checkReadiness t clk v outcomes) = healthy \<longleftrightarrow> (\<forall>r\<in>set outcomes. \<exists>h. r = Inr h \<and> dh_status h = healthy)) \<and>
   length (sh_dependencies (checkReadiness t clk v outcomes)) = length outcomes \<and>
   (sh_status (checkReadiness t clk v (map Inr (checkAll el pg rd q))) = healthy \<longleftrightarrow>
     is_ok pg \<and> rd = Inr ''PONG'' \<and> (\<exists>info. q = Inr info \<and> info \<noteq> [] \<and> str_includes info ''db''))"
proof (intro conjI)
  show "sh_status (checkReadiness t clk v outcomes) = unhealthy \<longleftrightarrow>
     (\<exists>r\<in>set outcomes. case r of Inl e \<Rightarrow> True | Inr h \<Rightarrow> dh_status h = unhealthy)"
    by (simp add: checkReadiness_def Let_def overall_status settled_status)
  show "sh_status (checkReadiness t clk v outcomes) = healthy \<longleftrightarrow> (\<forall>r\<in>set outcomes. \<exists>h. r = Inr h \<and> dh_status h = healthy)"
    by (simp add: checkReadiness_def Let_def overall_status settled_status)
  show "length (sh_dependencies (checkReadiness t clk v outcomes)) = length outcomes"
    by (simp add: checkReadiness_def Let_def)
  show "sh_status (checkReadiness t clk v (map Inr (checkAll el pg rd q))) = healthy \<longleftrightarrow>
     is_ok pg \<and> rd = Inr ''PONG'' \<and> (\<exists>info. q = Inr info \<and> info \<noteq> [] \<and> str_includes info ''db'')"
    by (cases pg; cases rd; cases q)
      (auto simp: checkReadiness_def Let_def overall_status settled_health_def checkAll_def checkPostgres_def checkRedis_def
        checkBullMQ_def unhealthy_dependency_def)
qed

theorem readiness_worst_witness:
  "sh_status (checkReadiness 0 int None (map Inr (checkAll rat_of_nat (Inr ()) (Inr ''PONG'') (Inr [])))) \<noteq> healthy"
  using readiness_worst [of 0 int None "[]" rat_of_nat "Inr ()" "Inr ''PONG''" "Inr []"] by auto

text \<open>
  Every observation fits the registry. Whatever the arguments, each of the seven recording methods only
  touches metrics the registry declares, with the declared kind and exactly the declared labels, so none of
  them can make the client library throw; and no two metrics share a name.
\<close>

theorem observations_declared:
  "list_all (declared METRICS) (recordHttpRequest method status path t @ recordDomainEvent ev @ recordDatabaseQuery op' tab t' @
     incrementConnections @ decrementConnections @ recordCacheOperation op hit @ updateCacheHitRatio ratio) \<and>
   distinct (map mt_name METRICS)"
proof
  show "distinct (map mt_name METRICS)" by (simp add: METRICS_def)
  show "list_all (declared METRICS) (recordHttpRequest method status path t @ recordDomainEvent ev @ recordDatabaseQuery op' tab t' @
     incrementConnections @ decrementConnections @ recordCacheOperation op hit @ updateCacheHitRatio ratio)"
    by (simp add: METRICS_def recordHttpRequest_def recordDomainEvent_def recordDatabaseQuery_def incrementConnections_def
        decrementConnections_def recordCacheOperation_def updateCacheHitRatio_def Let_def)
qed

text \<open>
  C36. The request log mixes up overlapping requests. The middleware binds a request's identifiers to its one
  logger, whose context overrides the fields of an entry: the entry of a request that finishes carries the
  request identifier of the request that started last, its own only when no other started meanwhile.
\<close>
theorem request_log_last_started:
  assumes "distinct (map fst (ls_context l))" and "logs_request a" "logs_request b"
    and "\<forall>r. Started r \<in> set post \<longrightarrow> \<not> logs_request r"
  shows "\<exists>e. request_log_run (pre @ Started b # post @ [Finished a p]) l =
      request_log_run (pre @ Started b # post) l @ [e] \<and> map_of (lg_meta e) ''requestId'' = Some (header_value (lr_requestId b))"
proof -
  let ?l = "RequestLogger_use b (logger_after pre l)"
  have after: "logger_after (pre @ Started b # post) l = ?l"
    using after_unlogged [OF assms(4)] by (simp add: logger_after_append)
  have "distinct (map fst (ls_context ?l))" using use_distinct after_distinct [OF assms(1)] by blast
  from finish_requestId [OF assms(2) this use_requestId [OF assms(3)], of p]
  show ?thesis
    using request_log_run_append [of "pre @ Started b # post" "[Finished a p]" l] after by auto
qed

definition logged_as :: "string \<Rightarrow> LoggedRequest" where
  "logged_as i = \<lparr>lr_method = ''GET'', lr_originalUrl = ''/users'', lr_ip = None, lr_remoteAddress = None, lr_requestId = Some i,
     lr_correlationId = None, lr_userAgent = None\<rparr>"

definition quick_response :: FinishedResponse where
  "quick_response = \<lparr>rp_statusCode = 200, rp_timeText = ''1.00'', rp_time = JNum 1, rp_contentLength = None\<rparr>"

theorem request_log_last_started_witness:
  "\<exists>e. request_log_run [Started (logged_as ''A''), Started (logged_as ''B''), Finished (logged_as ''A'') quick_response]
      \<lparr>ls_context = [], ls_bound = []\<rparr> = [e] \<and> map_of (lg_meta e) ''requestId'' = Some (JStr ''B'')"
  using request_log_last_started [of "\<lparr>ls_context = [], ls_bound = []\<rparr>" "logged_as ''A''" "logged_as ''B''" "[]"
      "[Started (logged_as ''A'')]" quick_response]
  by (simp add: logs_request_def logged_as_def SKIP_PATHS_def header_value_def)

text \<open>
  \<open>withSpan\<close> is transparent and always ends its span: outcome and state are those of the function, the
  last call on the span is its end, and its status is an error exactly when the function threw.
\<close>

theorem withSpan_transparent:
  "case fn s of (r, s') \<Rightarrow> \<exists>cs. withSpan fn (s, calls) = (r, s', calls @ cs @ [EndSpan]) \<and>
     (\<exists>m. hd cs = SetStatus (is_ok r) m) \<and> (EndSpan \<notin> set cs) \<and> (\<forall>e. RecordException e \<in> set cs \<longleftrightarrow> r = Inl e)"
  by (auto simp: withSpan_def split: sum.split)

end
