(* ===== verification/Logging.thy ===== *)
theory Logging
  imports Redaction Configuration
begin

text \<open>
  How \<open>LoggerService\<close> (\<open>src/observability/logging/logger.service.ts\<close>) is set up: levels, transports and the line
  format, and its plain methods. The levels an environment may name are those of \<open>app.config.ts\<close>. What winston
  does with a level is a parameter with its documented law.
\<close>

section \<open>Set-up\<close>

definition LOGGER_LEVELS :: "(string \<times> nat) list" where
  "LOGGER_LEVELS = [(''error'', 0), (''warn'', 1), (''info'', 2), (''http'', 3), (''debug'', 4)]"

definition LOGGER_COLORS :: "(string \<times> string) list" where
  "LOGGER_COLORS = [(''error'', ''red''), (''warn'', ''yellow''), (''info'', ''green''), (''http'', ''magenta''), (''debug'', ''cyan'')]"

text \<open>\<open>z.enum([...])\<close> of \<open>LOG_LEVEL\<close>.\<close>

definition CONFIG_LOG_LEVELS :: "string list" where
  "CONFIG_LOG_LEVELS = [''error'', ''warn'', ''info'', ''http'', ''verbose'', ''debug'', ''silly'']"

datatype log_format = JsonFormat | ColorizedLine

record logger_config =
  lc_level :: string
  lc_levels :: "(string \<times> nat) list"
  lc_timestampFormat :: string
  lc_service :: string
  lc_transports :: "log_format list"

definition Logger_createTransports :: "string \<Rightarrow> log_format list" where
  "Logger_createTransports nodeEnv = (if nodeEnv = ''production'' then [JsonFormat] else [ColorizedLine])"

definition LoggerService_new :: "environment \<Rightarrow> logger_config" where
  "LoggerService_new env =
     \<lparr>lc_level = config_get env ''LOG_LEVEL'' ''info'', lc_levels = LOGGER_LEVELS,
      lc_timestampFormat = ''YYYY-MM-DD HH:mm:ss.SSS'', lc_service = ''enterprise-system'',
      lc_transports = Logger_createTransports (config_get env ''NODE_ENV'' ''development'')\<rparr>"

text \<open>The line of the console transport outside production; \<open>meta\<close> is what is left of the entry.\<close>

definition Logger_line :: "(log_meta \<Rightarrow> string) \<Rightarrow> string \<Rightarrow> string \<Rightarrow> string \<Rightarrow> string option \<Rightarrow> log_meta \<Rightarrow> string" where
  "Logger_line stringify timestamp level message context meta =
     (let ctx = (case context of Some c \<Rightarrow> if c = [] then [] else ''['' @ c @ '']'' | None \<Rightarrow> []);
          extra = (if 0 < length meta then '' '' @ stringify meta else [])
      in timestamp @ '' '' @ level @ '' '' @ ctx @ '' '' @ message @ extra)"

section \<open>Plain methods\<close>

definition Logger_log :: "(string \<Rightarrow> bool) \<Rightarrow> log_message \<Rightarrow> string option \<Rightarrow> LoggerService \<Rightarrow> log_entry list" where
  "Logger_log enabled message context l = Logger_write enabled ''info'' message context l"

definition Logger_warn :: "(string \<Rightarrow> bool) \<Rightarrow> log_message \<Rightarrow> string option \<Rightarrow> LoggerService \<Rightarrow> log_entry list" where
  "Logger_warn enabled message context l = Logger_write enabled ''warn'' message context l"

definition Logger_debug :: "(string \<Rightarrow> bool) \<Rightarrow> log_message \<Rightarrow> string option \<Rightarrow> LoggerService \<Rightarrow> log_entry list" where
  "Logger_debug enabled message context l = Logger_write enabled ''debug'' message context l"

definition Logger_verbose :: "(string \<Rightarrow> bool) \<Rightarrow> log_message \<Rightarrow> string option \<Rightarrow> LoggerService \<Rightarrow> log_entry list" where
  "Logger_verbose enabled message context l = Logger_write enabled ''debug'' message context l"

text \<open>
  The entries that reach a transport: \<open>emits levels configured level\<close> is winston's decision. It documents that
  an entry passes when its level's number is at most that of the configured level.
\<close>

definition transported :: "((string \<times> nat) list \<Rightarrow> string \<Rightarrow> string \<Rightarrow> bool) \<Rightarrow> logger_config \<Rightarrow> log_entry list \<Rightarrow> log_entry list" where
  "transported emits c es = filter (\<lambda>e. emits (lc_levels c) (lc_level c) (lg_level e)) es"

definition winston_law :: "((string \<times> nat) list \<Rightarrow> string \<Rightarrow> string \<Rightarrow> bool) \<Rightarrow> bool" where
  "winston_law emits \<longleftrightarrow>
     (\<forall>levels configured level. emits levels configured level \<longleftrightarrow>
        (\<exists>a b. map_of levels configured = Some a \<and> map_of levels level = Some b \<and> b \<le> a))"

section \<open>Lemmas\<close>

lemma entry_levels:
  "\<exists>e. Logger_error message trace context l = [e] \<and> lg_level e = ''error''"
  "\<exists>e. Logger_http message meta l = [e] \<and> lg_level e = ''http''"
  "Logger_debug enabled message context l = [] \<and> \<not> enabled ''debug'' \<or>
     (\<exists>e. Logger_debug enabled message context l = [e] \<and> lg_level e = ''debug'' \<and> enabled ''debug'')"
  by (simp_all add: Logger_error_def Logger_http_def Logger_debug_def Logger_write_def)

lemma level_numbers:
  "map_of LOGGER_LEVELS ''error'' = Some 0" "map_of LOGGER_LEVELS ''warn'' = Some 1" "map_of LOGGER_LEVELS ''info'' = Some 2"
  "map_of LOGGER_LEVELS ''http'' = Some 3" "map_of LOGGER_LEVELS ''debug'' = Some 4"
  "map_of LOGGER_LEVELS ''verbose'' = None" "map_of LOGGER_LEVELS ''silly'' = None"
  by (simp_all add: LOGGER_LEVELS_def)

section \<open>Properties\<close>

text \<open>
  A level the configuration accepts can silence the log. With \<open>LOG_LEVEL\<close> one of the logger's five levels
  every error is written, and so is every other entry up to that level; but \<open>verbose\<close> and \<open>silly\<close>, which the
  configuration accepts as the most talkative ones, are no levels of the logger, and nothing is written,
  errors included.
\<close>
theorem log_level_silences:
  assumes "winston_law emits" "env ''LOG_LEVEL'' = Some configured" "configured \<in> set CONFIG_LOG_LEVELS"
  shows "if configured \<in> {''verbose'', ''silly''}
    then transported emits (LoggerService_new env) es = []
    else transported emits (LoggerService_new env) (Logger_error message trace context l) = Logger_error message trace context l \<and>
      (transported emits (LoggerService_new env) (Logger_http message meta l) \<noteq> [] \<longleftrightarrow> configured \<in> {''http'', ''debug''}) \<and>
      (\<forall>enabled. transported emits (LoggerService_new env) (Logger_debug enabled message context l) \<noteq> [] \<longleftrightarrow>
         configured = ''debug'' \<and> enabled ''debug'')"
proof -
  have e: "emits (lc_levels (LoggerService_new env)) (lc_level (LoggerService_new env)) level \<longleftrightarrow>
      (\<exists>a b. map_of LOGGER_LEVELS configured = Some a \<and> map_of LOGGER_LEVELS level = Some b \<and> b \<le> a)" for level
    using assms(1,2) by (simp add: winston_law_def LoggerService_new_def config_get_def)
  have c: "configured \<in> {''error'', ''warn'', ''info'', ''http'', ''verbose'', ''debug'', ''silly''}"
    using assms(3) by (simp add: CONFIG_LOG_LEVELS_def)
  obtain e1 e2 where e1: "Logger_error message trace context l = [e1]" "lg_level e1 = ''error''"
    and e2: "Logger_http message meta l = [e2]" "lg_level e2 = ''http''"
    using entry_levels by metis
  have debug: "transported emits (LoggerService_new env) (Logger_debug enabled message context l) \<noteq> [] \<longleftrightarrow>
      enabled ''debug'' \<and> emits (lc_levels (LoggerService_new env)) (lc_level (LoggerService_new env)) ''debug''" for enabled
    using entry_levels(3) [of enabled message "context" l] by (auto simp: transported_def split: if_splits)
  have quiet: "transported emits (LoggerService_new env) es = []" if "map_of LOGGER_LEVELS configured = None"
    using that by (simp add: transported_def e)
  have loud: "transported emits (LoggerService_new env) [x] = (if b \<le> a then [x] else [])"
    if "map_of LOGGER_LEVELS configured = Some a" "map_of LOGGER_LEVELS (lg_level x) = Some b" for x a b
    using that by (simp add: transported_def e)
  have debugs: "transported emits (LoggerService_new env) (Logger_debug enabled message context l) \<noteq> [] \<longleftrightarrow> enabled ''debug'' \<and> 4 \<le> a"
    if "map_of LOGGER_LEVELS configured = Some a" for enabled a
    unfolding debug e using that by (simp add: level_numbers)
  show ?thesis
    using c by (elim insertE emptyE)
      (simp_all add: quiet loud e1 e2 debugs level_numbers)
qed

definition winston_emits :: "(string \<times> nat) list \<Rightarrow> string \<Rightarrow> string \<Rightarrow> bool" where
  "winston_emits levels configured level =
     (case (map_of levels configured, map_of levels level) of (Some a, Some b) \<Rightarrow> b \<le> a | _ \<Rightarrow> False)"

theorem log_level_silences_witness:
  "transported winston_emits (LoggerService_new [''LOG_LEVEL'' \<mapsto> ''verbose''])
     [\<lparr>lg_level = ''error'', lg_message = ''down'', lg_meta = []\<rparr>] = []"
proof -
  have "winston_law winston_emits" by (simp add: winston_law_def winston_emits_def split: option.splits)
  then show ?thesis
    using log_level_silences [of winston_emits "[''LOG_LEVEL'' \<mapsto> ''verbose'']" "''verbose''" "[\<lparr>lg_level = ''error'', lg_message = ''down'', lg_meta = []\<rparr>]"]
    by (simp add: CONFIG_LOG_LEVELS_def)
qed

end
