(* ===== verification/Bootstrap.thy ===== *)
theory Bootstrap
  imports Controllers Observability
begin

text \<open>
  \<open>src/main.ts\<close>: the settings the bootstrap reads, the calls it makes on the application in their order,
  where the controllers' routes end up, and the process it leaves running: its signal handlers over a
  clock. Nest's path composition is a parameter, with what its documentation says of URI versioning.
\<close>

section \<open>Settings and calls\<close>

text \<open>What \<open>configService.get\<close> finds under \<open>app\<close>.\<close>

record AppSettings =
  as_nodeEnv :: "string option"
  as_port :: "int option"
  as_globalPrefix :: "string option"
  as_corsOrigins :: "string option"
  as_shutdownTimeoutMs :: "int option"

definition nodeEnv :: "AppSettings \<Rightarrow> string" where "nodeEnv a = or_default (as_nodeEnv a) ''development''"
definition app_port :: "AppSettings \<Rightarrow> int" where "app_port a = or_default (as_port a) 3000"
definition globalPrefix :: "AppSettings \<Rightarrow> string" where "globalPrefix a = or_default (as_globalPrefix a) ''api/v1''"
definition shutdownTimeoutMs :: "AppSettings \<Rightarrow> int" where "shutdownTimeoutMs a = or_default (as_shutdownTimeoutMs a) 10000"

datatype cors_origin = AnyOrigin | Origins "string list"

definition cors_origins :: "AppSettings \<Rightarrow> cors_origin" where
  "cors_origins a =
     (let corsOrigins = or_default (as_corsOrigins a) ''*''
      in if corsOrigins = ''*'' then AnyOrigin else Origins (map str_trim (str_split (CHR '','') corsOrigins)))"

record helmet_options =
  ho_contentSecurityPolicy :: "bool option"
  ho_crossOriginEmbedderPolicy :: bool
  ho_crossOriginOpenerPolicy :: bool
  ho_crossOriginResourcePolicy :: string
  ho_referrerPolicy :: string

record cors_options =
  co_origin :: cors_origin
  co_methods :: "string list"
  co_allowedHeaders :: "string list"
  co_exposedHeaders :: "string list"
  co_credentials :: bool
  co_maxAge :: nat

record swagger_options =
  so_path :: string
  so_title :: string
  so_version :: string
  so_bearerName :: string
  so_apiKeyName :: string
  so_server :: string

datatype signal = SIGTERM | SIGINT

datatype bootstrap_call =
    UseHelmet helmet_options
  | EnableCors cors_options
  | UseCompression nat nat
  | UseJson string
  | UseUrlencoded bool string
  | SetGlobalPrefix string
  | EnableUriVersioning string
  | UseValidationPipe
  | UseAllExceptionsFilter
  | UseTransformInterceptor
  | SetupSwagger swagger_options
  | EnableShutdownHooks
  | OnSignal signal
  | OnUnhandledRejection
  | OnUncaughtException
  | ListenOn int

text \<open>\<open>contentSecurityPolicy: undefined\<close> is helmet's default; \<open>Some False\<close> switches it off.\<close>

definition helmet_setup :: "AppSettings \<Rightarrow> helmet_options" where
  "helmet_setup a =
     (let production = (nodeEnv a = ''production'')
      in \<lparr>ho_contentSecurityPolicy = (if production then None else Some False),
          ho_crossOriginEmbedderPolicy = production, ho_crossOriginOpenerPolicy = production,
          ho_crossOriginResourcePolicy = ''cross-origin'', ho_referrerPolicy = ''strict-origin-when-cross-origin''\<rparr>)"

definition cors_setup :: "AppSettings \<Rightarrow> cors_options" where
  "cors_setup a =
     \<lparr>co_origin = cors_origins a, co_methods = [''GET'', ''POST'', ''PUT'', ''PATCH'', ''DELETE'', ''OPTIONS''],
      co_allowedHeaders = [''Content-Type'', ''Authorization'', ''X-Request-Id'', ''X-Correlation-Id'', ''Accept-Language''],
      co_exposedHeaders = [''X-Request-Id'', ''X-RateLimit-Limit'', ''X-RateLimit-Remaining'', ''X-RateLimit-Reset'', ''Retry-After''],
      co_credentials = True, co_maxAge = 86400\<rparr>"

definition swagger_setup :: "AppSettings \<Rightarrow> bootstrap_call list" where
  "swagger_setup a =
     (if nodeEnv a \<noteq> ''production''
      then [SetupSwagger \<lparr>so_path = ''api/docs'', so_title = ''Enterprise System API'', so_version = ''1.0.0'',
              so_bearerName = ''access-token'', so_apiKeyName = ''api-key'', so_server = ''http://localhost:'' @ show_int (app_port a)\<rparr>]
      else [])"

definition bootstrap :: "AppSettings \<Rightarrow> bootstrap_call list" where
  "bootstrap a =
     [UseHelmet (helmet_setup a), EnableCors (cors_setup a), UseCompression 1024 6,
      UseJson ''10mb'', UseUrlencoded True ''10mb'', SetGlobalPrefix (globalPrefix a), EnableUriVersioning ''1'',
      UseValidationPipe, UseAllExceptionsFilter, UseTransformInterceptor] @
     swagger_setup a @
     [EnableShutdownHooks, OnSignal SIGTERM, OnSignal SIGINT, OnUnhandledRejection, OnUncaughtException, ListenOn (app_port a)]"

section \<open>Where the routes are served\<close>

text \<open>The prefix and the version of a list of calls: the last one of its kind counts.\<close>

fun routing_of :: "bootstrap_call list \<Rightarrow> string \<times> string \<Rightarrow> string \<times> string" where
  "routing_of [] pv = pv"
| "routing_of (SetGlobalPrefix p # calls) (prefix, version) = routing_of calls (p, version)"
| "routing_of (EnableUriVersioning v # calls) (prefix, version) = routing_of calls (prefix, v)"
| "routing_of (_ # calls) pv = routing_of calls pv"

definition served_path :: "(string \<Rightarrow> string \<Rightarrow> string \<Rightarrow> string \<Rightarrow> string) \<Rightarrow> AppSettings \<Rightarrow> route \<Rightarrow> string" where
  "served_path nest_path a r =
     (case routing_of (bootstrap a) ([], []) of (prefix, version) \<Rightarrow>
        nest_path prefix version (ct_path (controller_of r)) (rt_path (route_decl r)))"

text \<open>What Nest documents: prefix, \<open>v\<close> and the version, controller and handler, as segments.\<close>

definition path_segments :: "string list \<Rightarrow> string" where
  "path_segments ps = ''/'' @ str_join ''/'' (filter (\<lambda>p. p \<noteq> []) ps)"

definition uri_versioning :: "(string \<Rightarrow> string \<Rightarrow> string \<Rightarrow> string \<Rightarrow> string) \<Rightarrow> bool" where
  "uri_versioning nest_path \<longleftrightarrow>
     (\<forall>prefix version controller handler. nest_path prefix version controller handler =
        path_segments [prefix, ''v'' @ version, controller, handler])"

text \<open>The address a controller's decorators spell out, which the comments and the documentation use.\<close>

definition declared_path :: "route \<Rightarrow> string" where
  "declared_path r = path_segments [ct_path (controller_of r), rt_path (route_decl r)]"

section \<open>The running process\<close>

text \<open>
  \<open>ps_closing\<close> counts the calls of \<open>app.close()\<close> that have not settled, \<open>ps_deadlines\<close> the times at which the
  pending timers fire, \<open>ps_exit\<close> the exit code once the process has ended.
\<close>

record process_state =
  ps_now :: int
  ps_exit :: "int option"
  ps_closing :: nat
  ps_deadlines :: "int list"

definition on_SIGTERM :: "int \<Rightarrow> process_state \<Rightarrow> process_state" where
  "on_SIGTERM timeout st = st\<lparr>ps_deadlines := (ps_now st + timeout) # ps_deadlines st, ps_closing := ps_closing st + 1\<rparr>"

definition on_SIGINT :: "process_state \<Rightarrow> process_state" where
  "on_SIGINT st = st\<lparr>ps_closing := ps_closing st + 1\<rparr>"

definition on_closed :: "process_state \<Rightarrow> process_state" where
  "on_closed st = st\<lparr>ps_closing := ps_closing st - 1, ps_exit := Some 0\<rparr>"

text \<open>A rejected \<open>app.close()\<close> is an unhandled rejection, which the source only logs. What Nest's own shutdown hooks do
  besides is not modelled.\<close>

definition on_close_rejected :: "process_state \<Rightarrow> process_state" where
  "on_close_rejected st = st\<lparr>ps_closing := ps_closing st - 1\<rparr>"

definition on_timeout :: "process_state \<Rightarrow> process_state" where
  "on_timeout st = st\<lparr>ps_exit := Some 1\<rparr>"

definition on_uncaughtException :: "process_state \<Rightarrow> process_state" where
  "on_uncaughtException st = st\<lparr>ps_exit := Some 1\<rparr>"

text \<open>
  What happens to a running process, at its time; \<open>Idle\<close> is a turn of the event loop without any of the others. Each turn first runs
  the callbacks of the timers that are due, as Node does, and a process that has ended takes no part in anything.
\<close>

datatype process_event = SigTerm | SigInt | Closed | CloseRejected | Uncaught | Idle

definition run_timers :: "process_state \<Rightarrow> process_state" where
  "run_timers st =
     foldl (\<lambda>s d. if ps_exit s = None then on_timeout s else s)
       (st\<lparr>ps_deadlines := filter (\<lambda>d. ps_now st < d) (ps_deadlines st)\<rparr>)
       (filter (\<lambda>d. d \<le> ps_now st) (ps_deadlines st))"

fun process_handle :: "int \<Rightarrow> process_event \<Rightarrow> process_state \<Rightarrow> process_state" where
  "process_handle timeout SigTerm st = on_SIGTERM timeout st"
| "process_handle timeout SigInt st = on_SIGINT st"
| "process_handle timeout Closed st = (if 0 < ps_closing st then on_closed st else st)"
| "process_handle timeout CloseRejected st = (if 0 < ps_closing st then on_close_rejected st else st)"
| "process_handle timeout Uncaught st = on_uncaughtException st"
| "process_handle timeout Idle st = st"

definition process_turn :: "int \<Rightarrow> int \<times> process_event \<Rightarrow> process_state \<Rightarrow> process_state" where
  "process_turn timeout = (\<lambda>(t, e) st.
     if ps_exit st \<noteq> None then st
     else let st' = run_timers (st\<lparr>ps_now := t\<rparr>) in if ps_exit st' \<noteq> None then st' else process_handle timeout e st')"

fun process_run :: "int \<Rightarrow> (int \<times> process_event) list \<Rightarrow> process_state \<Rightarrow> process_state" where
  "process_run timeout [] st = st"
| "process_run timeout (e # es) st = process_run timeout es (process_turn timeout e st)"

lemmas process_defs = on_SIGTERM_def on_SIGINT_def on_closed_def on_close_rejected_def on_timeout_def on_uncaughtException_def

section \<open>Lemmas\<close>

lemma served_path_segments:
  assumes "uri_versioning nest_path"
  shows "served_path nest_path a r =
    path_segments [globalPrefix a, ''v1'', ct_path (controller_of r), rt_path (route_decl r)]"
  using assms by (simp add: served_path_def bootstrap_def swagger_setup_def uri_versioning_def)

lemma run_timers_due:
  "ps_exit st = None \<Longrightarrow> d \<in> set (ps_deadlines st) \<Longrightarrow> d \<le> ps_now st \<Longrightarrow> ps_exit (run_timers st) = Some 1"
proof -
  assume st: "ps_exit st = None" and d: "d \<in> set (ps_deadlines st)" "d \<le> ps_now st"
  have gone: "ps_exit s = Some 1 \<Longrightarrow> ps_exit (foldl (\<lambda>s d. if ps_exit s = None then on_timeout s else s) s ds) = Some 1" for s ds
    by (induction ds arbitrary: s) simp_all
  obtain x xs where "filter (\<lambda>d. d \<le> ps_now st) (ps_deadlines st) = x # xs"
    using d by (cases "filter (\<lambda>d. d \<le> ps_now st) (ps_deadlines st)") (auto simp: filter_empty_conv)
  then show ?thesis using st by (simp add: run_timers_def gone on_timeout_def)
qed

lemma run_timers_quiet:
  assumes "\<forall>d\<in>set (ps_deadlines st). ps_now st < d"
  shows "run_timers st = st"
proof -
  have "filter (\<lambda>d. ps_now st < d) (ps_deadlines st) = ps_deadlines st" using assms by (simp add: filter_id_conv)
  moreover have "filter (\<lambda>d. d \<le> ps_now st) (ps_deadlines st) = []" using assms by (auto simp: filter_empty_conv)
  ultimately show ?thesis by (simp add: run_timers_def)
qed

lemma run_timers_keeps:
  "ps_exit (run_timers st) = None \<Longrightarrow> d \<in> set (ps_deadlines st) \<Longrightarrow> d \<in> set (ps_deadlines (run_timers st)) \<and> ps_now (run_timers st) = ps_now st \<and> ps_now st < d"
proof -
  assume none: "ps_exit (run_timers st) = None" and d: "d \<in> set (ps_deadlines st)"
  have stays: "ps_exit s \<noteq> None \<Longrightarrow> foldl (\<lambda>s d. if ps_exit s = None then on_timeout s else s) s ds = s" for s ds
    by (induction ds) auto
  have "ps_exit (run_timers st) = ps_exit st" if "ps_exit st \<noteq> None" using that unfolding run_timers_def by (subst stays) simp_all
  then have "ps_exit st = None" using none by metis
  then have "\<forall>d\<in>set (ps_deadlines st). ps_now st < d" using none run_timers_due [of st] by fastforce
  then show ?thesis using run_timers_quiet [of st] d by auto
qed

lemma process_handle_keeps:
  "d \<in> set (ps_deadlines st) \<Longrightarrow> d \<in> set (ps_deadlines (process_handle timeout e st))"
  "ps_now (process_handle timeout e st) = ps_now st"
  by (cases e; simp add: process_defs)+

text \<open>A pending timer stays until it ends the process.\<close>

lemma turn_deadline:
  assumes "ps_exit st \<noteq> None \<or> d \<in> set (ps_deadlines st)"
  shows "ps_exit (process_turn timeout (t, e) st) \<noteq> None \<or> d \<in> set (ps_deadlines (process_turn timeout (t, e) st)) \<and> t < d"
proof (cases "ps_exit st \<noteq> None \<or> ps_exit (run_timers (st\<lparr>ps_now := t\<rparr>)) \<noteq> None")
  case True
  then show ?thesis by (auto simp: process_turn_def Let_def)
next
  case False
  then have "d \<in> set (ps_deadlines (st\<lparr>ps_now := t\<rparr>))" using assms by simp
  then have "d \<in> set (ps_deadlines (run_timers (st\<lparr>ps_now := t\<rparr>)))" "t < d" using run_timers_keeps [of "st\<lparr>ps_now := t\<rparr>" d] False by simp_all
  then show ?thesis using False process_handle_keeps(1) by (auto simp: process_turn_def Let_def)
qed

lemma run_gone: "ps_exit st \<noteq> None \<Longrightarrow> process_run timeout es st = st"
  by (induction es) (auto simp: process_turn_def)

lemma run_deadline:
  "d \<in> set (ps_deadlines st) \<Longrightarrow> \<exists>t\<in>fst ` set es. d \<le> t \<Longrightarrow> ps_exit (process_run timeout es st) \<noteq> None"
proof (induction es arbitrary: st)
  case (Cons e es)
  obtain t ev where e: "e = (t, ev)" by (cases e)
  show ?case
  proof (cases "ps_exit (process_turn timeout e st) = None")
    case False
    then show ?thesis using run_gone by simp
  next
    case True
    then have "d \<in> set (ps_deadlines (process_turn timeout e st))" "t < d" using turn_deadline [of st d timeout t ev] Cons.prems(1) by (auto simp: e)
    then show ?thesis using Cons.IH Cons.prems(2) by (auto simp: e)
  qed
qed simp

lemma turn_exit:
  assumes "ps_exit st \<in> {None, Some 1}" "snd e \<noteq> Closed"
  shows "ps_exit (process_turn timeout e st) \<in> {None, Some 1}"
proof -
  have fold: "ps_exit s \<in> {None, Some 1} \<Longrightarrow> ps_exit (foldl (\<lambda>s d. if ps_exit s = None then on_timeout s else s) s ds) \<in> {None, Some 1}"
    for s :: process_state and ds :: "int list"
    by (induction ds arbitrary: s) (simp_all add: on_timeout_def)
  have "ps_exit (run_timers (st\<lparr>ps_now := fst e\<rparr>)) \<in> {None, Some 1}" unfolding run_timers_def using assms(1) by (intro fold) simp
  then show ?thesis using assms by (cases "snd e") (auto simp: process_turn_def Let_def process_defs split: prod.split)
qed

lemma run_exit: "ps_exit st \<in> {None, Some 1} \<Longrightarrow> Closed \<notin> snd ` set es \<Longrightarrow> ps_exit (process_run timeout es st) \<in> {None, Some 1}"
proof (induction es arbitrary: st)
  case (Cons e es)
  then have "ps_exit (process_turn timeout e st) \<in> {None, Some 1}" by (intro turn_exit) auto
  then show ?case using Cons by simp
qed simp

text \<open>As long as no timer is due, nothing but a settled close or an exception ends the process.\<close>

lemma run_waits:
  "ps_exit st = None \<Longrightarrow> \<forall>d\<in>set (ps_deadlines st). limit \<le> d \<Longrightarrow> \<forall>t\<in>fst ` set es. limit - timeout \<le> t \<and> t < limit \<Longrightarrow>
     snd ` set es \<subseteq> {SigTerm, SigInt, CloseRejected, Idle} \<Longrightarrow> ps_exit (process_run timeout es st) = None"
proof (induction es arbitrary: st)
  case (Cons e es)
  obtain t ev where e: "e = (t, ev)" by (cases e)
  have quiet: "run_timers (st\<lparr>ps_now := t\<rparr>) = st\<lparr>ps_now := t\<rparr>" using Cons.prems(2,3) by (intro run_timers_quiet) (auto simp: e)
  have ev: "ev \<in> {SigTerm, SigInt, CloseRejected, Idle}" "limit - timeout \<le> t" using Cons.prems(3,4) by (auto simp: e)
  have "ps_exit (process_turn timeout e st) = None \<and> (\<forall>d\<in>set (ps_deadlines (process_turn timeout e st)). limit \<le> d)"
    using ev Cons.prems(1,2) quiet by (cases ev) (auto simp: e process_turn_def process_defs Let_def)
  then show ?case using Cons.IH [of "process_turn timeout e st"] Cons.prems(3,4) by simp
qed simp

lemma run_without_timers:
  "ps_exit st = None \<Longrightarrow> ps_deadlines st = [] \<Longrightarrow> snd ` set es \<subseteq> {SigInt, CloseRejected, Idle} \<Longrightarrow> ps_exit (process_run timeout es st) = None"
proof (induction es arbitrary: st)
  case (Cons e es)
  obtain t ev where e: "e = (t, ev)" by (cases e)
  have quiet: "run_timers (st\<lparr>ps_now := t\<rparr>) = st\<lparr>ps_now := t\<rparr>" using Cons.prems(2) by (intro run_timers_quiet) simp
  have "ev \<in> {SigInt, CloseRejected, Idle}" using Cons.prems(3) by (auto simp: e)
  then have "ps_exit (process_turn timeout e st) = None \<and> ps_deadlines (process_turn timeout e st) = []"
    using Cons.prems(1,2) quiet by (cases ev) (auto simp: e process_turn_def process_defs Let_def)
  then show ?case using Cons.IH [of "process_turn timeout e st"] Cons.prems(3) by simp
qed simp

section \<open>Properties\<close>

text \<open>
  C39. No route is served at its declared address. With the default prefix, the prefix, the version and
  the controllers' own paths add up: \<open>POST api/v1/users\<close> is served at \<open>/api/v1/v1/api/v1/users\<close>, the health checks
  below \<open>/api/v1/v1/health\<close>. None of these addresses is on the request logger's list of paths to skip, so the
  middleware binds the identifiers of every request to them, health checks and metrics included, and hands one entry of
  level \<open>http\<close> to winston when it finishes (which winston writes only if its level admits \<open>http\<close>; the default \<open>info\<close> does not).
\<close>
theorem served_paths:
  assumes "uri_versioning nest_path" "globalPrefix a = ''api/v1''"
  shows "served_path nest_path a r = ''/api/v1/v1'' @ declared_path r \<and> served_path nest_path a r \<noteq> declared_path r \<and>
    (lr_originalUrl q = served_path nest_path a r \<longrightarrow>
       RequestLogger_use q logger =
         Logger_setContext [(''requestId'', header_value (lr_requestId q)), (''correlationId'', header_value (lr_correlationId q))] logger \<and>
       (\<exists>e. RequestLogger_finish q p logger = [e] \<and> lg_level e = ''http''))"
proof -
  have served: "served_path nest_path a r = ''/api/v1/v1'' @ declared_path r"
    unfolding served_path_segments [OF assms(1)] assms(2) declared_path_def path_segments_def
    by (cases r) (simp_all add: route_defs)
  moreover have "''/api/v1/v1'' @ t \<notin> set SKIP_PATHS" for t by (simp add: SKIP_PATHS_def)
  ultimately show ?thesis by (simp add: RequestLogger_use_def RequestLogger_finish_def Logger_http_def)
qed

definition documented_paths :: "string \<Rightarrow> string \<Rightarrow> string \<Rightarrow> string \<Rightarrow> string" where
  "documented_paths prefix version controller handler = path_segments [prefix, ''v'' @ version, controller, handler]"

definition no_settings :: AppSettings where
  "no_settings = \<lparr>as_nodeEnv = None, as_port = None, as_globalPrefix = None, as_corsOrigins = None, as_shutdownTimeoutMs = None\<rparr>"

theorem served_paths_witness:
  "served_path documented_paths no_settings CreateUser = ''/api/v1/v1/api/v1/users''"
proof -
  have "uri_versioning documented_paths" by (simp add: uri_versioning_def documented_paths_def)
  moreover have "globalPrefix no_settings = ''api/v1''" by (simp add: globalPrefix_def no_settings_def or_default_def)
  moreover have "declared_path CreateUser = ''/api/v1/users''" by (simp add: declared_path_def path_segments_def route_defs)
  ultimately show ?thesis using conjunct1 [OF served_paths [of documented_paths no_settings CreateUser]] by simp
qed

text \<open>
  The metrics cannot be scraped. The route is not public, so a scraper without a token is refused with
  401 and nothing changes; and what the handler returns leaves the interceptors not as the text Prometheus
  reads but as the \<open>data\<close> of a JSON envelope.
\<close>

theorem metrics_not_scrapable:
  assumes "verify None = Inl ''No auth token''"
  shows "(\<exists>e rs. route_guards d verify cfg clk Metrics None request (s, store, own) = ((Inl e, []), s, store, own) \<and>
      AllExceptions_catch env r (Thrown e) = Inr rs \<and> rs_status rs = 401) \<and>
    (\<exists>rest. PresentationTransform_intercept c (CommonTransform_intercept c' (JStr text)) = JObj ((''data'', JStr text) # rest))"
proof
  show "\<exists>e rs. route_guards d verify cfg clk Metrics None request (s, store, own) = ((Inl e, []), s, store, own) \<and>
      AllExceptions_catch env r (Thrown e) = Inr rs \<and> rs_status rs = 401"
    using assms
    by (simp add: route_guards_def route_defs SecurityModule_guards_def JwtAuthGuard_canActivate_def override_def
        JwtAuthGuard_handleRequest_def unauthorized_def http_passes AllExceptions_http_def)
  show "\<exists>rest. PresentationTransform_intercept c (CommonTransform_intercept c' (JStr text)) = JObj ((''data'', JStr text) # rest)"
    by (simp add: PresentationTransform_intercept_def CommonTransform_intercept_def CommonTransform_isAlreadyWrapped_def)
qed

theorem metrics_not_scrapable_witness:
  "\<exists>e rs. route_guards mem_session_db (\<lambda>a. Inl ''No auth token'') \<lparr>tc_defaultLimit = 2, tc_defaultWindow = 60\<rparr> int Metrics None
      plain_request (sample_auth_state, Map.empty, Map.empty) = ((Inl e, []), sample_auth_state, Map.empty, Map.empty) \<and>
    AllExceptions_catch production_env sample_filter_request (Thrown e) = Inr rs \<and> rs_status rs = 401"
  using conjunct1 [OF metrics_not_scrapable [of "\<lambda>a. Inl ''No auth token''" mem_session_db "\<lparr>tc_defaultLimit = 2, tc_defaultWindow = 60\<rparr>" int
      plain_request sample_auth_state Map.empty Map.empty production_env sample_filter_request]] by blast



end
