(* ===== verification/Api.thy ===== *)
theory Api
  imports Controllers
begin

text \<open>
  One request to one of the twelve routes the controllers declare, from the guards to the answer. \<open>SecurityModule\<close> and \<open>PresentationModule\<close> register guards, pipes, interceptors and
  filters for every route, \<open>main.ts\<close> adds a pipe, an interceptor and the filter that answers (theories \<open>Guards\<close>, \<open>Dtos\<close>,
  \<open>Pagination\<close>, \<open>Filters\<close>); here they are composed in NestJS's order: the guards, then, inside the interceptors,
  the pipes on the handler's arguments and the handler; anything thrown goes to the filter. The state is that of
  the database and the stores of the two throttlers. A request comes here with its body and query parsed: what is answered
  before a route is found is outside the model, which is the pages of Swagger under \<open>/api/docs\<close>, CORS preflights, addresses that
  match no route, and bodies the parsers refuse (more than 10 MB, or no JSON).
\<close>

section \<open>A request and what serves it\<close>

text \<open>
  \<open>aq_input\<close> is the body or the query, \<open>aq_id\<close> the path parameter; the fields after \<open>aq_info\<close> are what the process
  draws while it serves the request: clock readings, two UUIDs, the uptime, heap sizes and text of the metrics, the
  contexts of the interceptors and of the filter, and how long pipes and handler take.
\<close>

record ApiRequest =
  aq_route :: route
  aq_authorization :: "string option"
  aq_client :: ThrottleRequest
  aq_id :: string
  aq_input :: row
  aq_info :: RequestInfo
  aq_clock :: "nat \<Rightarrow> int"
  aq_jti :: string
  aq_token :: string
  aq_uptime :: json
  aq_heap :: "nat \<times> nat"
  aq_metrics :: string
  aq_envelopes :: "EnvelopeContext \<times> EnvelopeContext"
  aq_filterEnv :: FilterEnv
  aq_filterRequest :: FilterRequest
  aq_milliseconds :: nat

text \<open>
  The configured services and the libraries: passport, class-validator, the exception of NestJS's \<open>ValidationPipe\<close>, its
  \<open>ParseUUIDPipe\<close>, and which of two arguments that both fail is reported (they are resolved concurrently).
\<close>

record 's ApiServices =
  as_sessions :: "'s session_db"
  as_verify :: "string option \<Rightarrow> string + TokenPayload"
  as_throttle :: ThrottleConfig
  as_auth :: auth_env
  as_validator :: class_validator
  as_pipeException :: "ValidationError list \<Rightarrow> thrown"
  as_parseUuid :: "string \<Rightarrow> thrown + string"
  as_race :: "thrown \<Rightarrow> thrown \<Rightarrow> thrown"

record ApiAnswer =
  an_status :: nat
  an_headers :: headers
  an_body :: json

section \<open>Arguments of a handler\<close>

text \<open>The DTO class of the \<open>Body\<close> or \<open>Query\<close> parameter, if there is one.\<close>

fun route_schema :: "route \<Rightarrow> dto_schema option" where
  "route_schema Login = Some AuthController_dtos"
| "route_schema Register = Some AuthController_dtos"
| "route_schema Refresh = Some AuthController_dtos"
| "route_schema Logout = Some AuthController_dtos"
| "route_schema CreateUser = Some UserController_CreateUserDto"
| "route_schema ListUsers = Some UserController_ListUsersQueryDto"
| "route_schema UpdateUser = Some UserController_UpdateUserDto"
| "route_schema _ = None"

definition takes_id :: "route \<Rightarrow> bool" where
  "takes_id r \<longleftrightarrow> rt_path (route_decl r) = '':id''"

definition api_arguments :: "'s ApiServices \<Rightarrow> ApiRequest \<Rightarrow> thrown + row \<times> string" where
  "api_arguments sv q =
     (case (case route_schema (aq_route q) of
              None \<Rightarrow> Inr []
            | Some schema \<Rightarrow> global_pipes (as_validator sv) (as_pipeException sv) schema (aq_input q),
            if takes_id (aq_route q) then as_parseUuid sv (aq_id q) else Inr []) of
        (Inl a, Inl b) \<Rightarrow> Inl (as_race sv a b)
      | (Inl a, Inr _) \<Rightarrow> Inl a
      | (Inr _, Inl b) \<Rightarrow> Inl b
      | (Inr input, Inr i) \<Rightarrow> Inr (input, i))"

text \<open>Fields of a validated DTO, of their declared types; \<open>null\<close> and a missing field are \<open>None\<close>.\<close>

definition dto_text :: "string \<Rightarrow> row \<Rightarrow> string" where
  "dto_text k input = (case json_get k input of JStr s \<Rightarrow> s | _ \<Rightarrow> [])"

definition dto_text_option :: "string \<Rightarrow> row \<Rightarrow> string option" where
  "dto_text_option k input = (case json_get k input of JStr s \<Rightarrow> Some s | _ \<Rightarrow> None)"

definition dto_number_option :: "string \<Rightarrow> row \<Rightarrow> int option" where
  "dto_number_option k input = (case json_get k input of JNum n \<Rightarrow> Some n | _ \<Rightarrow> None)"

section \<open>Handlers\<close>

definition token_json :: "TokenResponseDto \<Rightarrow> json" where
  "token_json t = JObj [(''accessToken'', JStr (tp_accessToken t)), (''refreshToken'', JStr (tp_refreshToken t)),
     (''expiresIn'', JNum (tp_expiresIn t)), (''tokenType'', JStr (tr_tokenType t))]"

text \<open>\<open>logout\<close> is not public, so the guards attached a user (lemma \<open>guards_user\<close>).\<close>

fun api_handler ::
  "'s ApiServices \<Rightarrow> ApiRequest \<Rightarrow> AuthenticatedUser option \<Rightarrow> row \<Rightarrow> string \<Rightarrow> route \<Rightarrow> ('s, exn, json) proc" where
  "api_handler sv q user input i Login =
     bindP (AuthController_login (as_auth sv) (as_sessions sv) (aq_jti q) (aq_token q) (aq_clock q 4)
         \<lparr>ld_email = dto_text ''email'' input, ld_password = dto_text ''password'' input\<rparr> (aq_info q))
       (\<lambda>t. returnP (token_json t))"
| "api_handler sv q user input i Register =
     bindP (AuthController_register (as_auth sv) (as_sessions sv) (aq_jti q) (aq_token q) (aq_clock q 4)
         \<lparr>rd_email = dto_text ''email'' input, rd_password = dto_text ''password'' input,
          rd_firstName = dto_text ''firstName'' input, rd_lastName = dto_text ''lastName'' input\<rparr> (aq_info q))
       (\<lambda>t. returnP (token_json t))"
| "api_handler sv q user input i Refresh =
     bindP (AuthController_refresh (as_auth sv) (as_sessions sv) (aq_jti q) (aq_token q) (\<lambda>k. aq_clock q (k + 4))
         (dto_text ''refreshToken'' input) (aq_info q))
       (\<lambda>t. returnP (token_json t))"
| "api_handler sv q user input i Logout =
     (case user of
        Some u \<Rightarrow> bindP (AuthController_logout (as_auth sv) (as_sessions sv) (aq_clock q 4)
          (dto_text_option ''refreshToken'' input) u) (\<lambda>_. returnP JUndef)
      | None \<Rightarrow> returnP JUndef)"
| "api_handler sv q user input i CreateUser = returnP (UserController_createUser (\<lambda>k. aq_clock q (k + 4))
     \<lparr>cb_email = dto_text ''email'' input, cb_password = dto_text ''password'' input,
      cb_firstName = dto_text ''firstName'' input, cb_lastName = dto_text ''lastName'' input\<rparr>)"
| "api_handler sv q user input i ListUsers = returnP (UserController_listUsers
     (dto_number_option ''page'' input) (dto_number_option ''limit'' input))"
| "api_handler sv q user input i GetUser = returnP (UserController_getUser (\<lambda>k. aq_clock q (k + 4)) i)"
| "api_handler sv q user input i UpdateUser = returnP (UserController_updateUser (\<lambda>k. aq_clock q (k + 4)) i
     \<lparr>ub_firstName = dto_text_option ''firstName'' input, ub_lastName = dto_text_option ''lastName'' input,
      ub_status = dto_text_option ''status'' input\<rparr>)"
| "api_handler sv q user input i DeleteUser = returnP (UserController_deleteUser i)"
| "api_handler sv q user input i Liveness = returnP (HealthController_liveness (aq_clock q 4) (aq_uptime q))"
| "api_handler sv q user input i Readiness = returnP (HealthController_readiness (aq_clock q 4) (aq_uptime q) (fst (aq_heap q)) (snd (aq_heap q)))"
| "api_handler sv q user input i Metrics = returnP (JStr (aq_metrics q))"

section \<open>From the request to the answer\<close>

text \<open>NestJS answers a POST with 201 and anything else with 200 unless \<open>HttpCode\<close> says otherwise.\<close>

definition success_status :: "route \<Rightarrow> nat" where
  "success_status r = (case rt_httpCode (route_decl r) of Some code \<Rightarrow> code
     | None \<Rightarrow> if rt_verb (route_decl r) = ''POST'' then 201 else 200)"

text \<open>The timeout is around the presentation layer's envelope, that one around the envelope of the bootstrap. A late
  answer is replaced, what the handler wrote stays.\<close>

definition api_respond ::
  "'s ApiServices \<Rightarrow> ApiRequest \<Rightarrow> AuthenticatedUser option \<Rightarrow> 's \<Rightarrow> (thrown + json) \<times> 's" where
  "api_respond sv q user s =
     (case (case api_arguments sv q of
              Inl t \<Rightarrow> (Inl t, s)
            | Inr (input, i) \<Rightarrow>
                (case api_handler sv q user input i (aq_route q) s of
                   (Inl e, s') \<Rightarrow> (Inl (Thrown e), s')
                 | (Inr v, s') \<Rightarrow>
                     (Inr (PresentationTransform_intercept (fst (aq_envelopes q))
                        (CommonTransform_intercept (snd (aq_envelopes q)) v)), s'))) of
        (out, s') \<Rightarrow> (Timeout_intercept None (Some (aq_milliseconds q, out)), s'))"

definition api_caught :: "ApiRequest \<Rightarrow> headers \<Rightarrow> thrown \<Rightarrow> exn + ApiAnswer" where
  "api_caught q h t = bindE (AllExceptions_catch (aq_filterEnv q) (aq_filterRequest q) t)
     (\<lambda>rs. Inr \<lparr>an_status = rs_status rs, an_headers = h @ rs_headers rs, an_body = JObj (rs_body rs)\<rparr>)"

definition api_serve ::
  "'s ApiServices \<Rightarrow> ApiRequest \<Rightarrow> 's \<times> rate_store \<times> rate_store \<Rightarrow> (exn + ApiAnswer) \<times> 's \<times> rate_store \<times> rate_store" where
  "api_serve sv q st =
     (case route_guards (as_sessions sv) (as_verify sv) (as_throttle sv) (aq_clock q) (aq_route q) (aq_authorization q) (aq_client q) st of
        ((Inl e, h), st') \<Rightarrow> (api_caught q h (Thrown e), st')
      | ((Inr user, h), s, stores) \<Rightarrow>
          (case api_respond sv q user s of
             (Inl t, s') \<Rightarrow> (api_caught q h t, s', stores)
           | (Inr v, s') \<Rightarrow> (Inr \<lparr>an_status = success_status (aq_route q), an_headers = h, an_body = v\<rparr>, s', stores)))"

fun api_run ::
  "'s ApiServices \<Rightarrow> ApiRequest list \<Rightarrow> 's \<times> rate_store \<times> rate_store \<Rightarrow> (exn + ApiAnswer) list \<times> 's \<times> rate_store \<times> rate_store" where
  "api_run sv [] st = ([], st)"
| "api_run sv (q # qs) st =
     (case api_serve sv q st of (a, st') \<Rightarrow> (case api_run sv qs st' of (as, st'') \<Rightarrow> (a # as, st'')))"

section \<open>What the libraries promise\<close>

text \<open>
  The tables and class-validator as in \<open>SessionAuth\<close> and \<open>Dtos\<close>; NestJS's \<open>ValidationPipe\<close> and \<open>ParseUUIDPipe\<close> throw a
  \<open>BadRequestException\<close>; of two failures one is reported.
\<close>

definition bad_request :: "thrown \<Rightarrow> bool" where
  "bad_request t \<longleftrightarrow> (case t of HttpException st b m \<Rightarrow> st = 400 | _ \<Rightarrow> False)"

locale api_services = prisma_sessions "as_sessions sv" sess accounts
  for sv :: "'s ApiServices" and sess :: "'s \<Rightarrow> SessionSnapshot list" and accounts :: "'s \<Rightarrow> string \<rightharpoonup> AuthUserRow" +
  assumes validator: "validator_laws (as_validator sv)"
    and pipe_exception: "bad_request (as_pipeException sv es)"
    and uuid_exception: "as_parseUuid sv i = Inl t \<Longrightarrow> bad_request t"
    and race_reports: "as_race sv a b \<in> {a, b}"

definition sample_services :: "mem_auth ApiServices" where
  "sample_services = \<lparr>as_sessions = mem_session_db, as_verify = (\<lambda>a. case a of
       Some t \<Rightarrow> Inr \<lparr>tk_sub = t, tk_email = ''a@b.c'', tk_roles = [], tk_jti = ''j''\<rparr> | None \<Rightarrow> Inl ''No auth token''),
     as_throttle = \<lparr>tc_defaultLimit = 100, tc_defaultWindow = 60\<rparr>, as_auth = sample_env, as_validator = sample_validator,
     as_pipeException = (\<lambda>es. HttpException 400 (JObj []) ''Bad Request Exception''),
     as_parseUuid = (\<lambda>i. if length i = 36 then Inr i else Inl (HttpException 400 (JObj []) ''Bad Request Exception'')),
     as_race = (\<lambda>a b. a)\<rparr>"

interpretation apimem: api_services sample_services "\<lambda>(n, xs, us). xs" "\<lambda>(n, xs, us). us"
proof -
  have d: "as_sessions sample_services = mem_session_db" by (simp add: sample_services_def)
  show "api_services sample_services (\<lambda>(n, xs, us). xs) (\<lambda>(n, xs, us). us)"
    unfolding api_services_def api_services_axioms_def d
    using memauth.prisma_sessions_axioms
    by (auto simp: sample_services_def bad_request_def sample_validator_laws split: if_splits)
qed

section \<open>Guards\<close>

lemma jwt_refusal: "JwtAuthGuard_handleRequest err user info = Inl e \<Longrightarrow> \<exists>b. e = HttpExc 401 b"
  by (auto simp: JwtAuthGuard_handleRequest_def unauthorized_def split: if_splits option.splits)

lemma jwt_guard_refusal: "JwtAuthGuard_canActivate d verify hm cm auth s = (Inl e, s') \<Longrightarrow> \<exists>b. e = HttpExc 401 b"
  by (auto simp: JwtAuthGuard_canActivate_def bindP_def catchP_def bindE_eq_Inl dest: jwt_refusal split: if_splits sum.splits prod.splits)

lemma jwt_absent_user:
  "JwtAuthGuard_canActivate d verify hm cm auth s = (Inr None, s') \<Longrightarrow> override (md_isPublic hm) (md_isPublic cm) = Some True"
  by (auto simp: JwtAuthGuard_canActivate_def bindP_def catchP_def bindE_eq_Inr split: if_splits sum.splits prod.splits)

lemma role_refusal:
  "bindE (RolesGuard_canActivate hm cm user) (\<lambda>_. PermissionsGuard_canActivate hm cm user) = Inl e \<Longrightarrow>
     (\<exists>b. e = HttpExc 403 b) \<and> (override (md_roles hm) (md_roles cm) \<noteq> None \<or> override (md_permissions hm) (md_permissions cm) \<noteq> None)"
  by (auto simp: RolesGuard_canActivate_def PermissionsGuard_canActivate_def forbidden_def Let_def bindE_eq_Inl
      split: if_splits option.splits)

lemma throttle_refusal: "Throttler_canActivate cfg now now' q store = (Inl e, x) \<Longrightarrow> \<exists>b. e = HttpExc 429 b"
  by (auto simp: Throttler_canActivate_def rate_limited_def Let_def split: if_splits option.splits)

definition guard_refusals :: "route \<Rightarrow> nat set" where
  "guard_refusals r = {429} \<union> (if r \<in> {Login, Register, Liveness, Readiness} then {} else {401}) \<union>
     (if r \<in> {CreateUser, ListUsers, GetUser, UpdateUser, DeleteUser} then {403} else {})"

context api_services
begin

lemma jwt_keeps_state: "snd (JwtAuthGuard_canActivate (as_sessions sv) verify hm cm auth s) = s"
  using validate_cases
  by (auto simp: JwtAuthGuard_canActivate_def bindP_def catchP_def split: sum.split option.split)

lemma global_guards_cases:
  obtains (refused) st b h x where
      "SecurityModule_guards (as_sessions sv) verify cfg now now' (handler_metadata r) (class_metadata r) auth q (s, store) =
         ((Inl (HttpExc st b), h), s, x)" "st \<in> guard_refusals r"
    | (passed) user h x where
      "SecurityModule_guards (as_sessions sv) verify cfg now now' (handler_metadata r) (class_metadata r) auth q (s, store) = ((Inr user, h), s, x)"
      "user = None \<Longrightarrow> override (md_isPublic (handler_metadata r)) (md_isPublic (class_metadata r)) = Some True"
proof -
  let ?h = "handler_metadata r" and ?c = "class_metadata r"
  obtain jr where jwt: "JwtAuthGuard_canActivate (as_sessions sv) verify ?h ?c auth s = (jr, s)"
    using jwt_keeps_state by (metis prod.collapse)
  show ?thesis
  proof (cases jr)
    case (Inl e)
    then obtain b where b: "e = HttpExc 401 b" using jwt_guard_refusal [OF jwt [unfolded Inl]] by blast
    have "override (md_isPublic ?h) (md_isPublic ?c) \<noteq> Some True" using jwt Inl by (auto simp: JwtAuthGuard_canActivate_def)
    then have "401 \<in> guard_refusals r" by (cases r) (simp_all add: guard_refusals_def override_def route_defs)
    then show ?thesis using refused [of 401 b "[]" store] jwt Inl b by (simp add: SecurityModule_guards_def)
  next
    case user: (Inr user)
    show ?thesis
    proof (cases "bindE (RolesGuard_canActivate ?h ?c user) (\<lambda>_. PermissionsGuard_canActivate ?h ?c user)")
      case (Inl e)
      then obtain b where b: "e = HttpExc 403 b" and
        asked: "override (md_roles ?h) (md_roles ?c) \<noteq> None \<or> override (md_permissions ?h) (md_permissions ?c) \<noteq> None"
        using role_refusal by blast
      have "403 \<in> guard_refusals r" using asked by (cases r) (simp_all add: guard_refusals_def override_def route_defs)
      then show ?thesis using refused [of 403 b "[]" store] jwt user Inl b by (simp add: SecurityModule_guards_def)
    next
      case (Inr ok)
      obtain tr h store' where t: "Throttler_canActivate cfg now now' (q\<lparr>rq_userId := map_option us_id user\<rparr>) store = (tr, h, store')"
        by (metis prod_cases3)
      have run: "SecurityModule_guards (as_sessions sv) verify cfg now now' ?h ?c auth q (s, store) = ((bindE tr (\<lambda>_. Inr user), h), s, store')"
        using jwt user Inr t by (simp add: SecurityModule_guards_def)
      show ?thesis
      proof (cases tr)
        case (Inl e)
        then obtain b where "e = HttpExc 429 b" using throttle_refusal [OF t [unfolded Inl]] by blast
        then show ?thesis using refused [of 429 b h store'] run Inl by (simp add: guard_refusals_def)
      next
        case (Inr _)
        moreover have "user = None \<Longrightarrow> override (md_isPublic ?h) (md_isPublic ?c) = Some True" 
          using jwt_absent_user [of "as_sessions sv" verify ?h ?c auth s s] jwt user by simp
        ultimately show ?thesis using passed [of user h store'] run by simp
      qed
    qed
  qed
qed

text \<open>Every run of the guards leaves the database alone; it refuses with one of few statuses, or passes, on a route
  that is not public with a user.\<close>

lemma guards_cases:
  obtains (refused) st b h x y where
      "route_guards (as_sessions sv) verify cfg clk r auth q (s, store, own) = ((Inl (HttpExc st b), h), s, x, y)" "st \<in> guard_refusals r"
    | (passed) user h x y where
      "route_guards (as_sessions sv) verify cfg clk r auth q (s, store, own) = ((Inr user, h), s, x, y)"
      "user = None \<Longrightarrow> override (md_isPublic (handler_metadata r)) (md_isPublic (class_metadata r)) = Some True"
proof (cases rule: global_guards_cases [where s = s and r = r and store = store and verify = verify and cfg = cfg and auth = auth
      and now = "clk 0" and now' = "clk 1" and q = "q\<lparr>rq_custom := rt_limit (route_decl r)\<rparr>", case_names refused passed])
  case (refused st b h x)
  then show ?thesis using that(1) [of st b h x own] by (simp add: route_guards_def Let_def)
next
  case run: (passed user h x)
  obtain tr h' own' where t: "Throttler_canActivate cfg (clk 2) (clk 3)
      (q\<lparr>rq_custom := rt_limit (route_decl r), rq_userId := map_option us_id user\<rparr>) own = (tr, h', own')"
    by (metis prod_cases3)
  consider (once) "\<not> ct_throttled (controller_of r)" | (limited) e where "ct_throttled (controller_of r)" "tr = Inl e"
    | (twice) "ct_throttled (controller_of r)" "tr = Inr ()" by (cases tr) auto
  then show ?thesis
  proof cases
    case once
    then show ?thesis using that(2) [of user h x own] run by (simp add: route_guards_def Let_def)
  next
    case limited
    then obtain b where "e = HttpExc 429 b" using throttle_refusal t by blast
    then show ?thesis using that(1) [of 429 b h' x own'] limited run t by (simp add: route_guards_def Let_def guard_refusals_def)
  next
    case twice
    then show ?thesis using that(2) [of user h' x own'] run t by (simp add: route_guards_def Let_def)
  qed
qed

end

section \<open>Pipes, handlers and the filter\<close>

definition auth_routes :: "route set" where
  "auth_routes = {Login, Register, Refresh, Logout}"

lemma pipes_failure: "global_pipes cv nest_exception schema body = Inl t \<Longrightarrow> \<exists>es. t = createValidationPipe_exception es \<or> t = nest_exception es"
  by (auto simp: global_pipes_def run_pipe_def presentation_pipe_def bootstrap_pipe_def Let_def bindE_eq_Inl split: if_splits)

lemma auth_pipes_fail:
  assumes "validator_laws cv"
  shows "\<exists>t. global_pipes cv nest_exception AuthController_dtos body = Inl t"
proof -
  have "\<exists>t. run_pipe cv [] (bootstrap_pipe nest_exception) b = Inl t" for b
    using validate_iff [OF assms, of True "[]"] by (simp add: run_pipe_def bootstrap_pipe_def Let_def)
  then show ?thesis
    by (cases "run_pipe cv [] presentation_pipe body") (simp_all add: global_pipes_def AuthController_dtos_def)
qed

lemma handler_pure: "r \<notin> auth_routes \<Longrightarrow> \<exists>v. api_handler sv q user input i r s = (Inr v, s)"
  by (cases r) (simp_all add: auth_routes_def)

lemma caught_status:
  "\<exists>an. api_caught q h (Thrown (HttpExc st b)) = Inr an \<and> an_status an = st"
  "\<exists>an. api_caught q h (HttpException st body m) = Inr an \<and> an_status an = st"
  by (simp_all add: api_caught_def http_passes AllExceptions_http_def)

context api_services
begin

lemma pipes_bad_request:
  assumes "global_pipes (as_validator sv) (as_pipeException sv) schema body = Inl t"
  shows "bad_request t"
proof -
  have "bad_request (createValidationPipe_exception es)" for es by (simp add: bad_request_def createValidationPipe_exception_def)
  then show ?thesis using pipes_failure [OF assms] pipe_exception by auto
qed

lemma arguments_failure:
  assumes "api_arguments sv q = Inl t"
  shows "bad_request t \<and> (route_schema (aq_route q) \<noteq> None \<or> takes_id (aq_route q))"
  using assms race_reports pipes_bad_request uuid_exception
  by (auto simp: api_arguments_def split: option.splits sum.splits if_splits) (metis insertE singletonD)+

lemma auth_arguments: "aq_route q \<in> auth_routes \<Longrightarrow> \<exists>t. api_arguments sv q = Inl t"
  using auth_pipes_fail [OF validator, of "as_pipeException sv" "aq_input q"]
  by (auto simp: auth_routes_def api_arguments_def takes_id_def route_defs)

text \<open>The answer of a request the guards let pass: the database is as it was, and only a handler that is not one
  of the authentication controller returns.\<close>

lemma respond_cases:
  obtains (thrown) st b m where "api_respond sv q user s = (Inl (HttpException st b m), s)"
      "st = 408 \<or> st = 400 \<and> (route_schema (aq_route q) \<noteq> None \<or> takes_id (aq_route q))"
    | (returned) v where "api_respond sv q user s = (Inr v, s)" "aq_route q \<notin> auth_routes"
proof (cases "api_arguments sv q")
  case (Inl t)
  obtain b m where t: "t = HttpException 400 b m"
    using arguments_failure [OF Inl] by (cases t) (auto simp: bad_request_def)
  show ?thesis
    using thrown arguments_failure [OF Inl] Inl t
    by (cases "aq_milliseconds q < DEFAULT_TIMEOUT") (simp_all add: api_respond_def Timeout_intercept_def Let_def)
next
  case (Inr p)
  obtain input i where p: "p = (input, i)" by (cases p)
  have r: "aq_route q \<notin> auth_routes" using auth_arguments Inr by force
  then obtain v where "api_handler sv q user input i (aq_route q) s = (Inr v, s)" using handler_pure [OF r, of sv q user input i s] by blast
  then show ?thesis
    using thrown returned r Inr p
    by (cases "aq_milliseconds q < DEFAULT_TIMEOUT") (simp_all add: api_respond_def Timeout_intercept_def Let_def)
qed

end

definition api_refusals :: "route \<Rightarrow> nat set" where
  "api_refusals r = guard_refusals r \<union> {408} \<union> (if route_schema r \<noteq> None \<or> takes_id r then {400} else {})"

section \<open>Whole requests\<close>

text \<open>What holds of every request served in a database state that requests do not change, holds along a run.\<close>

lemma run_keeps:
  assumes "\<And>q store own. \<exists>an x y. api_serve sv q (s, store, own) = (Inr an, s, x, y) \<and> P q an"
    and "api_run sv qs (s, store, own) = (answers, s', stores)"
  shows "s' = s \<and> list_all2 (\<lambda>q a. \<exists>an. a = Inr an \<and> P q an) qs answers"
  using assms(2)
proof (induction qs arbitrary: store own answers)
  case (Cons q qs)
  obtain an x y where "api_serve sv q (s, store, own) = (Inr an, s, x, y)" "P q an" using assms(1) by blast
  then show ?case using Cons.prems Cons.IH [of x y] by (auto split: prod.splits)
qed simp

context api_services
begin

lemma serve_cases:
  "\<exists>an x y. api_serve sv q (s, store, own) = (Inr an, s, x, y) \<and>
     (an_status an \<in> api_refusals (aq_route q) \<or> aq_route q \<notin> auth_routes \<and> an_status an = success_status (aq_route q))"
proof (cases rule: guards_cases [where s = s and store = store and own = own and r = "aq_route q" and clk = "aq_clock q" and
      verify = "as_verify sv" and cfg = "as_throttle sv" and auth = "aq_authorization q" and q = "aq_client q", case_names refused passed])
  case (refused st b h x y)
  obtain an where "api_caught q h (Thrown (HttpExc st b)) = Inr an" "an_status an = st" using caught_status(1) by blast
  then show ?thesis using refused by (simp add: api_serve_def api_refusals_def)
next
  case (passed user h x y)
  show ?thesis
  proof (cases rule: respond_cases [where q = q and user = user and s = s, case_names thrown returned])
    case (thrown st b m)
    obtain an where "api_caught q h (HttpException st b m) = Inr an" "an_status an = st" using caught_status(2) by blast
    then show ?thesis using passed thrown by (auto simp: api_serve_def api_refusals_def)
  next
    case (returned v)
    then show ?thesis using passed by (simp add: api_serve_def)
  qed
qed

lemma jwt_without_sessions:
  assumes "\<forall>x\<in>set (sess s). ss_revokedAt x \<noteq> None" "override (md_isPublic hm) (md_isPublic cm) \<noteq> Some True"
  shows "\<exists>b. JwtAuthGuard_canActivate (as_sessions sv) verify hm cm auth s = (Inl (HttpExc 401 b), s)"
proof -
  have "find (\<lambda>r. ss_userId r = tk_sub p \<and> ss_revokedAt r = None) (sess s) = None" for p :: TokenPayload
    using assms(1) by (auto simp: find_None_iff)
  then have "\<nexists>u. Jwt_validate (as_sessions sv) p s = (Inr u, s)" for p using validate_cases [of p s] by simp
  then obtain e where e: "JwtAuthGuard_canActivate (as_sessions sv) verify hm cm auth s = (Inl e, s)"
    using jwt_guard_user [OF prisma_sessions_axioms assms(2), of verify auth s] by blast
  show ?thesis using e jwt_guard_refusal [OF e] by auto
qed

text \<open>Without a live session everything but the health checks is refused.\<close>

lemma serve_sealed:
  assumes "\<forall>x\<in>set (sess s). ss_revokedAt x \<noteq> None"
  shows "\<exists>an x y. api_serve sv q (s, store, own) = (Inr an, s, x, y) \<and>
    (aq_route q \<in> {Liveness, Readiness} \<or> an_status an \<in> {400, 401, 408, 429})"
proof (cases "aq_route q \<in> {Login, Register, Liveness, Readiness}")
  case True
  then show ?thesis using serve_cases [of q s store own]
    by (auto simp: api_refusals_def guard_refusals_def auth_routes_def takes_id_def split: if_splits)
next
  case False
  then have "override (md_isPublic (handler_metadata (aq_route q))) (md_isPublic (class_metadata (aq_route q))) \<noteq> Some True"
    by (cases "aq_route q") (simp_all add: override_def route_defs)
  then obtain b where b: "JwtAuthGuard_canActivate (as_sessions sv) (as_verify sv) (handler_metadata (aq_route q))
      (class_metadata (aq_route q)) (aq_authorization q) s = (Inl (HttpExc 401 b), s)"
    using jwt_without_sessions [OF assms] by blast
  obtain an where "api_caught q [] (Thrown (HttpExc 401 b)) = Inr an" "an_status an = 401" using caught_status(1) by blast
  then show ?thesis using b by (simp add: api_serve_def route_guards_def SecurityModule_guards_def Let_def)
qed

end

section \<open>Properties\<close>

text \<open>
  C12. The routes answer, and change nothing. This is about requests that reach one of the twelve declared routes with a parsed body
  and query, while the database calls succeed. Each of them, in any order and number, gets an answer, and the sessions and accounts are
  afterwards what they were before: no such request logs in, registers, refreshes, logs out, or creates, changes or deletes a
  user. A route of the authentication controller never answers with its success status; every other route answers with
  it or refuses with a status its guards, its pipes or the timeout have, so that 404, 409, 422 and 503, which
  the routes document, are never the answer of a route, nor is 500.
\<close>
theorem api_answers:
  assumes "api_services sv sess accounts" and "api_run sv qs (s, store, own) = (answers, s', stores)"
  shows "s' = s \<and> list_all2 (\<lambda>q a. \<exists>an. a = Inr an \<and>
      (an_status an \<in> api_refusals (aq_route q) \<or> aq_route q \<notin> auth_routes \<and> an_status an = success_status (aq_route q)) \<and>
      an_status an \<notin> {404, 409, 422, 500, 503}) qs answers"
proof -
  have refused: "api_refusals r \<subseteq> {400, 401, 403, 408, 429}" for r by (auto simp: api_refusals_def guard_refusals_def)
  have served: "success_status r \<in> {200, 201, 204}" for r by (cases r) (simp_all add: success_status_def route_defs)
  have disjoint: "{400, 401, 403, 408, 429} \<inter> {404, 409, 422, 500, 503::nat} = {}" "{200, 201, 204} \<inter> {404, 409, 422, 500, 503::nat} = {}"
    by simp_all
  have never: "n \<notin> {404, 409, 422, 500, 503}" if "n \<in> api_refusals r \<or> n = success_status r" for n r
    using that refused [of r] served [of r] disjoint by (elim disjE) (simp only: disjoint_iff subset_iff, blast)+
  have "\<exists>an x y. api_serve sv q (s, store, own) = (Inr an, s, x, y) \<and>
      (an_status an \<in> api_refusals (aq_route q) \<or> aq_route q \<notin> auth_routes \<and> an_status an = success_status (aq_route q)) \<and>
      an_status an \<notin> {404, 409, 422, 500, 503}" for q store own
  proof -
    obtain an x y where "api_serve sv q (s, store, own) = (Inr an, s, x, y)" and
      status: "an_status an \<in> api_refusals (aq_route q) \<or> aq_route q \<notin> auth_routes \<and> an_status an = success_status (aq_route q)"
      using api_services.serve_cases [OF assms(1)] by blast
    moreover have "an_status an \<notin> {404, 409, 422, 500, 503}" using status never by blast
    ultimately show ?thesis by blast
  qed
  then show ?thesis by (rule run_keeps [OF _ assms(2)])
qed

definition sample_api_request :: "route \<Rightarrow> ApiRequest" where
  "sample_api_request r = \<lparr>aq_route = r, aq_authorization = Some ''u'', aq_client = plain_request, aq_id = [],
     aq_input = [(''email'', JStr ''a@b.c''), (''password'', JStr ''Secret-1'')], aq_info = \<lparr>ri_userAgent = None, ri_ip = None\<rparr>,
     aq_clock = int, aq_jti = ''j'', aq_token = ''t'', aq_uptime = JNum 1, aq_heap = (1, 2), aq_metrics = [],
     aq_envelopes = (sample_envelope, sample_envelope), aq_filterEnv = production_env,
     aq_filterRequest = sample_filter_request, aq_milliseconds = 5\<rparr>"

theorem api_answers_witness:
  "\<exists>answers stores. api_run sample_services [sample_api_request Login, sample_api_request Logout] (sample_auth_state, Map.empty, Map.empty) =
     (answers, sample_auth_state, stores)"
proof -
  obtain answers s' stores where run: "api_run sample_services [sample_api_request Login, sample_api_request Logout]
      (sample_auth_state, Map.empty, Map.empty) = (answers, s', stores)" by (metis prod_cases3 prod.collapse)
  show ?thesis using conjunct1 [OF api_answers [OF apimem.api_services_axioms run]] run by blast
qed

text \<open>
  C4. The routes are sealed. From a database without a live session, a new installation among them, and for requests that reach one
  of the twelve declared routes with a parsed body and query: in no sequence of them does any succeed but the health checks.
  Each of the others, with whatever credentials, tokens, bodies and times, is answered with 400, 401, 408 or 429, and the database
  stays as it is, without a live session.
\<close>
theorem api_sealed:
  assumes "api_services sv sess accounts" and "\<forall>x\<in>set (sess s). ss_revokedAt x \<noteq> None"
    and "api_run sv qs (s, store, own) = (answers, s', stores)"
  shows "s' = s \<and> list_all2 (\<lambda>q a. \<exists>an. a = Inr an \<and>
      (aq_route q \<in> {Liveness, Readiness} \<or> an_status an \<in> {400, 401, 408, 429})) qs answers"
  by (rule run_keeps [OF api_services.serve_sealed [OF assms(1,2)] assms(3)])

theorem api_sealed_witness:
  "\<exists>answers stores. api_run sample_services [sample_api_request Register, sample_api_request Login, sample_api_request ListUsers]
     ((0, [], [''u'' \<mapsto> sample_account]), Map.empty, Map.empty) = (answers, (0, [], [''u'' \<mapsto> sample_account]), stores) \<and>
     list_all (\<lambda>a. \<exists>an. a = Inr an \<and> an_status an \<in> {400, 401, 408, 429}) answers"
proof -
  let ?s = "(0, [], [''u'' \<mapsto> sample_account]) :: mem_auth"
  let ?qs = "[sample_api_request Register, sample_api_request Login, sample_api_request ListUsers]"
  obtain answers s' stores where run: "api_run sample_services ?qs (?s, Map.empty, Map.empty) = (answers, s', stores)"
    by (metis prod_cases3 prod.collapse)
  have "\<forall>x\<in>set ((\<lambda>(n, xs, us). xs) ?s). ss_revokedAt x \<noteq> None" by simp
  note sealed = api_sealed [OF apimem.api_services_axioms this run]
  have "list_all (\<lambda>a. \<exists>an. a = Inr an \<and> an_status an \<in> {400, 401, 408, 429}) answers"
    using conjunct2 [OF sealed] by (auto simp: list_all2_Cons1 sample_api_request_def)
  then show ?thesis using conjunct1 [OF sealed] run by blast
qed

end
