(* ===== verification/Settings.thy ===== *)
theory Settings
  imports AuthSettings Bootstrap
begin

text \<open>
  The configuration factories of \<open>src/infrastructure/config\<close> (\<open>app.config.ts\<close>, \<open>database.config.ts\<close>, \<open>redis.config.ts\<close>,
  \<open>jwt.config.ts\<close>) and how \<open>app.module.ts\<close> loads them: schemas as data, validation of the environment, the values the rest of
  the program reads. zod is third-party: \<open>safeParse\<close>, the URL check and \<open>Number\<close> are the fields of \<open>zod\<close>, and what its
  documentation promises of a schema is \<open>zod_laws\<close>.
\<close>

section \<open>Schemas\<close>

datatype setting = SText string | SNumber int | SBool bool | SAbsent

datatype zod_type = ZString | ZNumber | ZBoolean | ZEnum "string list"

datatype zod_check = ZMinLength nat | ZUrl | ZStartsWith string | ZInt | ZMin int | ZMax int | ZPositive

text \<open>A key with its type (numbers and Booleans are coerced), its checks with their messages, and its default.\<close>

record zod_field =
  zf_name :: string
  zf_type :: zod_type
  zf_checks :: "(zod_check \<times> string option) list"
  zf_optional :: bool
  zf_default :: "setting option"

definition zod_default :: "string \<Rightarrow> zod_type \<Rightarrow> zod_check list \<Rightarrow> setting \<Rightarrow> zod_field" where
  "zod_default name ty checks d =
     \<lparr>zf_name = name, zf_type = ty, zf_checks = map (\<lambda>c. (c, None)) checks, zf_optional = False, zf_default = Some d\<rparr>"

definition zod_required :: "string \<Rightarrow> (zod_check \<times> string option) list \<Rightarrow> zod_field" where
  "zod_required name checks =
     \<lparr>zf_name = name, zf_type = ZString, zf_checks = checks, zf_optional = False, zf_default = None\<rparr>"

definition zod_optional :: "string \<Rightarrow> zod_field" where
  "zod_optional name = \<lparr>zf_name = name, zf_type = ZString, zf_checks = [], zf_optional = True, zf_default = None\<rparr>"

definition appConfigSchema :: "zod_field list" where
  "appConfigSchema =
     [zod_default ''NODE_ENV'' (ZEnum [''development'', ''production'', ''test'', ''staging'']) [] (SText ''development''),
      zod_default ''PORT'' ZNumber [ZInt, ZMin 1, ZMax 65535] (SNumber 3000),
      zod_default ''GLOBAL_PREFIX'' ZString [] (SText ''api/v1''),
      zod_default ''CORS_ORIGINS'' ZString [] (SText ''http://localhost:3000''),
      zod_default ''LOG_LEVEL'' (ZEnum [''error'', ''warn'', ''info'', ''http'', ''verbose'', ''debug'', ''silly'']) [] (SText ''info''),
      zod_default ''API_VERSION'' ZString [] (SText ''1.0.0''),
      zod_default ''SHUTDOWN_TIMEOUT_MS'' ZNumber [ZInt, ZPositive] (SNumber 10000)]"

definition databaseConfigSchema :: "zod_field list" where
  "databaseConfigSchema =
     [zod_required ''DATABASE_URL'' [(ZUrl, Some ''DATABASE_URL must be a valid PostgreSQL connection URL''),
        (ZStartsWith ''postgresql://'', Some ''DATABASE_URL must start with postgresql://'')],
      zod_default ''DATABASE_POOL_MIN'' ZNumber [ZInt, ZMin 0] (SNumber 2),
      zod_default ''DATABASE_POOL_MAX'' ZNumber [ZInt, ZMin 1] (SNumber 10),
      zod_default ''DATABASE_SSL'' ZBoolean [] (SBool False),
      zod_default ''DATABASE_SSL_REJECT_UNAUTHORIZED'' ZBoolean [] (SBool True),
      zod_default ''DATABASE_LOG_QUERIES'' ZBoolean [] (SBool False),
      zod_default ''DATABASE_SLOW_QUERY_MS'' ZNumber [ZInt, ZPositive] (SNumber 500)]"

definition redisConfigSchema :: "zod_field list" where
  "redisConfigSchema =
     [zod_default ''REDIS_URL'' ZString [] (SText ''redis://localhost:6379''),
      zod_optional ''REDIS_PASSWORD'',
      zod_default ''REDIS_DB'' ZNumber [ZInt, ZMin 0, ZMax 15] (SNumber 0),
      zod_default ''REDIS_KEY_PREFIX'' ZString [] (SText ''es:''),
      zod_default ''REDIS_SENTINEL_ENABLED'' ZBoolean [] (SBool False),
      zod_default ''REDIS_SENTINEL_MASTER_NAME'' ZString [] (SText ''mymaster''),
      zod_optional ''REDIS_SENTINEL_NODES'',
      zod_default ''REDIS_CLUSTER_ENABLED'' ZBoolean [] (SBool False),
      zod_optional ''REDIS_CLUSTER_NODES'',
      zod_default ''REDIS_TLS_ENABLED'' ZBoolean [] (SBool False),
      zod_default ''REDIS_MAX_RETRIES'' ZNumber [ZInt, ZMin 0] (SNumber 3),
      zod_default ''REDIS_CONNECT_TIMEOUT_MS'' ZNumber [ZInt, ZPositive] (SNumber 5000),
      zod_default ''REDIS_COMMAND_TIMEOUT_MS'' ZNumber [ZInt, ZPositive] (SNumber 2000)]"

definition jwtConfigSchema :: "zod_field list" where
  "jwtConfigSchema =
     [zod_required ''JWT_ACCESS_SECRET'' [(ZMinLength 32, Some ''JWT_ACCESS_SECRET must be at least 32 characters'')],
      zod_default ''JWT_ACCESS_EXPIRY'' ZString [] (SText ''15m''),
      zod_required ''JWT_REFRESH_SECRET'' [(ZMinLength 32, Some ''JWT_REFRESH_SECRET must be at least 32 characters'')],
      zod_default ''JWT_REFRESH_EXPIRY'' ZString [] (SText ''7d''),
      zod_default ''JWT_ISSUER'' ZString [] (SText ''enterprise-system''),
      zod_default ''JWT_AUDIENCE'' ZString [] (SText ''enterprise-api'')]"

section \<open>Validation and loading\<close>

type_synonym settings = "(string \<times> setting) list"

text \<open>An issue is the path and the message. \<open>zd_number\<close> is the integer that \<open>Number\<close> makes of a text, if it makes one.\<close>

record zod =
  zd_url :: "string \<Rightarrow> bool"
  zd_number :: "string \<Rightarrow> int option"
  zd_safeParse :: "zod_field list \<Rightarrow> environment \<Rightarrow> (string \<times> string) list + settings"

text \<open>The bullet U+2022 in front of an issue is written as its three bytes in UTF-8.\<close>

definition format_issues :: "(string \<times> string) list \<Rightarrow> string" where
  "format_issues issues =
     str_join [CHR 0x0A] (map (\<lambda>(path, message). ''  '' @ [CHR 0xE2, CHR 0x80, CHR 0xA2] @ '' '' @ path @ '': '' @ message) issues)"

definition AppConfig_validate :: "zod \<Rightarrow> environment \<Rightarrow> exn + settings" where
  "AppConfig_validate z raw =
     (case zd_safeParse z appConfigSchema raw of
        Inl issues \<Rightarrow> Inl (JsError (''[AppConfig] Environment validation failed:'' @ [CHR 0x0A] @ format_issues issues @ [CHR 0x0A] @
          ''Ensure all required environment variables are set.''))
      | Inr data \<Rightarrow> Inr data)"

definition DatabaseConfig_validate :: "zod \<Rightarrow> environment \<Rightarrow> exn + settings" where
  "DatabaseConfig_validate z raw =
     (case zd_safeParse z databaseConfigSchema raw of
        Inl issues \<Rightarrow> Inl (JsError (''[DatabaseConfig] Validation failed:'' @ [CHR 0x0A] @ format_issues issues @ [CHR 0x0A] @
          ''Check your DATABASE_URL and pool settings.''))
      | Inr data \<Rightarrow> Inr data)"

definition RedisConfig_validate :: "zod \<Rightarrow> environment \<Rightarrow> exn + settings" where
  "RedisConfig_validate z raw =
     (case zd_safeParse z redisConfigSchema raw of
        Inl issues \<Rightarrow> Inl (JsError (''[RedisConfig] Validation failed:'' @ [CHR 0x0A] @ format_issues issues))
      | Inr data \<Rightarrow> Inr data)"

definition JwtConfig_validate :: "zod \<Rightarrow> environment \<Rightarrow> exn + settings" where
  "JwtConfig_validate z raw =
     (case zd_safeParse z jwtConfigSchema raw of
        Inl issues \<Rightarrow> Inl (JsError (''[JwtConfig] Validation failed:'' @ [CHR 0x0A] @ format_issues issues @ [CHR 0x0A] @
          ''JWT secrets are required and must be at least 32 characters.''))
      | Inr data \<Rightarrow> Inr data)"

text \<open>\<open>load: [appConfig, databaseConfig, redisConfig, jwtConfig]\<close>, each over \<open>process.env\<close>; a factory that throws stops the start.\<close>

record configuration =
  cn_app :: settings
  cn_database :: settings
  cn_redis :: settings
  cn_jwt :: settings

definition load_configuration :: "zod \<Rightarrow> environment \<Rightarrow> exn + configuration" where
  "load_configuration z env =
     bindE (AppConfig_validate z env) (\<lambda>app.
     bindE (DatabaseConfig_validate z env) (\<lambda>database.
     bindE (RedisConfig_validate z env) (\<lambda>redis.
     bindE (JwtConfig_validate z env) (\<lambda>jwt.
       Inr \<lparr>cn_app = app, cn_database = database, cn_redis = redis, cn_jwt = jwt\<rparr>))))"

section \<open>What the program reads\<close>

definition text_setting :: "settings \<Rightarrow> string \<Rightarrow> string option" where
  "text_setting s k = (case map_of s k of Some (SText t) \<Rightarrow> Some t | _ \<Rightarrow> None)"

definition number_setting :: "settings \<Rightarrow> string \<Rightarrow> int option" where
  "number_setting s k = (case map_of s k of Some (SNumber n) \<Rightarrow> Some n | _ \<Rightarrow> None)"

definition bool_setting :: "settings \<Rightarrow> string \<Rightarrow> bool" where
  "bool_setting s k = (map_of s k = Some (SBool True))"

definition app_settings_of :: "configuration \<Rightarrow> AppSettings" where
  "app_settings_of c =
     \<lparr>as_nodeEnv = text_setting (cn_app c) ''NODE_ENV'', as_port = number_setting (cn_app c) ''PORT'',
      as_globalPrefix = text_setting (cn_app c) ''GLOBAL_PREFIX'', as_corsOrigins = text_setting (cn_app c) ''CORS_ORIGINS'',
      as_shutdownTimeoutMs = number_setting (cn_app c) ''SHUTDOWN_TIMEOUT_MS''\<rparr>"

definition redis_settings_of :: "configuration \<Rightarrow> redis_settings" where
  "redis_settings_of c =
     \<lparr>rcf_url = text_setting (cn_redis c) ''REDIS_URL'', rcf_password = text_setting (cn_redis c) ''REDIS_PASSWORD'',
      rcf_db = number_setting (cn_redis c) ''REDIS_DB'', rcf_keyPrefix = text_setting (cn_redis c) ''REDIS_KEY_PREFIX'',
      rcf_maxRetries = number_setting (cn_redis c) ''REDIS_MAX_RETRIES'',
      rcf_connectTimeoutMs = number_setting (cn_redis c) ''REDIS_CONNECT_TIMEOUT_MS'',
      rcf_commandTimeoutMs = number_setting (cn_redis c) ''REDIS_COMMAND_TIMEOUT_MS''\<rparr>"

definition database_config_of :: "configuration \<Rightarrow> database_config" where
  "database_config_of c =
     \<lparr>dc_poolMax = or_default (number_setting (cn_database c) ''DATABASE_POOL_MAX'') 0,
      dc_ssl = bool_setting (cn_database c) ''DATABASE_SSL'',
      dc_sslRejectUnauthorized = bool_setting (cn_database c) ''DATABASE_SSL_REJECT_UNAUTHORIZED''\<rparr>"

section \<open>What zod promises\<close>

fun check_holds :: "zod \<Rightarrow> zod_check \<Rightarrow> setting \<Rightarrow> bool" where
  "check_holds z (ZMinLength n) (SText s) = (n \<le> length s)"
| "check_holds z ZUrl (SText s) = zd_url z s"
| "check_holds z (ZStartsWith p) (SText s) = str_prefix p s"
| "check_holds z ZInt (SNumber n) = True"
| "check_holds z (ZMin m) (SNumber n) = (m \<le> n)"
| "check_holds z (ZMax m) (SNumber n) = (n \<le> m)"
| "check_holds z ZPositive (SNumber n) = (0 < n)"
| "check_holds z _ _ = False"

definition coerced :: "zod \<Rightarrow> zod_type \<Rightarrow> string \<Rightarrow> setting option" where
  "coerced z ty s =
     (case ty of
        ZString \<Rightarrow> Some (SText s)
      | ZNumber \<Rightarrow> map_option SNumber (zd_number z s)
      | ZBoolean \<Rightarrow> Some (SBool (s \<noteq> []))
      | ZEnum xs \<Rightarrow> if s \<in> set xs then Some (SText s) else None)"

text \<open>The value a key gets, or none if it is refused.\<close>

definition field_parse :: "zod \<Rightarrow> zod_field \<Rightarrow> string option \<Rightarrow> setting option" where
  "field_parse z f raw =
     (case raw of
        None \<Rightarrow> (case zf_default f of Some d \<Rightarrow> Some d | None \<Rightarrow> if zf_optional f then Some SAbsent else None)
      | Some s \<Rightarrow> (case coerced z (zf_type f) s of
            None \<Rightarrow> None
          | Some v \<Rightarrow> if list_all (\<lambda>(c, m). check_holds z c v) (zf_checks f) then Some v else None))"

text \<open>A number the model can read is read as it is, as long as a double represents it exactly; an object is parsed key by
  key, and an issue names its key.\<close>

definition zod_laws :: "zod \<Rightarrow> bool" where
  "zod_laws z \<longleftrightarrow>
     (\<forall>s n. js_Number s = Some n \<and> \<bar>n\<bar> \<le> 2 ^ 53 \<longrightarrow> zd_number z s = Some n) \<and>
     (\<forall>schema env. if list_all (\<lambda>f. field_parse z f (env (zf_name f)) \<noteq> None) schema
        then zd_safeParse z schema env = Inr (map (\<lambda>f. (zf_name f, the (field_parse z f (env (zf_name f))))) schema)
        else \<exists>issues. zd_safeParse z schema env = Inl issues \<and>
          fst ` set issues = zf_name ` set (filter (\<lambda>f. field_parse z f (env (zf_name f)) = None) schema))"

definition sample_zod :: zod where
  "sample_zod = (let z = \<lparr>zd_url = (\<lambda>s. CHR '':'' \<in> set s), zd_number = js_Number, zd_safeParse = (\<lambda>schema env. Inl [])\<rparr>
     in z\<lparr>zd_safeParse := (\<lambda>schema env.
       if list_all (\<lambda>f. field_parse z f (env (zf_name f)) \<noteq> None) schema
       then Inr (map (\<lambda>f. (zf_name f, the (field_parse z f (env (zf_name f))))) schema)
       else Inl (map (\<lambda>f. (zf_name f, ''Invalid input'')) (filter (\<lambda>f. field_parse z f (env (zf_name f)) = None) schema)))\<rparr>)"

lemma field_parse_frame: "field_parse (z\<lparr>zd_safeParse := p\<rparr>) f raw = field_parse z f raw"
proof -
  have "check_holds (z\<lparr>zd_safeParse := p\<rparr>) c v = check_holds z c v" for c v
    by (cases "(z, c, v)" rule: check_holds.cases) simp_all
  moreover have "coerced (z\<lparr>zd_safeParse := p\<rparr>) ty s = coerced z ty s" for ty s by (cases ty) (simp_all add: coerced_def)
  ultimately show ?thesis by (simp add: field_parse_def split: option.split)
qed

lemma sample_zod_laws: "zod_laws sample_zod"
  unfolding zod_laws_def sample_zod_def Let_def field_parse_frame by (simp add: image_image)

section \<open>Lemmas\<close>

definition schema_accepts :: "zod \<Rightarrow> zod_field list \<Rightarrow> environment \<Rightarrow> bool" where
  "schema_accepts z schema env \<longleftrightarrow> list_all (\<lambda>f. field_parse z f (env (zf_name f)) \<noteq> None) schema"

definition schema_values :: "zod \<Rightarrow> zod_field list \<Rightarrow> environment \<Rightarrow> settings" where
  "schema_values z schema env = map (\<lambda>f. (zf_name f, the (field_parse z f (env (zf_name f))))) schema"

lemma safeParse_iff:
  assumes "zod_laws z"
  shows "zd_safeParse z schema env = Inr data \<longleftrightarrow> schema_accepts z schema env \<and> data = schema_values z schema env"
proof -
  have law: "if schema_accepts z schema env then zd_safeParse z schema env = Inr (schema_values z schema env)
      else \<exists>issues. zd_safeParse z schema env = Inl issues \<and>
        fst ` set issues = zf_name ` set (filter (\<lambda>f. field_parse z f (env (zf_name f)) = None) schema)"
    using assms unfolding zod_laws_def schema_accepts_def schema_values_def by blast
  then show ?thesis by (cases "schema_accepts z schema env") auto
qed

lemma load_iff:
  assumes "zod_laws z"
  shows "load_configuration z env = Inr c \<longleftrightarrow>
    schema_accepts z appConfigSchema env \<and> schema_accepts z databaseConfigSchema env \<and>
    schema_accepts z redisConfigSchema env \<and> schema_accepts z jwtConfigSchema env \<and>
    c = \<lparr>cn_app = schema_values z appConfigSchema env, cn_database = schema_values z databaseConfigSchema env,
         cn_redis = schema_values z redisConfigSchema env, cn_jwt = schema_values z jwtConfigSchema env\<rparr>"
proof -
  have "AppConfig_validate z env = Inr d \<longleftrightarrow> zd_safeParse z appConfigSchema env = Inr d"
    "DatabaseConfig_validate z env = Inr d \<longleftrightarrow> zd_safeParse z databaseConfigSchema env = Inr d"
    "RedisConfig_validate z env = Inr d \<longleftrightarrow> zd_safeParse z redisConfigSchema env = Inr d"
    "JwtConfig_validate z env = Inr d \<longleftrightarrow> zd_safeParse z jwtConfigSchema env = Inr d" for d
    by (auto simp: AppConfig_validate_def DatabaseConfig_validate_def RedisConfig_validate_def JwtConfig_validate_def split: sum.split)
  then show ?thesis by (auto simp: load_configuration_def bindE_eq_Inr safeParse_iff [OF assms])
qed

text \<open>The kinds of fields the schemas are made of.\<close>

definition number_in :: "zod \<Rightarrow> (int \<Rightarrow> bool) \<Rightarrow> string option \<Rightarrow> bool" where
  "number_in z P raw \<longleftrightarrow> (case raw of None \<Rightarrow> True | Some s \<Rightarrow> (case zd_number z s of Some n \<Rightarrow> P n | None \<Rightarrow> False))"

lemma field_names [simp]:
  "zf_name (zod_default k ty cs d) = k" "zf_name (zod_required k rs) = k" "zf_name (zod_optional k) = k"
  by (simp_all add: zod_default_def zod_required_def zod_optional_def)

lemma field_accepts:
  "field_parse z (zod_default k ZString [] d) raw \<noteq> None"
  "field_parse z (zod_default k ZBoolean [] d) raw \<noteq> None"
  "field_parse z (zod_optional k) raw \<noteq> None"
  "field_parse z (zod_default k (ZEnum xs) [] d) raw \<noteq> None \<longleftrightarrow> (\<forall>s. raw = Some s \<longrightarrow> s \<in> set xs)"
  "field_parse z (zod_default k ZNumber [ZInt, ZPositive] d) raw \<noteq> None \<longleftrightarrow> number_in z (\<lambda>n. 0 < n) raw"
  "field_parse z (zod_default k ZNumber [ZInt, ZMin a] d) raw \<noteq> None \<longleftrightarrow> number_in z (\<lambda>n. a \<le> n) raw"
  "field_parse z (zod_default k ZNumber [ZInt, ZMin a, ZMax b] d) raw \<noteq> None \<longleftrightarrow> number_in z (\<lambda>n. a \<le> n \<and> n \<le> b) raw"
  "field_parse z (zod_required k [(ZMinLength l, m)]) raw \<noteq> None \<longleftrightarrow> (\<exists>s. raw = Some s \<and> l \<le> length s)"
  "field_parse z (zod_required k [(ZUrl, m), (ZStartsWith p, m')]) raw \<noteq> None \<longleftrightarrow> (\<exists>s. raw = Some s \<and> zd_url z s \<and> str_prefix p s)"
  by (auto simp: field_parse_def coerced_def zod_default_def zod_required_def zod_optional_def number_in_def split: option.splits if_splits)

lemma app_accepts:
  "schema_accepts z appConfigSchema env \<longleftrightarrow>
     (\<forall>s. env ''NODE_ENV'' = Some s \<longrightarrow> s \<in> set [''development'', ''production'', ''test'', ''staging'']) \<and>
     number_in z (\<lambda>n. 1 \<le> n \<and> n \<le> 65535) (env ''PORT'') \<and>
     (\<forall>s. env ''LOG_LEVEL'' = Some s \<longrightarrow> s \<in> set [''error'', ''warn'', ''info'', ''http'', ''verbose'', ''debug'', ''silly'']) \<and>
     number_in z (\<lambda>n. 0 < n) (env ''SHUTDOWN_TIMEOUT_MS'')"
  unfolding schema_accepts_def appConfigSchema_def by (simp only: list.pred_inject field_names field_accepts simp_thms)

lemma database_accepts:
  "schema_accepts z databaseConfigSchema env \<longleftrightarrow>
     (\<exists>u. env ''DATABASE_URL'' = Some u \<and> zd_url z u \<and> str_prefix ''postgresql://'' u) \<and>
     number_in z (\<lambda>n. 0 \<le> n) (env ''DATABASE_POOL_MIN'') \<and> number_in z (\<lambda>n. 1 \<le> n) (env ''DATABASE_POOL_MAX'') \<and>
     number_in z (\<lambda>n. 0 < n) (env ''DATABASE_SLOW_QUERY_MS'')"
  unfolding schema_accepts_def databaseConfigSchema_def by (simp only: list.pred_inject field_names field_accepts simp_thms)

lemma redis_accepts:
  "schema_accepts z redisConfigSchema env \<longleftrightarrow>
     number_in z (\<lambda>n. 0 \<le> n \<and> n \<le> 15) (env ''REDIS_DB'') \<and> number_in z (\<lambda>n. 0 \<le> n) (env ''REDIS_MAX_RETRIES'') \<and>
     number_in z (\<lambda>n. 0 < n) (env ''REDIS_CONNECT_TIMEOUT_MS'') \<and> number_in z (\<lambda>n. 0 < n) (env ''REDIS_COMMAND_TIMEOUT_MS'')"
  unfolding schema_accepts_def redisConfigSchema_def by (simp only: list.pred_inject field_names field_accepts simp_thms)

lemma jwt_accepts:
  "schema_accepts z jwtConfigSchema env \<longleftrightarrow>
     (\<exists>s. env ''JWT_ACCESS_SECRET'' = Some s \<and> 32 \<le> length s) \<and> (\<exists>s. env ''JWT_REFRESH_SECRET'' = Some s \<and> 32 \<le> length s)"
  unfolding schema_accepts_def jwtConfigSchema_def by (simp only: list.pred_inject field_names field_accepts simp_thms)

text \<open>The values of accepted fields.\<close>

definition number_of :: "zod \<Rightarrow> int \<Rightarrow> string option \<Rightarrow> int" where
  "number_of z d raw = (case raw of None \<Rightarrow> d | Some s \<Rightarrow> the (zd_number z s))"

lemma number_value:
  "field_parse z (zod_default k ZNumber cs (SNumber d)) raw \<noteq> None \<Longrightarrow>
     the (field_parse z (zod_default k ZNumber cs (SNumber d)) raw) = SNumber (number_of z d raw)"
  by (auto simp: field_parse_def coerced_def zod_default_def number_of_def split: option.splits if_splits)

lemma number_of_in: "number_in z P raw \<Longrightarrow> P d \<Longrightarrow> P (number_of z d raw)"
  by (auto simp: number_in_def number_of_def split: option.splits)

lemma bool_value:
  "field_parse z (zod_default k ZBoolean [] (SBool d)) raw = Some (SBool (case raw of None \<Rightarrow> d | Some s \<Rightarrow> s \<noteq> []))"
  by (simp add: field_parse_def coerced_def zod_default_def split: option.split)

lemma text_value:
  "the (field_parse z (zod_default k ZString [] (SText d)) raw) = SText (case raw of None \<Rightarrow> d | Some s \<Rightarrow> s)"
  "field_parse z (zod_default k (ZEnum xs) [] (SText d)) raw \<noteq> None \<Longrightarrow>
     the (field_parse z (zod_default k (ZEnum xs) [] (SText d)) raw) = SText (case raw of None \<Rightarrow> d | Some s \<Rightarrow> s)"
  by (auto simp: field_parse_def coerced_def zod_default_def split: option.splits if_splits)

text \<open>Looking a key up finds what its field was parsed to.\<close>

lemma value_of:
  assumes "f \<in> set schema" "distinct (map zf_name schema)"
  shows "map_of (schema_values z schema env) (zf_name f) = Some (the (field_parse z f (env (zf_name f))))"
  using assms unfolding schema_values_def by (intro map_of_is_SomeI) (auto simp: comp_def)

lemma accepted_field: "schema_accepts z schema env \<Longrightarrow> f \<in> set schema \<Longrightarrow> field_parse z f (env (zf_name f)) \<noteq> None"
  by (simp add: schema_accepts_def list_all_iff)

lemma number_setting_of:
  assumes "schema_accepts z schema env" "zod_default k ZNumber cs (SNumber d) \<in> set schema" "distinct (map zf_name schema)"
  shows "number_setting (schema_values z schema env) k = Some (number_of z d (env k))"
proof -
  have "field_parse z (zod_default k ZNumber cs (SNumber d)) (env k) \<noteq> None" using accepted_field [OF assms(1,2)] by simp
  then show ?thesis using value_of [OF assms(2,3), of z env] number_value [of z k cs d "env k"] by (simp add: number_setting_def)
qed

lemma text_setting_of:
  assumes "schema_accepts z schema env" "distinct (map zf_name schema)"
    and "zod_default k ZString [] (SText d) \<in> set schema \<or> (\<exists>xs. zod_default k (ZEnum xs) [] (SText d) \<in> set schema)"
  shows "text_setting (schema_values z schema env) k = Some (case env k of None \<Rightarrow> d | Some s \<Rightarrow> s)"
proof -
  consider "zod_default k ZString [] (SText d) \<in> set schema" | xs where "zod_default k (ZEnum xs) [] (SText d) \<in> set schema"
    using assms(3) by blast
  then show ?thesis
  proof cases
    case 1
    then show ?thesis using value_of [OF 1 assms(2), of z env] by (simp add: text_setting_def text_value)
  next
    case 2
    have "field_parse z (zod_default k (ZEnum xs) [] (SText d)) (env k) \<noteq> None" using accepted_field [OF assms(1) 2] by simp
    then show ?thesis using value_of [OF 2 assms(2), of z env] text_value(2) [of z k xs d "env k"] by (simp add: text_setting_def)
  qed
qed

lemma schema_update:
  assumes "k \<notin> zf_name ` set schema"
  shows "schema_accepts z schema (env(k := x)) = schema_accepts z schema env"
    and "schema_values z schema (env(k := x)) = schema_values z schema env"
proof -
  have "(env(k := x)) (zf_name f) = env (zf_name f)" if "f \<in> set schema" for f using assms that by auto
  then show "schema_accepts z schema (env(k := x)) = schema_accepts z schema env"
    "schema_values z schema (env(k := x)) = schema_values z schema env"
    by (simp_all add: schema_accepts_def schema_values_def list_all_iff del: fun_upd_apply)
qed

lemma distinct_names:
  "distinct (map zf_name appConfigSchema)" "distinct (map zf_name databaseConfigSchema)" "distinct (map zf_name redisConfigSchema)"
  by (simp_all add: appConfigSchema_def databaseConfigSchema_def redisConfigSchema_def)

lemma schema_fields:
  "zod_default ''PORT'' ZNumber [ZInt, ZMin 1, ZMax 65535] (SNumber 3000) \<in> set appConfigSchema"
  "zod_default ''SHUTDOWN_TIMEOUT_MS'' ZNumber [ZInt, ZPositive] (SNumber 10000) \<in> set appConfigSchema"
  "zod_default ''NODE_ENV'' (ZEnum [''development'', ''production'', ''test'', ''staging'']) [] (SText ''development'') \<in> set appConfigSchema"
  "zod_default ''DATABASE_POOL_MAX'' ZNumber [ZInt, ZMin 1] (SNumber 10) \<in> set databaseConfigSchema"
  "zod_default ''REDIS_DB'' ZNumber [ZInt, ZMin 0, ZMax 15] (SNumber 0) \<in> set redisConfigSchema"
  "zod_default ''REDIS_CONNECT_TIMEOUT_MS'' ZNumber [ZInt, ZPositive] (SNumber 5000) \<in> set redisConfigSchema"
  "zod_default ''REDIS_COMMAND_TIMEOUT_MS'' ZNumber [ZInt, ZPositive] (SNumber 2000) \<in> set redisConfigSchema"
  "zod_default ''REDIS_KEY_PREFIX'' ZString [] (SText ''es:'') \<in> set redisConfigSchema"
  "zod_default ''DATABASE_SSL'' ZBoolean [] (SBool False) \<in> set databaseConfigSchema"
  "zod_default ''DATABASE_SSL_REJECT_UNAUTHORIZED'' ZBoolean [] (SBool True) \<in> set databaseConfigSchema"
  "zod_default ''GLOBAL_PREFIX'' ZString [] (SText ''api/v1'') \<in> set appConfigSchema"
  "zod_default ''CORS_ORIGINS'' ZString [] (SText ''http://localhost:3000'') \<in> set appConfigSchema"
  "zod_default ''REDIS_URL'' ZString [] (SText ''redis://localhost:6379'') \<in> set redisConfigSchema"
  "zod_default ''REDIS_MAX_RETRIES'' ZNumber [ZInt, ZMin 0] (SNumber 3) \<in> set redisConfigSchema"
  by (simp_all add: appConfigSchema_def databaseConfigSchema_def redisConfigSchema_def)

section \<open>Properties\<close>

text \<open>
  C13. When the system starts. The four configuration factories accept an environment exactly when the address
  of the database is a URL beginning with \<open>postgresql://\<close>, both JWT secrets have 32 characters, the node environment and the log
  level, if set, are among those listed, and every number that is set is an integer in its range; of everything else no value is refused.
\<close>
theorem startup_accepts_iff:
  assumes "zod_laws z"
  shows "(\<exists>c. load_configuration z env = Inr c) \<longleftrightarrow>
    (\<exists>u. env ''DATABASE_URL'' = Some u \<and> zd_url z u \<and> str_prefix ''postgresql://'' u) \<and>
    (\<forall>k\<in>{''JWT_ACCESS_SECRET'', ''JWT_REFRESH_SECRET''}. \<exists>s. env k = Some s \<and> 32 \<le> length s) \<and>
    (\<forall>s. env ''NODE_ENV'' = Some s \<longrightarrow> s \<in> set [''development'', ''production'', ''test'', ''staging'']) \<and>
    (\<forall>s. env ''LOG_LEVEL'' = Some s \<longrightarrow> s \<in> set [''error'', ''warn'', ''info'', ''http'', ''verbose'', ''debug'', ''silly'']) \<and>
    number_in z (\<lambda>n. 1 \<le> n \<and> n \<le> 65535) (env ''PORT'') \<and> number_in z (\<lambda>n. 0 \<le> n \<and> n \<le> 15) (env ''REDIS_DB'') \<and>
    (\<forall>k\<in>{''DATABASE_POOL_MIN'', ''REDIS_MAX_RETRIES''}. number_in z (\<lambda>n. 0 \<le> n) (env k)) \<and>
    number_in z (\<lambda>n. 1 \<le> n) (env ''DATABASE_POOL_MAX'') \<and>
    (\<forall>k\<in>{''SHUTDOWN_TIMEOUT_MS'', ''DATABASE_SLOW_QUERY_MS'', ''REDIS_CONNECT_TIMEOUT_MS'', ''REDIS_COMMAND_TIMEOUT_MS''}.
       number_in z (\<lambda>n. 0 < n) (env k))"
proof -
  have all: "(\<forall>k\<in>insert a A. P k) \<longleftrightarrow> P a \<and> (\<forall>k\<in>A. P k)" "(\<forall>k\<in>{}. P k) \<longleftrightarrow> True" for a A and P :: "string \<Rightarrow> bool" by simp_all
  have "(\<exists>c. load_configuration z env = Inr c) \<longleftrightarrow>
      schema_accepts z appConfigSchema env \<and> schema_accepts z databaseConfigSchema env \<and>
      schema_accepts z redisConfigSchema env \<and> schema_accepts z jwtConfigSchema env"
    by (simp add: load_iff [OF assms])
  then show ?thesis unfolding app_accepts database_accepts redis_accepts jwt_accepts all by (simp only: conj_ac simp_thms)
qed

definition sample_environment :: environment where
  "sample_environment = [''DATABASE_URL'' \<mapsto> ''postgresql://db/app'', ''JWT_ACCESS_SECRET'' \<mapsto> replicate 32 (CHR ''a''),
     ''JWT_REFRESH_SECRET'' \<mapsto> replicate 32 (CHR ''b''), ''PORT'' \<mapsto> ''8080'', ''DATABASE_SSL'' \<mapsto> ''false'', ''JWT_SECRET'' \<mapsto> ''x'']"

theorem startup_accepts_iff_witness:
  "\<exists>c. load_configuration sample_zod sample_environment = Inr c"
proof -
  have "zd_number sample_zod ''8080'' = Some 8080" by code_simp
  moreover have "zd_url sample_zod ''postgresql://db/app''" by code_simp
  ultimately show ?thesis
    unfolding startup_accepts_iff [OF sample_zod_laws] by (simp add: sample_environment_def number_in_def)
qed

text \<open>
  C15. Settings stay in bounds. What an accepted configuration gives to the bootstrap and to the cache connection: a port from
  1 to 65535, a positive shutdown timeout, one of four node environments, a Redis database from 0 to 15, a number of
  retries that is not negative, and positive timeouts. The texts both of them read are taken as they are set: the node environment, the
  global prefix, the CORS origins, the address of Redis and the key prefix; one that is not set has the schema's default.
\<close>
theorem settings_in_bounds:
  assumes "zod_laws z" and "load_configuration z env = Inr c"
    and a: "a = app_settings_of c" and r: "r = redis_settings_of c"
  shows "1 \<le> app_port a \<and> app_port a \<le> 65535 \<and> 0 < shutdownTimeoutMs a \<and>
    nodeEnv a \<in> {''development'', ''production'', ''test'', ''staging''} \<and> nodeEnv a = or_default (env ''NODE_ENV'') ''development'' \<and>
    globalPrefix a = or_default (env ''GLOBAL_PREFIX'') ''api/v1'' \<and>
    as_corsOrigins a = Some (or_default (env ''CORS_ORIGINS'') ''http://localhost:3000'') \<and>
    redis_url r = or_default (env ''REDIS_URL'') ''redis://localhost:6379'' \<and>
    rc_keyPrefix (Cache_connection url r) = or_default (env ''REDIS_KEY_PREFIX'') ''es:'' \<and>
    0 \<le> rc_db (Cache_connection url r) \<and> rc_db (Cache_connection url r) \<le> 15 \<and>
    (\<exists>n. rc_maxRetriesPerRequest (Cache_connection url r) = Some n \<and> 0 \<le> n) \<and>
    0 < rc_connectTimeout (Cache_connection url r) \<and> 0 < rc_commandTimeout (Cache_connection url r)"
proof -
  have c: "cn_app c = schema_values z appConfigSchema env" "cn_redis c = schema_values z redisConfigSchema env"
    and ok: "schema_accepts z appConfigSchema env" "schema_accepts z redisConfigSchema env"
    using assms(2) unfolding load_iff [OF assms(1)] by simp_all
  note num = number_setting_of [of z _ env, OF ok(1) schema_fields(1) distinct_names(1)]
    number_setting_of [of z _ env, OF ok(1) schema_fields(2) distinct_names(1)]
    number_setting_of [of z _ env, OF ok(2) schema_fields(5) distinct_names(3)]
    number_setting_of [of z _ env, OF ok(2) schema_fields(6) distinct_names(3)]
    number_setting_of [of z _ env, OF ok(2) schema_fields(7) distinct_names(3)]
    number_setting_of [of z _ env, OF ok(2) schema_fields(14) distinct_names(3)]
  note texts = text_setting_of [of z _ env, OF ok(1) distinct_names(1) disjI2, OF exI, OF schema_fields(3)]
    text_setting_of [of z _ env, OF ok(1) distinct_names(1) disjI1, OF schema_fields(11)]
    text_setting_of [of z _ env, OF ok(1) distinct_names(1) disjI1, OF schema_fields(12)]
    text_setting_of [of z _ env, OF ok(2) distinct_names(3) disjI1, OF schema_fields(8)]
    text_setting_of [of z _ env, OF ok(2) distinct_names(3) disjI1, OF schema_fields(13)]
  note [simp] = num [folded c] texts [folded c]
  have node: "(case env ''NODE_ENV'' of None \<Rightarrow> ''development'' | Some s \<Rightarrow> s) \<in> {''development'', ''production'', ''test'', ''staging''}"
    using ok(1) unfolding app_accepts by (auto split: option.split)
  have "1 \<le> number_of z 3000 (env ''PORT'') \<and> number_of z 3000 (env ''PORT'') \<le> 65535" "0 < number_of z 10000 (env ''SHUTDOWN_TIMEOUT_MS'')"
    using ok(1) unfolding app_accepts by (auto intro!: number_of_in [where P = "\<lambda>n. 1 \<le> n \<and> n \<le> 65535"] number_of_in [where P = "\<lambda>n. 0 < n"])
  moreover have "0 \<le> number_of z 0 (env ''REDIS_DB'') \<and> number_of z 0 (env ''REDIS_DB'') \<le> 15" "0 \<le> number_of z 3 (env ''REDIS_MAX_RETRIES'')"
    "0 < number_of z 5000 (env ''REDIS_CONNECT_TIMEOUT_MS'')" "0 < number_of z 2000 (env ''REDIS_COMMAND_TIMEOUT_MS'')"
    using ok(2) unfolding redis_accepts
    by (auto intro!: number_of_in [where P = "\<lambda>n. 0 \<le> n \<and> n \<le> 15"] number_of_in [where P = "\<lambda>n. 0 < n"] number_of_in [where P = "\<lambda>n. 0 \<le> n"])
  ultimately show ?thesis using node unfolding a r
    by (simp add: app_port_def shutdownTimeoutMs_def nodeEnv_def globalPrefix_def redis_url_def app_settings_of_def redis_settings_of_def
        Cache_connection_def or_default_def split: option.split)
qed

lemma sample_starts: "\<exists>c. load_configuration sample_zod sample_environment = Inr c"
proof -
  have "zd_number sample_zod ''8080'' = Some 8080" "zd_url sample_zod ''postgresql://db/app''" by code_simp+
  then have "schema_accepts sample_zod appConfigSchema sample_environment \<and> schema_accepts sample_zod databaseConfigSchema sample_environment \<and>
      schema_accepts sample_zod redisConfigSchema sample_environment \<and> schema_accepts sample_zod jwtConfigSchema sample_environment"
    unfolding app_accepts database_accepts redis_accepts jwt_accepts by (simp add: sample_environment_def number_in_def)
  then show ?thesis by (simp add: load_iff [OF sample_zod_laws])
qed

theorem settings_in_bounds_witness:
  "\<exists>c. load_configuration sample_zod sample_environment = Inr c \<and> 1 \<le> app_port (app_settings_of c) \<and> app_port (app_settings_of c) \<le> 65535"
proof -
  obtain c where "load_configuration sample_zod sample_environment = Inr c" using sample_starts by blast
  then show ?thesis using settings_in_bounds [OF sample_zod_laws _ refl refl, of sample_environment c] by blast
qed

text \<open>
  C14. The secret that is checked signs nothing. Tokens are signed and verified with \<open>JWT_SECRET\<close>, which no factory checks. In
  an environment that is accepted it can be replaced by any text that is not empty, one of a single character included: the configuration
  is accepted as before, and both the signing module and the strategy are set up with that text. Only the empty text is refused, by
  passport-jwt when the strategy is made. Changing \<open>JWT_ACCESS_SECRET\<close>, which has to be long, changes neither of the two,
  and without it the configuration is refused.
\<close>
theorem signing_secret_unchecked:
  assumes "zod_laws z" and "load_configuration z env = Inr c" and "passport_law passport"
  shows "load_configuration z (env(''JWT_SECRET'' \<mapsto> w)) = Inr c \<and>
    (\<exists>m. JwtModule_options (env(''JWT_SECRET'' \<mapsto> w)) = Inr m \<and> jw_secret m = w) \<and>
    (if w = [] then \<exists>e. JwtStrategy_new passport (env(''JWT_SECRET'' \<mapsto> w)) = Inl e
     else \<exists>v. JwtStrategy_new passport (env(''JWT_SECRET'' \<mapsto> w)) = Inr v \<and> vo_secretOrKey v = w) \<and>
    JwtModule_options (env(''JWT_ACCESS_SECRET'' := a)) = JwtModule_options env \<and>
    JwtStrategy_new passport (env(''JWT_ACCESS_SECRET'' := a)) = JwtStrategy_new passport env \<and>
    (\<exists>e. load_configuration z (env(''JWT_ACCESS_SECRET'' := None)) = Inl e)"
proof (intro conjI)
  have "''JWT_SECRET'' \<notin> zf_name ` set appConfigSchema" "''JWT_SECRET'' \<notin> zf_name ` set databaseConfigSchema"
    "''JWT_SECRET'' \<notin> zf_name ` set redisConfigSchema" "''JWT_SECRET'' \<notin> zf_name ` set jwtConfigSchema"
    by (simp_all add: appConfigSchema_def databaseConfigSchema_def redisConfigSchema_def jwtConfigSchema_def)
  note same = this [THEN schema_update(1)] this [THEN schema_update(2)]
  show "load_configuration z (env(''JWT_SECRET'' \<mapsto> w)) = Inr c"
    using assms(2) unfolding load_iff [OF assms(1)] same .
  have "\<not> schema_accepts z jwtConfigSchema (env(''JWT_ACCESS_SECRET'' := None))" by (simp add: jwt_accepts)
  then have "load_configuration z (env(''JWT_ACCESS_SECRET'' := None)) \<noteq> Inr c'" for c'
    unfolding load_iff [OF assms(1)] by simp
  then show "\<exists>e. load_configuration z (env(''JWT_ACCESS_SECRET'' := None)) = Inl e"
    by (cases "load_configuration z (env(''JWT_ACCESS_SECRET'' := None))") auto
  obtain v where v: "JwtStrategy_options (env(''JWT_SECRET'' \<mapsto> w)) = Inr v" "vo_secretOrKey v = w"
    by (simp add: JwtStrategy_options_def config_getOrThrow_def)
  then show "if w = [] then \<exists>e. JwtStrategy_new passport (env(''JWT_SECRET'' \<mapsto> w)) = Inl e
     else \<exists>v. JwtStrategy_new passport (env(''JWT_SECRET'' \<mapsto> w)) = Inr v \<and> vo_secretOrKey v = w"
    using assms(3) [unfolded passport_law_def, THEN spec [of _ v]] by (cases "passport v") (simp_all add: JwtStrategy_new_def)
qed (simp_all add: JwtModule_options_def JwtStrategy_new_def JwtStrategy_options_def config_getOrThrow_def config_get_def)

theorem signing_secret_unchecked_witness:
  "\<exists>c v. load_configuration sample_zod (sample_environment(''JWT_SECRET'' \<mapsto> ''k'')) = Inr c \<and>
    JwtStrategy_new sample_passport (sample_environment(''JWT_SECRET'' \<mapsto> ''k'')) = Inr v \<and> vo_secretOrKey v = ''k''"
proof -
  obtain c where "load_configuration sample_zod sample_environment = Inr c" using sample_starts by blast
  then show ?thesis
    using signing_secret_unchecked [OF sample_zod_laws _ sample_passport_law, of sample_environment c "''k''" None] by auto
qed

text \<open>
  Switches that cannot be switched off. A Boolean setting that is set to any text but the empty one is true, \<open>false\<close> and
  \<open>0\<close> included: with \<open>DATABASE_SSL=false\<close> the database address asks for SSL, and \<open>DATABASE_SSL_REJECT_UNAUTHORIZED=false\<close>
  leaves certificates checked, so the parameters for unchecked ones are never set.
\<close>
theorem booleans_always_true:
  assumes "zod_laws z" and "load_configuration z env = Inr c" and "env ''DATABASE_SSL'' = Some t" and "t \<noteq> []"
    and "env ''DATABASE_SSL_REJECT_UNAUTHORIZED'' \<noteq> Some []"
  shows "dc_ssl (database_config_of c) \<and> dc_sslRejectUnauthorized (database_config_of c) \<and>
    map_of (pu_params (buildPrismaUrl (database_config_of c) url)) ''sslmode'' = Some ''require'' \<and>
    map_of (pu_params (buildPrismaUrl (database_config_of c) url)) ''sslcert'' = map_of (pu_params url) ''sslcert''"
proof -
  have c: "cn_database c = schema_values z databaseConfigSchema env"
    using assms(2) unfolding load_iff [OF assms(1)] by simp
  have "dc_ssl (database_config_of c)" "dc_sslRejectUnauthorized (database_config_of c)"
    using value_of [OF schema_fields(9) distinct_names(2), of z env] value_of [OF schema_fields(10) distinct_names(2), of z env] assms(3-5)
    by (auto simp: database_config_of_def bool_setting_def c bool_value split: option.split)
  then show ?thesis by (simp add: buildPrismaUrl_def Let_def map_of_params_set)
qed

theorem booleans_always_true_witness:
  "\<exists>c. load_configuration sample_zod sample_environment = Inr c \<and> sample_environment ''DATABASE_SSL'' = Some ''false'' \<and>
     dc_ssl (database_config_of c)"
proof -
  obtain c where c: "load_configuration sample_zod sample_environment = Inr c" using sample_starts by blast
  have "sample_environment ''DATABASE_SSL'' = Some ''false''" "sample_environment ''DATABASE_SSL_REJECT_UNAUTHORIZED'' \<noteq> Some []"
    by (simp_all add: sample_environment_def)
  then show ?thesis using booleans_always_true [OF sample_zod_laws c, of "''false''"] c by simp
qed

section \<open>Tracing and compression\<close>

datatype span_exporter = JaegerExporter string | ConsoleSpanExporter

record tracing_sdk =
  ts_serviceName :: string
  ts_serviceVersion :: string
  ts_environment :: string
  ts_exporter :: span_exporter
  ts_instrumentations :: "string list"

text \<open>\<open>TracingService.onModuleInit\<close>: the SDK it starts, if any. The switch is declared a Boolean; an environment variable is a text.\<close>

definition TracingService_onModuleInit :: "environment \<Rightarrow> tracing_sdk option" where
  "TracingService_onModuleInit env =
     (let enabled = (case env ''TRACING_ENABLED'' of None \<Rightarrow> False | Some t \<Rightarrow> t \<noteq> [])
      in if \<not> enabled then None
         else Some \<lparr>ts_serviceName = config_get env ''SERVICE_NAME'' ''enterprise-system'',
           ts_serviceVersion = config_get env ''APP_VERSION'' ''1.0.0'',
           ts_environment = config_get env ''NODE_ENV'' ''development'',
           ts_exporter = (if env ''NODE_ENV'' = Some ''production''
             then JaegerExporter (config_get env ''JAEGER_ENDPOINT'' ''http://localhost:14268/api/traces'') else ConsoleSpanExporter),
           ts_instrumentations = [''Http'', ''Express'', ''Pg'', ''IORedis'']\<rparr>)"

text \<open>
  The options of \<open>CompressionMiddleware\<close> and those \<open>main.ts\<close> gives the same package: the filter gets the header
  \<open>x-no-compression\<close> and what the package's own filter says. A layer compresses (\<open>acts\<close>) what no layer inside it has encoded.
\<close>

record compression_options =
  co_threshold :: nat
  co_level :: nat
  co_filter :: "string option \<Rightarrow> bool \<Rightarrow> bool"

definition CompressionMiddleware_options :: compression_options where
  "CompressionMiddleware_options =
     \<lparr>co_threshold = 1024, co_level = 6,
      co_filter = (\<lambda>header admits. if (case header of Some h \<Rightarrow> h \<noteq> [] | None \<Rightarrow> False) then False else admits)\<rparr>"

definition bootstrap_compression :: compression_options where
  "bootstrap_compression = \<lparr>co_threshold = 1024, co_level = 6, co_filter = (\<lambda>header admits. admits)\<rparr>"

definition compressing_layer :: "(compression_options \<Rightarrow> bool \<Rightarrow> nat \<Rightarrow> bool) \<Rightarrow> string option \<Rightarrow> bool \<Rightarrow> nat \<Rightarrow> compression_options option" where
  "compressing_layer acts header admits bytes =
     find (\<lambda>opt. acts opt (co_filter opt header admits) bytes) [CompressionMiddleware_options, bootstrap_compression]"

text \<open>The package's documentation: a response is compressed if the filter admits it and it has the threshold's size.\<close>

definition compression_law :: "(compression_options \<Rightarrow> bool \<Rightarrow> nat \<Rightarrow> bool) \<Rightarrow> bool" where
  "compression_law acts \<longleftrightarrow> (\<forall>opt admitted bytes. acts opt admitted bytes \<longleftrightarrow> admitted \<and> co_threshold opt \<le> bytes)"

text \<open>
  Tracing cannot be switched off by a text, and it exports where the rest of the program thinks it runs. The SDK
  starts for every text but the empty one, \<open>false\<close> included; with an accepted configuration it sends to Jaeger exactly if the
  bootstrap takes the environment for production.
\<close>
theorem tracing_follows_environment:
  assumes "zod_laws z" and "load_configuration z env = Inr c"
  shows "(TracingService_onModuleInit env = None \<longleftrightarrow> env ''TRACING_ENABLED'' \<in> {None, Some []}) \<and>
    (case TracingService_onModuleInit env of None \<Rightarrow> True | Some sdk \<Rightarrow>
       ts_environment sdk = nodeEnv (app_settings_of c) \<and>
       (ts_exporter sdk = ConsoleSpanExporter \<longleftrightarrow> ts_environment sdk \<noteq> ''production''))"
proof -
  have c: "cn_app c = schema_values z appConfigSchema env" and ok: "schema_accepts z appConfigSchema env"
    using assms(2) unfolding load_iff [OF assms(1)] by simp_all
  have "text_setting (cn_app c) ''NODE_ENV'' = Some (config_get env ''NODE_ENV'' ''development'')"
    unfolding c config_get_def
    using text_setting_of [of z _ env, OF ok distinct_names(1) disjI2, OF exI, OF schema_fields(3)] by (simp split: option.split)
  then have "nodeEnv (app_settings_of c) = config_get env ''NODE_ENV'' ''development''"
    by (simp add: nodeEnv_def app_settings_of_def or_default_def)
  moreover have "env ''NODE_ENV'' = Some ''production'' \<longleftrightarrow> config_get env ''NODE_ENV'' ''development'' = ''production''"
    by (simp add: config_get_def split: option.split)
  ultimately show ?thesis
    by (auto simp: TracingService_onModuleInit_def Let_def split: option.split)
qed

theorem tracing_follows_environment_witness:
  "TracingService_onModuleInit (sample_environment(''TRACING_ENABLED'' \<mapsto> ''false'')) \<noteq> None"
proof -
  have "''TRACING_ENABLED'' \<notin> zf_name ` set appConfigSchema" "''TRACING_ENABLED'' \<notin> zf_name ` set databaseConfigSchema"
    "''TRACING_ENABLED'' \<notin> zf_name ` set redisConfigSchema" "''TRACING_ENABLED'' \<notin> zf_name ` set jwtConfigSchema"
    by (simp_all add: appConfigSchema_def databaseConfigSchema_def redisConfigSchema_def jwtConfigSchema_def)
  note same = this [THEN schema_update(1)] this [THEN schema_update(2)]
  obtain c where "load_configuration sample_zod sample_environment = Inr c" using sample_starts by blast
  then have c: "load_configuration sample_zod (sample_environment(''TRACING_ENABLED'' \<mapsto> ''false'')) = Inr c"
    unfolding load_iff [OF sample_zod_laws] same .
  show ?thesis using tracing_follows_environment [OF sample_zod_laws c] by simp
qed

text \<open>
  Opting out of compression has no effect. The middleware of the presentation module honours \<open>x-no-compression\<close>, but
  the bootstrap adds a second layer that does not: whether a response is compressed depends on its size and on the package's filter alone.
\<close>
theorem opt_out_ignored:
  assumes "compression_law acts"
  shows "(compressing_layer acts header admits bytes \<noteq> None \<longleftrightarrow> admits \<and> 1024 \<le> bytes) \<and>
    (h \<noteq> [] \<and> admits \<and> 1024 \<le> bytes \<longrightarrow> compressing_layer acts (Some h) admits bytes = Some bootstrap_compression)"
  using assms by (auto simp: compressing_layer_def compression_law_def CompressionMiddleware_options_def bootstrap_compression_def)

theorem opt_out_ignored_witness:
  "compressing_layer (\<lambda>opt admitted bytes. admitted \<and> co_threshold opt \<le> bytes) (Some ''1'') True 2000 = Some bootstrap_compression"
  using opt_out_ignored [of "\<lambda>opt admitted bytes. admitted \<and> co_threshold opt \<le> bytes" None True 2000 "''1''"] by (simp add: compression_law_def)

end
