(* ===== verification/Wiring.thy ===== *)
theory Wiring
  imports Prelude
begin

text \<open>
  How the program is put together: the modules of \<open>src/app.module.ts\<close>, \<open>src/infrastructure\<close>, \<open>src/security\<close>, \<open>src/observability\<close>
  and \<open>src/presentation\<close> with what they import, provide and export, the tokens the constructors ask for, and what is visible
  where. NestJS is third-party: \<open>lib\<close> has the tokens its packages' modules export, \<open>core\<close> those available everywhere, \<open>start\<close>
  is the start of an application, and \<open>nest_laws\<close> says what the documentation asks of one that succeeds. A class is its own token; a
  symbol is written as its text, so that the two symbols the code has for one port stay apart.
\<close>

section \<open>Modules\<close>

type_synonym token = string

datatype provider =
    ClassProvider string
  | UseExisting token token
  | UseClass token string
  | UseFactory token "token list"

text \<open>\<open>nm_enhancers\<close> are the classes a module instantiates besides: guards its controllers name, middleware it applies.\<close>

record nest_module =
  nm_name :: string
  nm_global :: bool
  nm_imports :: "string list"
  nm_providers :: "provider list"
  nm_controllers :: "string list"
  nm_enhancers :: "string list"
  nm_exports :: "token list"

definition EVENT_PUBLISHER :: token where "EVENT_PUBLISHER = ''Symbol(EventPublisher)''"
definition USER_REPOSITORY :: token where "USER_REPOSITORY = ''Symbol(UserRepository)''"
definition PASSWORD_HASHER :: token where "PASSWORD_HASHER = ''Symbol(PasswordHasher)''"
definition UNIT_OF_WORK :: token where "UNIT_OF_WORK = ''Symbol(UnitOfWork)''"

text \<open>The application layer declares symbols of its own for the same ports.\<close>

definition app_EVENT_PUBLISHER :: token where "app_EVENT_PUBLISHER = ''Symbol(EVENT_PUBLISHER)''"
definition app_USER_REPOSITORY :: token where "app_USER_REPOSITORY = ''Symbol(USER_REPOSITORY)''"
definition app_UNIT_OF_WORK :: token where "app_UNIT_OF_WORK = ''Symbol(UNIT_OF_WORK)''"
definition SESSION_REPOSITORY :: token where "SESSION_REPOSITORY = ''Symbol(SESSION_REPOSITORY)''"
definition TOKEN_SERVICE :: token where "TOKEN_SERVICE = ''Symbol(TOKEN_SERVICE)''"

definition AppModule :: nest_module where
  "AppModule =
     \<lparr>nm_name = ''AppModule'', nm_global = False,
      nm_imports = [''ConfigModule'', ''ScheduleModule'', ''InfrastructureModule'', ''SecurityModule'', ''ObservabilityModule'', ''PresentationModule''],
      nm_providers = [], nm_controllers = [], nm_enhancers = [''RequestLoggerMiddleware''], nm_exports = []\<rparr>"

definition InfrastructureModule :: nest_module where
  "InfrastructureModule =
     \<lparr>nm_name = ''InfrastructureModule'', nm_global = True,
      nm_imports = [''ConfigModule'', ''CacheModule'', ''BullMQModule'', ''SupabaseModule''],
      nm_providers =
        [ClassProvider ''PrismaService'', ClassProvider ''UserRepositoryImpl'', ClassProvider ''UnitOfWork'', ClassProvider ''EmailService'',
         ClassProvider ''HttpClientService'', ClassProvider ''PasswordHasherImpl'', UseExisting USER_REPOSITORY ''UserRepositoryImpl'',
         UseExisting UNIT_OF_WORK ''UnitOfWork'', UseExisting PASSWORD_HASHER ''PasswordHasherImpl''],
      nm_controllers = [], nm_enhancers = [],
      nm_exports =
        [''ConfigModule'', ''PrismaService'', USER_REPOSITORY, UNIT_OF_WORK, PASSWORD_HASHER, EVENT_PUBLISHER, ''EmailService'',
         ''HttpClientService'', ''SupabaseService'', ''CacheModule'', ''BullMQModule'', ''SupabaseModule'']\<rparr>"

definition CacheModule :: nest_module where
  "CacheModule = \<lparr>nm_name = ''CacheModule'', nm_global = True, nm_imports = [], nm_providers = [ClassProvider ''CacheService''],
     nm_controllers = [], nm_enhancers = [], nm_exports = [''CacheService'']\<rparr>"

definition BullMQModule :: nest_module where
  "BullMQModule = \<lparr>nm_name = ''BullMQModule'', nm_global = True, nm_imports = [],
     nm_providers = [ClassProvider ''EventPublisherImpl'', ClassProvider ''EventProcessorService'', UseExisting EVENT_PUBLISHER ''EventPublisherImpl''],
     nm_controllers = [], nm_enhancers = [], nm_exports = [EVENT_PUBLISHER, ''EventPublisherImpl'', ''EventProcessorService'']\<rparr>"

definition SupabaseModule :: nest_module where
  "SupabaseModule = \<lparr>nm_name = ''SupabaseModule'', nm_global = True, nm_imports = [], nm_providers = [ClassProvider ''SupabaseService''],
     nm_controllers = [], nm_enhancers = [], nm_exports = [''SupabaseService'']\<rparr>"

definition AuthModule :: nest_module where
  "AuthModule = \<lparr>nm_name = ''AuthModule'', nm_global = False, nm_imports = [''PassportModule'', ''JwtModule''],
     nm_providers = [ClassProvider ''JwtStrategy'', ClassProvider ''AuthService'', ClassProvider ''JwtAuthGuard'', ClassProvider ''PrismaService''],
     nm_controllers = [], nm_enhancers = [], nm_exports = [''AuthService'', ''JwtAuthGuard'', ''JwtModule'', ''PassportModule'']\<rparr>"

definition SecurityModule :: nest_module where
  "SecurityModule =
     \<lparr>nm_name = ''SecurityModule'', nm_global = True, nm_imports = [''ConfigModule'', ''AuthModule''],
      nm_providers =
        [ClassProvider ''PrismaService'', ClassProvider ''EncryptionService'', ClassProvider ''ThrottlerGuard'',
         UseClass ''APP_GUARD'' ''JwtAuthGuard'', UseClass ''APP_GUARD'' ''RolesGuard'', UseClass ''APP_GUARD'' ''PermissionsGuard'',
         UseClass ''APP_GUARD'' ''ThrottlerGuard''],
      nm_controllers = [], nm_enhancers = [],
      nm_exports = [''AuthService'', ''JwtAuthGuard'', ''RolesGuard'', ''PermissionsGuard'', ''EncryptionService'', ''ThrottlerGuard'', ''AuthModule'']\<rparr>"

definition LoggerModule :: nest_module where
  "LoggerModule = \<lparr>nm_name = ''LoggerModule'', nm_global = True, nm_imports = [], nm_providers = [ClassProvider ''LoggerService''],
     nm_controllers = [], nm_enhancers = [], nm_exports = [''LoggerService'']\<rparr>"

definition MetricsModule :: nest_module where
  "MetricsModule = \<lparr>nm_name = ''MetricsModule'', nm_global = False, nm_imports = [], nm_providers = [ClassProvider ''MetricsService''],
     nm_controllers = [''MetricsController''], nm_enhancers = [], nm_exports = [''MetricsService'']\<rparr>"

definition TracingModule :: nest_module where
  "TracingModule = \<lparr>nm_name = ''TracingModule'', nm_global = False, nm_imports = [], nm_providers = [ClassProvider ''TracingService''],
     nm_controllers = [], nm_enhancers = [], nm_exports = [''TracingService'']\<rparr>"

definition ObservabilityModule :: nest_module where
  "ObservabilityModule = \<lparr>nm_name = ''ObservabilityModule'', nm_global = False, nm_imports = [''LoggerModule'', ''MetricsModule'', ''TracingModule''],
     nm_providers = [ClassProvider ''HealthCheckService'', ClassProvider ''HealthIndicators''], nm_controllers = [], nm_enhancers = [],
     nm_exports = [''LoggerModule'', ''MetricsModule'', ''TracingModule'', ''HealthCheckService'', ''HealthIndicators'']\<rparr>"

definition PresentationModule :: nest_module where
  "PresentationModule =
     \<lparr>nm_name = ''PresentationModule'', nm_global = False, nm_imports = [''SecurityModule''],
      nm_providers =
        [ClassProvider ''PrismaService'', UseFactory ''APP_PIPE'' [], UseClass ''APP_GUARD'' ''RequestIdGuard'',
         UseClass ''APP_INTERCEPTOR'' ''LoggingInterceptor'', UseClass ''APP_INTERCEPTOR'' ''TimeoutInterceptor'',
         UseClass ''APP_INTERCEPTOR'' ''TransformInterceptor'', UseClass ''APP_FILTER'' ''DomainExceptionFilter'',
         UseClass ''APP_FILTER'' ''HttpExceptionFilter''],
      nm_controllers = [''AuthController'', ''UserController'', ''HealthController''],
      nm_enhancers = [''ThrottlerGuard'', ''CorrelationIdMiddleware'', ''CompressionMiddleware''], nm_exports = []\<rparr>"

definition application :: "nest_module list" where
  "application = [AppModule, InfrastructureModule, CacheModule, BullMQModule, SupabaseModule, SecurityModule, AuthModule,
     ObservabilityModule, LoggerModule, MetricsModule, TracingModule, PresentationModule]"

lemmas module_defs = AppModule_def InfrastructureModule_def CacheModule_def BullMQModule_def SupabaseModule_def AuthModule_def
  SecurityModule_def LoggerModule_def MetricsModule_def TracingModule_def ObservabilityModule_def PresentationModule_def

lemmas token_defs = EVENT_PUBLISHER_def USER_REPOSITORY_def PASSWORD_HASHER_def UNIT_OF_WORK_def app_EVENT_PUBLISHER_def
  app_USER_REPOSITORY_def app_UNIT_OF_WORK_def SESSION_REPOSITORY_def TOKEN_SERVICE_def

section \<open>Constructors\<close>

definition HealthIndicators_tokens :: "token list" where
  "HealthIndicators_tokens = [''PrismaClient'', ''Redis'']"

definition AuthService_tokens :: "token list" where
  "AuthService_tokens = [''JwtService'', ''ConfigService'', ''PrismaService'']"

definition CreateUserUseCase_tokens :: "token list" where
  "CreateUserUseCase_tokens = [''UserDomainService'', app_UNIT_OF_WORK]"

definition AuthenticateUserUseCase_tokens :: "token list" where
  "AuthenticateUserUseCase_tokens = [''UserDomainService'', SESSION_REPOSITORY, TOKEN_SERVICE, app_EVENT_PUBLISHER]"

definition RefreshTokenUseCase_tokens :: "token list" where
  "RefreshTokenUseCase_tokens = [app_USER_REPOSITORY, SESSION_REPOSITORY, TOKEN_SERVICE, app_EVENT_PUBLISHER]"

lemmas constructor_defs = HealthIndicators_tokens_def AuthService_tokens_def CreateUserUseCase_tokens_def
  AuthenticateUserUseCase_tokens_def RefreshTokenUseCase_tokens_def

text \<open>The token of every constructor parameter of the classes above; the classes not listed take none.\<close>

definition constructor_tokens :: "string \<Rightarrow> token list" where
  "constructor_tokens c =
     (case map_of
        [(''PrismaService'', [''ConfigService'']), (''UserRepositoryImpl'', [''PrismaService'']),
         (''UnitOfWork'', [''PrismaService'', ''UserRepositoryImpl'']), (''EmailService'', [''ConfigService'']),
         (''PasswordHasherImpl'', [''ConfigService'']), (''CacheService'', [''ConfigService'']),
         (''EventPublisherImpl'', [''ConfigService'']), (''EventProcessorService'', [''ConfigService'', ''CacheService'']),
         (''SupabaseService'', [''ConfigService'']), (''JwtStrategy'', [''ConfigService'', ''PrismaService'']),
         (''AuthService'', AuthService_tokens), (''JwtAuthGuard'', [''Reflector'']),
         (''RolesGuard'', [''Reflector'']), (''PermissionsGuard'', [''Reflector'']), (''ThrottlerGuard'', [''Reflector'', ''ConfigService'']),
         (''EncryptionService'', [''ConfigService'']), (''LoggerService'', [''ConfigService'']), (''TracingService'', [''ConfigService'']),
         (''MetricsController'', [''MetricsService'']), (''HealthIndicators'', HealthIndicators_tokens),
         (''RequestLoggerMiddleware'', [''LoggerService'']), (''TimeoutInterceptor'', [''Reflector'']), (''AuthController'', [''AuthService'']),
         (''CreateUserUseCase'', CreateUserUseCase_tokens),
         (''AuthenticateUserUseCase'', AuthenticateUserUseCase_tokens),
         (''RefreshTokenUseCase'', RefreshTokenUseCase_tokens)] c of
        Some ts \<Rightarrow> ts | None \<Rightarrow> [])"

fun provider_token :: "provider \<Rightarrow> token" where
  "provider_token (ClassProvider c) = c"
| "provider_token (UseExisting t c) = t"
| "provider_token (UseClass t c) = t"
| "provider_token (UseFactory t ts) = t"

fun provider_needs :: "provider \<Rightarrow> (string \<times> token) list" where
  "provider_needs (ClassProvider c) = map (Pair c) (constructor_tokens c)"
| "provider_needs (UseExisting t c) = [(t, c)]"
| "provider_needs (UseClass t c) = map (Pair c) (constructor_tokens c)"
| "provider_needs (UseFactory t ts) = map (Pair t) ts"

definition own_tokens :: "nest_module \<Rightarrow> token list" where
  "own_tokens m = map provider_token (nm_providers m)"

text \<open>Who needs what in a module.\<close>

definition module_needs :: "nest_module \<Rightarrow> (string \<times> token) list" where
  "module_needs m = concat (map provider_needs (nm_providers m)) @
     concat (map (\<lambda>c. map (Pair c) (constructor_tokens c)) (nm_controllers m @ nm_enhancers m))"

section \<open>Visibility\<close>

text \<open>
  A module gives what it provides and exports, and what an imported module it exports gives; a package's
  module gives the tokens of \<open>lib\<close>. Inside a module its own tokens are visible, what its imports and the global
  modules give, and the core's. \<open>ConfigModule\<close> is registered with \<open>isGlobal\<close>.
\<close>

inductive gives :: "(string \<Rightarrow> token list) \<Rightarrow> nest_module list \<Rightarrow> string \<Rightarrow> token \<Rightarrow> bool" for lib graph where
  own: "m \<in> set graph \<Longrightarrow> nm_name m = n \<Longrightarrow> t \<in> set (nm_exports m) \<Longrightarrow> t \<in> set (own_tokens m) \<Longrightarrow> gives lib graph n t"
| reexport: "m \<in> set graph \<Longrightarrow> nm_name m = n \<Longrightarrow> n' \<in> set (nm_exports m) \<Longrightarrow> n' \<in> set (nm_imports m) \<Longrightarrow>
    gives lib graph n' t \<Longrightarrow> gives lib graph n t"
| package: "t \<in> set (lib n) \<Longrightarrow> gives lib graph n t"

definition global_modules :: "nest_module list \<Rightarrow> string list" where
  "global_modules graph = ''ConfigModule'' # map nm_name (filter nm_global graph)"

definition visible :: "(string \<Rightarrow> token list) \<Rightarrow> token list \<Rightarrow> nest_module list \<Rightarrow> nest_module \<Rightarrow> token \<Rightarrow> bool" where
  "visible lib core graph m t \<longleftrightarrow>
     t \<in> set core \<or> t \<in> set (own_tokens m) \<or> (\<exists>n\<in>set (nm_imports m @ global_modules graph). gives lib graph n t)"

text \<open>Exports that are neither a token of the module nor one of its imports.\<close>

definition bad_exports :: "nest_module \<Rightarrow> token list" where
  "bad_exports m = filter (\<lambda>t. t \<notin> set (own_tokens m) \<and> t \<notin> set (nm_imports m)) (nm_exports m)"

text \<open>
  What NestJS documents: an application only starts if every export belongs to its module's providers or
  imports and every dependency can be resolved in its module. Of the packages: \<open>ConfigModule\<close> exports \<open>ConfigService\<close>, \<open>JwtModule\<close>
  exports \<open>JwtService\<close>, the core has \<open>Reflector\<close>; none knows the classes of Prisma and ioredis or the symbols and classes of the
  program.
\<close>

definition nest_laws ::
  "(string \<Rightarrow> token list) \<Rightarrow> token list \<Rightarrow> (nest_module list \<Rightarrow> string + unit) \<Rightarrow> bool" where
  "nest_laws lib core start \<longleftrightarrow>
     (\<forall>graph. start graph = Inr () \<longrightarrow>
        (\<forall>m\<in>set graph. bad_exports m = [] \<and> (\<forall>(c, t)\<in>set (module_needs m). visible lib core graph m t)))"

definition program_tokens :: "token list" where
  "program_tokens = [''PrismaClient'', ''Redis'', ''UserDomainService'', app_UNIT_OF_WORK, app_USER_REPOSITORY, app_EVENT_PUBLISHER,
     SESSION_REPOSITORY, TOKEN_SERVICE]"

definition package_laws :: "(string \<Rightarrow> token list) \<Rightarrow> token list \<Rightarrow> bool" where
  "package_laws lib core \<longleftrightarrow>
     ''ConfigService'' \<in> set (lib ''ConfigModule'') \<and> ''JwtService'' \<in> set (lib ''JwtModule'') \<and> ''Reflector'' \<in> set core \<and>
     (\<forall>t\<in>set program_tokens. t \<notin> set core \<and> (\<forall>n. t \<notin> set (lib n)))"

section \<open>Computing what is given\<close>

text \<open>Re-exports followed to a depth; \<open>given\<close> is sound for \<open>gives\<close>, and deep enough it finds everything the program needs.\<close>

fun given :: "(string \<Rightarrow> token list) \<Rightarrow> nest_module list \<Rightarrow> nat \<Rightarrow> string \<Rightarrow> token list" where
  "given lib graph 0 n = lib n"
| "given lib graph (Suc k) n = lib n @ concat (map (\<lambda>m. filter (\<lambda>t. t \<in> set (own_tokens m)) (nm_exports m) @
     concat (map (given lib graph k) (filter (\<lambda>n'. n' \<in> set (nm_imports m)) (nm_exports m))))
       (filter (\<lambda>m. nm_name m = n) graph))"

lemma given_sound: "t \<in> set (given lib graph k n) \<Longrightarrow> gives lib graph n t"
  by (induction k arbitrary: n) (auto intro: gives.intros)

lemma gives_provided: "gives lib graph n t \<Longrightarrow> (\<exists>m\<in>set graph. t \<in> set (own_tokens m)) \<or> (\<exists>n. t \<in> set (lib n))"
  by (induction rule: gives.induct) blast+

lemma visible_provided:
  "visible lib core graph m t \<Longrightarrow> m \<in> set graph \<Longrightarrow> t \<in> set core \<or> (\<exists>m\<in>set graph. t \<in> set (own_tokens m)) \<or> (\<exists>n. t \<in> set (lib n))"
  unfolding visible_def using gives_provided by blast

lemma given_mono:
  "(\<And>n. set (lib n) \<subseteq> set (lib' n)) \<Longrightarrow> set (given lib graph k n) \<subseteq> set (given lib' graph k n)"
  by (induction k arbitrary: n) (auto, blast+)

definition needed_packages :: "string \<Rightarrow> token list" where
  "needed_packages n = (if n = ''ConfigModule'' then [''ConfigService''] else if n = ''JwtModule'' then [''JwtService''] else [])"

definition resolves :: "nest_module list \<Rightarrow> nest_module \<Rightarrow> token \<Rightarrow> bool" where
  "resolves graph m t \<longleftrightarrow>
     t = ''Reflector'' \<or> t \<in> set (own_tokens m) \<or>
     list_ex (\<lambda>n. t \<in> set (given needed_packages graph 2 n)) (nm_imports m @ global_modules graph)"

lemma resolves_visible:
  assumes "package_laws lib core" "resolves graph m t"
  shows "visible lib core graph m t"
proof -
  have "set (needed_packages n) \<subseteq> set (lib n)" for n using assms(1) by (auto simp: package_laws_def needed_packages_def split: if_splits)
  then have "set (given needed_packages graph 2 n) \<subseteq> set (given lib graph 2 n)" for n by (rule given_mono)
  then have "t \<in> set (given needed_packages graph 2 n) \<Longrightarrow> gives lib graph n t" for n
    using given_sound by blast
  moreover have "''Reflector'' \<in> set core" using assms(1) by (simp add: package_laws_def)
  ultimately show ?thesis using assms(2) unfolding resolves_def visible_def list_ex_iff by blast
qed

section \<open>The program's modules\<close>

definition all_bad_exports :: "nest_module list \<Rightarrow> (string \<times> token) list" where
  "all_bad_exports graph = concat (map (\<lambda>m. map (Pair (nm_name m)) (bad_exports m)) graph)"

definition missing_clients :: "token list" where
  "missing_clients = [''PrismaClient'', ''Redis'']"

lemma application_needs:
  "list_all (\<lambda>m. list_all (\<lambda>(c, t). t \<in> set missing_clients \<or> resolves application m t) (module_needs m)) application"
  by code_simp

lemma application_asks:
  "concat (map (\<lambda>m. map (\<lambda>(c, t). (nm_name m, c, t)) (filter (\<lambda>(c, t). t \<in> set missing_clients) (module_needs m))) application) =
     [(''ObservabilityModule'', ''HealthIndicators'', ''PrismaClient''), (''ObservabilityModule'', ''HealthIndicators'', ''Redis'')]"
  by code_simp

lemma program_tokens_unprovided:
  "list_all (\<lambda>m. list_all (\<lambda>t. t \<notin> set (own_tokens m)) program_tokens) application"
  by code_simp

section \<open>Properties\<close>

text \<open>
  C5. The modules as they are do not start. Six exports belong neither to the providers nor to the imports of their module
  (the event publisher's symbol and the Supabase service of the infrastructure module, four classes of the security module),
  and exactly two dependencies resolve nowhere: the health indicators ask for the classes of Prisma and ioredis, which no module provides. For each of these
  reasons no start that keeps to NestJS's documentation succeeds.
\<close>
theorem application_refused:
  assumes "package_laws lib core" and "nest_laws lib core start"
  shows "(\<exists>e. start application = Inl e) \<and>
    all_bad_exports application =
      [(''InfrastructureModule'', EVENT_PUBLISHER), (''InfrastructureModule'', ''SupabaseService''),
       (''SecurityModule'', ''AuthService''), (''SecurityModule'', ''JwtAuthGuard''),
       (''SecurityModule'', ''RolesGuard''), (''SecurityModule'', ''PermissionsGuard'')] \<and>
    (\<forall>m\<in>set application. \<forall>(c, t)\<in>set (module_needs m).
       visible lib core application m t \<longleftrightarrow> \<not> (c = ''HealthIndicators'' \<and> t \<in> {''PrismaClient'', ''Redis''}))"
proof (intro conjI ballI)
  show bad: "all_bad_exports application =
      [(''InfrastructureModule'', EVENT_PUBLISHER), (''InfrastructureModule'', ''SupabaseService''),
       (''SecurityModule'', ''AuthService''), (''SecurityModule'', ''JwtAuthGuard''),
       (''SecurityModule'', ''RolesGuard''), (''SecurityModule'', ''PermissionsGuard'')]"
    by code_simp
  show "\<exists>e. start application = Inl e"
  proof (cases "start application")
    case (Inr u)
    then have "all_bad_exports application = []" using assms(2) by (auto simp: nest_laws_def all_bad_exports_def)
    then show ?thesis using bad by simp
  qed blast
next
  fix m p
  assume m: "m \<in> set application" and p: "p \<in> set (module_needs m)"
  obtain c t where ct: "p = (c, t)" by (cases p)
  have missing: "t \<in> set missing_clients \<Longrightarrow> \<not> visible lib core application m t" for t
    using visible_provided [OF _ m, of lib core t] program_tokens_unprovided assms(1)
    by (auto simp: package_laws_def list_all_iff missing_clients_def program_tokens_def)
  have "t \<in> set missing_clients \<or> resolves application m t"
    using application_needs m p ct by (auto simp: list_all_iff)
  moreover have "c = ''HealthIndicators''" if "t \<in> set missing_clients"
  proof -
    have "(nm_name m, c, t) \<in> set (concat (map (\<lambda>m. map (\<lambda>(c, t). (nm_name m, c, t))
        (filter (\<lambda>(c, t). t \<in> set missing_clients) (module_needs m))) application))"
      using m p ct that by force
    then show ?thesis unfolding application_asks by auto
  qed
  ultimately have "visible lib core application m t \<longleftrightarrow> t \<notin> set missing_clients"
    using missing resolves_visible [OF assms(1)] by blast
  then show "case p of (c, t) \<Rightarrow> visible lib core application m t \<longleftrightarrow>
      \<not> (c = ''HealthIndicators'' \<and> t \<in> {''PrismaClient'', ''Redis''})"
    using \<open>t \<in> set missing_clients \<Longrightarrow> c = ''HealthIndicators''\<close> by (auto simp: ct missing_clients_def)
qed

definition documented_start :: "(string \<Rightarrow> token list) \<Rightarrow> token list \<Rightarrow> nest_module list \<Rightarrow> string + unit" where
  "documented_start lib core graph =
     (if (\<forall>m\<in>set graph. bad_exports m = [] \<and> (\<forall>(c, t)\<in>set (module_needs m). visible lib core graph m t))
      then Inr () else Inl ''UnknownExport'')"

lemma sample_packages: "package_laws needed_packages [''Reflector'']"
  by (auto simp: package_laws_def needed_packages_def program_tokens_def token_defs)

theorem application_refused_witness:
  "\<exists>e. documented_start needed_packages [''Reflector''] application = Inl e"
proof -
  have "nest_laws needed_packages [''Reflector''] (documented_start needed_packages [''Reflector''])"
    by (auto simp: nest_laws_def documented_start_def split: if_splits)
  from application_refused [OF sample_packages this] show ?thesis by blast
qed

text \<open>
  The use cases are not part of the application. No module provides one, and in no module could one be
  constructed: each asks for the domain service or for symbols of the application layer, to which nothing is bound (the infrastructure binds the
  ports under symbols of its own).
\<close>
theorem use_cases_unbound:
  assumes "package_laws lib core" and "c \<in> {''CreateUserUseCase'', ''AuthenticateUserUseCase'', ''RefreshTokenUseCase''}"
    and "m \<in> set application"
  shows "ClassProvider c \<notin> set (nm_providers m) \<and> constructor_tokens c \<noteq> [] \<and>
    (\<forall>t\<in>set (constructor_tokens c). \<not> visible lib core application m t)"
proof (intro conjI ballI)
  have "list_all (\<lambda>m. list_all (\<lambda>c. ClassProvider c \<notin> set (nm_providers m))
      [''CreateUserUseCase'', ''AuthenticateUserUseCase'', ''RefreshTokenUseCase'']) application" by code_simp
  then show "ClassProvider c \<notin> set (nm_providers m)" using assms(2,3) by (auto simp: list_all_iff)
  show "constructor_tokens c \<noteq> []" using assms(2) by (auto simp: constructor_tokens_def constructor_defs)
  fix t assume "t \<in> set (constructor_tokens c)"
  then have "t \<in> set program_tokens" using assms(2) by (auto simp: constructor_tokens_def constructor_defs program_tokens_def)
  then show "\<not> visible lib core application m t"
    using visible_provided [OF _ assms(3), of lib core t] program_tokens_unprovided assms(1)
    by (auto simp: package_laws_def list_all_iff)
qed

theorem use_cases_unbound_witness:
  "\<not> visible needed_packages [''Reflector''] application InfrastructureModule app_UNIT_OF_WORK"
  using use_cases_unbound [OF sample_packages, of "''CreateUserUseCase''" InfrastructureModule]
  by (simp add: application_def constructor_tokens_def CreateUserUseCase_tokens_def)

end
