(* ===== verification/Documented.thy ===== *)
theory Documented
  imports Dtos
begin

text \<open>
  What the generated documentation says answers look like, as data: the response DTOs of
  \<open>src/presentation/rest/dto/api-response.dto.ts\<close> and the decorator \<open>ApiPaginated\<close> of
  \<open>src/common/decorators/api-paginated.decorator.ts\<close>; and whether the answers of the filters, interceptors and pipes conform.
\<close>

section \<open>Response DTOs\<close>

text \<open>The type of a documented property; an instant is a text in JSON. A class with a type parameter leaves the payload open.\<close>

datatype doc_type = DocAny | DocString | DocNumber | DocBoolean | DocArray | DocObject

record doc_property =
  do_name :: string
  do_required :: bool
  do_type :: doc_type

definition ApiProperty :: "string \<Rightarrow> doc_type \<Rightarrow> doc_property" where
  "ApiProperty name ty = \<lparr>do_name = name, do_required = True, do_type = ty\<rparr>"

definition ApiPropertyOptional :: "string \<Rightarrow> doc_type \<Rightarrow> doc_property" where
  "ApiPropertyOptional name ty = \<lparr>do_name = name, do_required = False, do_type = ty\<rparr>"

definition ApiResponseDto :: "doc_property list" where
  "ApiResponseDto = [ApiProperty ''data'' DocAny, ApiPropertyOptional ''meta'' DocObject]"

definition ResponseMeta :: "doc_property list" where
  "ResponseMeta =
     [ApiPropertyOptional ''total'' DocNumber, ApiPropertyOptional ''page'' DocNumber, ApiPropertyOptional ''limit'' DocNumber,
      ApiPropertyOptional ''totalPages'' DocNumber, ApiPropertyOptional ''hasNext'' DocBoolean, ApiPropertyOptional ''hasPrev'' DocBoolean,
      ApiPropertyOptional ''requestId'' DocString, ApiPropertyOptional ''timestamp'' DocString]"

definition ProblemDetailsDto :: "doc_property list" where
  "ProblemDetailsDto =
     [ApiProperty ''type'' DocString, ApiProperty ''title'' DocString, ApiProperty ''status'' DocNumber,
      ApiPropertyOptional ''detail'' DocString, ApiPropertyOptional ''instance'' DocString, ApiPropertyOptional ''code'' DocString,
      ApiPropertyOptional ''timestamp'' DocString, ApiPropertyOptional ''requestId'' DocString, ApiPropertyOptional ''errors'' DocArray]"

definition FieldError :: "doc_property list" where
  "FieldError = [ApiProperty ''field'' DocString, ApiProperty ''message'' DocString, ApiPropertyOptional ''value'' DocAny]"

definition PaginatedResponseDto :: "doc_property list" where
  "PaginatedResponseDto = [ApiProperty ''data'' DocArray, ApiProperty ''meta'' DocObject]"

fun has_doc_type :: "doc_type \<Rightarrow> json \<Rightarrow> bool" where
  "has_doc_type DocAny v = True"
| "has_doc_type DocString (JStr s) = True"
| "has_doc_type DocString (JDate t) = True"
| "has_doc_type DocNumber (JNum n) = True"
| "has_doc_type DocBoolean (JBool b) = True"
| "has_doc_type DocArray (JArr xs) = True"
| "has_doc_type DocObject (JObj ps) = True"
| "has_doc_type _ _ = False"

text \<open>A property that is \<open>undefined\<close> is not sent.\<close>

definition property_conforms :: "doc_property \<Rightarrow> json \<Rightarrow> bool" where
  "property_conforms p v \<longleftrightarrow> (if v = JUndef then \<not> do_required p else has_doc_type (do_type p) v)"

definition conforms :: "doc_property list \<Rightarrow> row \<Rightarrow> bool" where
  "conforms dto ob \<longleftrightarrow> list_all (\<lambda>p. property_conforms p (json_get (do_name p) ob)) dto"

section \<open>ApiPaginated\<close>

record api_query =
  qu_name :: string
  qu_required :: bool
  qu_type :: doc_type
  qu_description :: string
  qu_example :: "json option"

text \<open>The documented answer: the class of the items, and the names, types and examples of \<open>meta\<close> and \<open>links\<close>.\<close>

record paginated_schema =
  ps_items :: string
  ps_meta :: "(string \<times> doc_type \<times> json) list"
  ps_links :: "(string \<times> doc_type \<times> json) list"

datatype swagger_decorator =
    ApiExtraModels string
  | ApiQuery api_query
  | ApiOkResponse string paginated_schema

definition optional_query :: "string \<Rightarrow> doc_type \<Rightarrow> string \<Rightarrow> json option \<Rightarrow> swagger_decorator" where
  "optional_query name ty description eg =
     ApiQuery \<lparr>qu_name = name, qu_required = False, qu_type = ty, qu_description = description, qu_example = eg\<rparr>"

definition ApiPaginated_schema :: "string \<Rightarrow> paginated_schema" where
  "ApiPaginated_schema dtoType =
     \<lparr>ps_items = dtoType,
      ps_meta = [(''page'', DocNumber, JNum 1), (''limit'', DocNumber, JNum 20), (''totalItems'', DocNumber, JNum 150),
        (''totalPages'', DocNumber, JNum 8), (''hasNext'', DocBoolean, JBool True), (''hasPrevious'', DocBoolean, JBool False)],
      ps_links = [(''self'', DocString, JStr ''/api/v1/users?page=1&limit=20''), (''first'', DocString, JStr ''/api/v1/users?page=1&limit=20''),
        (''prev'', DocString, JNull), (''next'', DocString, JStr ''/api/v1/users?page=2&limit=20''),
        (''last'', DocString, JStr ''/api/v1/users?page=8&limit=20'')]\<rparr>"

definition ApiPaginated :: "string \<Rightarrow> string option \<Rightarrow> bool \<Rightarrow> swagger_decorator list" where
  "ApiPaginated dtoType description supportsCursor =
     [ApiExtraModels dtoType,
      optional_query ''page'' DocNumber ''Page number (1-based)'' (Some (JNum 1)),
      optional_query ''limit'' DocNumber ''Items per page (max 100)'' (Some (JNum 20)),
      optional_query ''sort'' DocString ''Sort field and direction (e.g., \"createdAt:desc\")'' (Some (JStr ''createdAt:desc''))] @
     (if supportsCursor
      then [optional_query ''after'' DocString ''Cursor for forward pagination'' None,
            optional_query ''first'' DocNumber ''Number of items to fetch (cursor-based)'' None]
      else []) @
     [ApiOkResponse (case description of Some d \<Rightarrow> d | None \<Rightarrow> ''Paginated list of resources'') (ApiPaginated_schema dtoType)]"

section \<open>Lemmas\<close>

lemmas doc_defs = ApiResponseDto_def ResponseMeta_def ProblemDetailsDto_def FieldError_def PaginatedResponseDto_def
  ApiProperty_def ApiPropertyOptional_def conforms_def property_conforms_def

lemma http_answer_conforms:
  assumes "\<exists>a b c d e n. map_of ps ''type'' = Some (JStr a) \<and> map_of ps ''title'' = Some (JStr b) \<and> map_of ps ''status'' = Some (JNum n) \<and>
      map_of ps ''detail'' = Some (JStr c) \<and> map_of ps ''code'' = Some (JStr d)"
    and "map_of ps ''timestamp'' = None" "map_of ps ''errors'' \<in> insert None (range (Some \<circ> JArr))"
  shows "conforms ProblemDetailsDto (rs_body (AllExceptions_http env r st (JObj ps)))"
  using assms by (auto simp: doc_defs AllExceptions_http_def put_all_def json_get_def map_of_obj_put)

lemma problem_answer_conforms:
  assumes "{''timestamp'', ''errors''} \<inter> fst ` set (pb_extra b) = {}"
  shows "conforms ProblemDetailsDto (rs_body (AllExceptions_http env r st (problem_json b)))"
proof -
  have "map_of (pb_extra b) ''timestamp'' = None" "map_of (pb_extra b) ''errors'' = None"
    using assms by (auto simp: map_of_eq_None_iff)
  then show ?thesis unfolding problem_json_def by (intro http_answer_conforms) simp_all
qed

lemma http_answer_errors:
  "json_get ''errors'' (rs_body (AllExceptions_http env r st (JObj ps))) = json_get ''errors'' ps"
  by (simp add: AllExceptions_http_def put_all_def json_get_def map_of_obj_put)

lemma validation_answer_conforms:
  "\<exists>rs. AllExceptions_catch env r (createValidationPipe_exception es) = Inr rs \<and> conforms ProblemDetailsDto (rs_body rs) \<and>
     json_get ''errors'' (rs_body rs) = JArr (map field_error es)"
proof -
  let ?ps = "[(''type'', errors_url ''validation''), (''title'', JStr ''Validation Error''), (''status'', JNum 422),
     (''detail'', JStr ''The request body contains invalid fields.''), (''code'', JStr (error_code_string VALIDATION_ERROR)),
     (''errors'', JArr (map field_error es))]"
  have "conforms ProblemDetailsDto (rs_body (AllExceptions_http env r 400 (JObj ?ps)))"
    by (rule http_answer_conforms) (simp_all add: errors_url_def)
  moreover have "json_get ''errors'' (rs_body (AllExceptions_http env r 400 (JObj ?ps))) = JArr (map field_error es)"
    unfolding http_answer_errors by (simp add: json_get_def)
  ultimately show ?thesis unfolding createValidationPipe_exception_def http_passes by blast
qed

lemma field_error_conforms: "\<exists>ps. field_error e = JObj ps \<and> conforms FieldError ps"
  by (simp add: field_error_def doc_defs json_get_def)

lemma field_errors_conform: "\<exists>fields. map field_error es = map JObj fields \<and> length fields = length es \<and> list_all (conforms FieldError) fields"
proof (induction es)
  case (Cons e es)
  obtain fields where "map field_error es = map JObj fields" "length fields = length es" "list_all (conforms FieldError) fields"
    using Cons.IH by blast
  moreover obtain ps where "field_error e = JObj ps" "conforms FieldError ps" using field_error_conforms by blast
  ultimately show ?case by (intro exI [of _ "ps # fields"]) simp
qed simp

lemma domain_answer_conforms: "conforms ProblemDetailsDto (rs_body (AllExceptions_domain r e))"
  by (simp add: doc_defs AllExceptions_domain_def Let_def json_get_def errors_url_def)

lemma internal_answer_conforms: "conforms ProblemDetailsDto (rs_body (AllExceptions_unknown env r t))"
  by (simp add: doc_defs AllExceptions_unknown_def json_get_def errors_url_def)

section \<open>Properties\<close>

text \<open>
  C32. Problems have the documented form. A domain exception, a problem thrown by a guard, a body rejected by the validation pipe of the
  presentation module (\<open>createValidationPipe\<close>) and any internal error are answered with an object that has a type, a title and a
  status of the documented types, and whose other documented properties are absent or of their types; the list of a
  body rejected by that pipe consists of documented field errors. Of the bootstrap's own \<open>ValidationPipe\<close> nothing is said here.
\<close>
theorem problems_conform:
  assumes "(\<exists>e. t = Thrown e \<and> is_DomainException e) \<or> internal_cause t \<or>
    (\<exists>st b. t = Thrown (HttpExc st b) \<and> {''timestamp'', ''errors''} \<inter> fst ` set (pb_extra b) = {}) \<or>
    (\<exists>es. t = createValidationPipe_exception es)"
  shows "\<exists>rs. AllExceptions_catch env r t = Inr rs \<and> conforms ProblemDetailsDto (rs_body rs) \<and>
    (\<forall>es. t = createValidationPipe_exception es \<longrightarrow>
       (\<exists>fields. json_get ''errors'' (rs_body rs) = JArr (map JObj fields) \<and> length fields = length es \<and>
          list_all (conforms FieldError) fields))"
proof (cases "\<exists>es. t = createValidationPipe_exception es")
  case True
  then obtain es where "t = createValidationPipe_exception es" by blast
  then obtain rs where rs: "AllExceptions_catch env r t = Inr rs" "conforms ProblemDetailsDto (rs_body rs)"
    using validation_answer_conforms by blast
  have "\<exists>fields. json_get ''errors'' (rs_body rs) = JArr (map JObj fields) \<and> length fields = length es' \<and>
      list_all (conforms FieldError) fields" if "t = createValidationPipe_exception es'" for es'
    using validation_answer_conforms [of env r es'] rs(1) field_errors_conform [of es'] that by auto
  then show ?thesis using rs by blast
next
  case False
  then consider e where "t = Thrown e" "is_DomainException e" | "internal_cause t"
    | st b where "t = Thrown (HttpExc st b)" "{''timestamp'', ''errors''} \<inter> fst ` set (pb_extra b) = {}"
    using assms by blast
  then have "\<exists>rs. AllExceptions_catch env r t = Inr rs \<and> conforms ProblemDetailsDto (rs_body rs)"
    by cases (simp_all add: domain_not_http domain_answer_conforms internal_unknown internal_answer_conforms http_passes problem_answer_conforms)
  then show ?thesis using False by blast
qed

theorem problems_conform_witness:
  "\<exists>rs. AllExceptions_catch production_env sample_filter_request (Thrown (EmailAlreadyExistsException ''a@b.c'')) = Inr rs \<and>
    conforms ProblemDetailsDto (rs_body rs)"
  using problems_conform [of "Thrown (EmailAlreadyExistsException ''a@b.c'')" production_env sample_filter_request] by auto

text \<open>
  The other validation answer does not. When a list of class-validator's errors reaches the filter itself, each entry keeps
  \<open>property\<close> and \<open>constraints\<close>; without a \<open>field\<close> none is a documented field error.
\<close>
theorem raw_errors_do_not_conform:
  assumes "map_of ps ''property'' = Some p" "map_of ps ''constraints'' = Some c" "map_of ps ''field'' = None"
  shows "\<exists>rs. AllExceptions_catch env r (ThrownValue (JArr (JObj ps # rest))) = Inr rs \<and> rs_status rs = 422 \<and>
    json_get ''errors'' (rs_body rs) = JArr (JObj ps # rest) \<and> \<not> conforms FieldError ps"
proof -
  have "''property'' \<in> fst ` set ps" "''constraints'' \<in> fst ` set ps"
    using assms(1,2) by (auto dest!: map_of_SomeD intro: rev_image_eqI)
  then show ?thesis using assms(3)
    by (simp add: AllExceptions_catch_def js_in_def AllExceptions_validation_def doc_defs json_get_def)
qed

theorem raw_errors_do_not_conform_witness:
  "\<exists>rs. AllExceptions_catch production_env sample_filter_request
      (ThrownValue (JArr [JObj [(''property'', JStr ''email''), (''constraints'', JObj [])]])) = Inr rs \<and> rs_status rs = 422"
  using raw_errors_do_not_conform [of "[(''property'', JStr ''email''), (''constraints'', JObj [])]" "JStr ''email''" "JObj []"
      production_env sample_filter_request "[]"] by auto

text \<open>
  Pages are not what \<open>ApiPaginated\<close> documents. A \<open>PaginatedResult\<close> sent through both interceptors conforms to \<open>PaginatedResponseDto\<close>
  and its metadata to \<open>ResponseMeta\<close>; but of the six properties of \<open>meta\<close> that the decorator documents only \<open>limit\<close> is there, and
  there are no \<open>links\<close>.
\<close>
theorem paginated_documentation_differs:
  "\<exists>body meta. PresentationTransform_intercept c (CommonTransform_intercept c' (PaginatedResult_toJSON p)) = JObj body \<and>
     json_get ''meta'' body = JObj meta \<and> conforms PaginatedResponseDto body \<and> conforms ResponseMeta meta \<and>
     set (map fst (ps_meta (ApiPaginated_schema dto))) \<inter> fst ` set meta = {''limit''} \<and> json_get ''links'' body = JUndef"
  by (cases "has_cursor p")
    (simp_all add: PaginatedResult_toJSON_def CommonTransform_intercept_def CommonTransform_isAlreadyWrapped_def json_get_def
        PresentationTransform_intercept_def doc_defs ApiPaginated_schema_def keys_put_all CommonTransform_meta_def map_of_put_all)

end
