(* ===== verification/Spec2Isabelle.thy ===== *)
theory Spec2Isabelle
  imports Results Specifications UserRepository UserAggregate Cache Messaging UserService UseCases CreateUser
    SessionAuth Throttler CircuitBreaker HttpClient Async Guards EmailService Redaction Pagination Filters
    Crypto Dates Validation Dtos Controllers Configuration AuthSettings Observability Logging Bootstrap Api Settings Wiring Documented
begin

text \<open>
  A verification library for the enterprise system, a NestJS server in TypeScript (\<open>src/src\<close>). The
  program is layered. The domain layer (\<open>domain\<close>) holds value objects, the \<open>User\<close> entity, its aggregate
  root, domain events, specifications, and the ports to the outside. The application layer
  (\<open>application\<close>) runs use cases over those ports. The infrastructure layer (\<open>infrastructure\<close>) implements
  them: the Prisma repository, the Redis cache, the BullMQ publisher and processor, bcrypt, the HTTP and
  mail clients. The security layer (\<open>security\<close>) has the guards, sessions and rate limiting; \<open>presentation\<close>,
  \<open>common\<close> and \<open>observability\<close> hold filters, interceptors, utilities and logging. A request passes the
  guards, a handler and the interceptors; what is thrown ends in a filter.

  \<^bold>\<open>How code becomes definitions.\<close> A class is a record of its fields, an enum or a closed set of classes
  a datatype. A method is a definition named \<open>Class_method\<close>. A method that may throw gives \<open>exn + 'a\<close> (theory
  \<open>Errors\<close> has the type \<open>exn\<close> of what is thrown); one that also works on outside state is a \<open>proc\<close>, from a
  state to outcome and state, so that a throw keeps the writes made before it. A mutating method of a
  domain object gives the object after the call. Clock readings, random numbers and identifiers a call
  draws are its arguments. Third-party code (Prisma, ioredis, BullMQ, bcrypt, JWT, Axios, class-validator,
  winston, passport) is an argument: a record of the calls made on it or a function; what its documentation
  promises and a proof needs is a locale or a named hypothesis, and an in-memory instance shows that the
  assumptions hold of something. Logging is left out unless it is the subject.

  \<^bold>\<open>The theories.\<close>

    \<^item> \<open>Prelude\<close>: results with errors, procedures, the string methods in use, JSON values, list lemmas.
    \<^item> \<open>Errors\<close>: \<open>ErrorCode\<close>, \<open>DomainError\<close>, the domain exceptions, everything the code throws.
    \<^item> \<open>Results\<close>: the two \<open>Result\<close> classes (\<open>domain/common/result.ts\<close>, \<open>application/result.ts\<close>) as
      instances of one locale of railway laws; \<open>combine\<close>, \<open>all\<close>, \<open>try\<close>.
    \<^item> \<open>Regex\<close>, \<open>ValueObjects\<close>: the source's regular expressions as data with a derivative matcher that is
      proved to decide the language; \<open>Email\<close>, \<open>Password\<close>, \<open>UniqueId\<close>: accepted inputs and round trips.
    \<^item> \<open>Events\<close>: the event classes and their serialisation.
    \<^item> \<open>UserEntity\<close>: \<open>domain/entities/user.entity.ts\<close>; refinement of an abstract lifecycle, versions count
      changes, the pending events replay the status, reachable users are well formed.
    \<^item> \<open>UserAggregate\<close>: \<open>domain/aggregates/user.aggregate.ts\<close>; the invariant of roles and sessions.
    \<^item> \<open>Specifications\<close>: the specification pattern as a Boolean algebra.
    \<^item> \<open>UserRepository\<close>: the port as a locale, the Prisma implementation as a \<open>sublocale\<close> over a table with
      Prisma's promises; round trips, optimistic locking, rows left behind by a failing save.
    \<^item> \<open>Cache\<close>: \<open>CacheService\<close> and the \<open>Cached\<close> decorator over a Redis locale whose entries expire and which may be out of
      reach; one run per key and time to live, pattern invalidation.
    \<^item> \<open>Messaging\<close>: publisher and processor; at most one successful processing per event identifier within
      the deduplication window of 24 hours.
    \<^item> \<open>UserService\<close>: the domain service over its ports and the hasher; what authentication decides.
    \<^item> \<open>UseCases\<close>: creating a user, authenticating, refreshing a token, the mapper, validation and unit of work.
    \<^item> \<open>CreateUser\<close>: the registration use case with its decorators, \<open>@Audit\<close> around \<open>@ValidateInput\<close> around the body.
    \<^item> \<open>SessionAuth\<close>: \<open>AuthService\<close> and \<open>JwtStrategy\<close> over the session and user tables; token rotation.
    \<^item> \<open>Throttler\<close>: the rate-limit guard; a bound for every window, and how it is evaded.
    \<^item> \<open>Guards\<close>: the chain of global guards end to end, request identifiers, current user, request context.
    \<^item> \<open>CircuitBreaker\<close>: both circuit breakers as step relations of overlapping calls, with one locale of what
      they share; invariant, when they trip, that they recover.
    \<^item> \<open>RetryLoop\<close>: the contract of a bounded retry loop, interpreted in \<open>Async\<close>, \<open>HttpClient\<close> and \<open>EmailService\<close>.
    \<^item> \<open>HttpClient\<close>: named clients, error classification, back-off, the request loop and its circuits.
    \<^item> \<open>Async\<close>: \<open>retry\<close>, \<open>timeout\<close> and \<open>parallel\<close>; \<open>parallel\<close> is a step relation in which tasks settle in any order.
    \<^item> \<open>EmailService\<close>: the token bucket, validation and the sending loop; a bound on mails per time.
    \<^item> \<open>Redaction\<close>: the logger, the logging interceptor and the audit decorator; exactness of redaction.
    \<^item> \<open>Pagination\<close>: page arithmetic, the generic repository, both response envelopes; pages partition a table.
    \<^item> \<open>Filters\<close>: the three exception filters, which of them answers, the timeout interceptor, status helpers.
    \<^item> \<open>Bytes\<close>: the encodings of Node's buffers (UTF-8, hexadecimal, both Base64 alphabets) as one locale \<open>codec\<close>, four
      times interpreted.
    \<^item> \<open>Configuration\<close>: what settings are read as, Redis and database addresses, the Supabase and Prisma clients.
    \<^item> \<open>Crypto\<close>: \<open>EncryptionService\<close> and \<open>crypto.util\<close> over Node's primitives; key rotation, comparisons, bias,
      stored passwords.
    \<^item> \<open>Dates\<close>: \<open>date.util\<close> over date-fns; durations.
    \<^item> \<open>Validation\<close>, \<open>Dtos\<close>: the custom validators, the validation pipes, the DTOs' rules as data, commands and
      queries; which bodies reach a handler.
    \<^item> \<open>AuthSettings\<close>: the options of tokens and sessions, and what numbers set in the environment do to them.
    \<^item> \<open>Controllers\<close>: the declared routes of all controllers with their guards, and the handlers.
    \<^item> \<open>Api\<close>: whole requests, from the guards through pipes, handler and interceptors to the filter, and sequences of
      them; every request that reaches one of the twelve declared routes with a parsed body is answered, none changes the
      database, and without a live session all but the health checks are refused.
    \<^item> \<open>Observability\<close>, \<open>Logging\<close>: health and readiness, the request logger over overlapping requests, spans, the
      metrics and their registry, log levels.
    \<^item> \<open>Settings\<close>: the schemas of the configuration, when they accept an environment, what the program then reads; tracing
      and compression.
    \<^item> \<open>Wiring\<close>: the modules, what they give each other and what their constructors ask for; why the application does not start
      as it is.
    \<^item> \<open>Documented\<close>: the documented response DTOs, and which answers conform to them.
    \<^item> \<open>Bootstrap\<close>: the calls of \<open>main.ts\<close> in order, where routes end up, how the process ends: turns of the event loop that run
      the due timers and one handler.

  \<^bold>\<open>Termination.\<close> No definition of the program takes fuel; only \<open>Wiring.given\<close>, which computes what modules give,
  follows re-exports to a depth; the deepest chain of re-exports
  in the source has two levels. The retry loops recurse on the attempts left; the step relations
  have no bound, and that a run of them ends is a theorem (\<open>Async.parallel_collects\<close>), as are the recovery
  of a circuit and the end of the process after a SIGTERM (\<open>Bootstrap.shutdown_bounded\<close>).

  \<^bold>\<open>Bounds of the model.\<close> Strings are code units below U+0100. Numbers that the code keeps integral are
  integers and delays are rationals: precision beyond 2^53 and the rounding of delays are not modelled. The token bucket works on rounded numbers:
  the rounding is a parameter, of which only the relative error of doubles is assumed. Days
  have 24 hours. A date in JSON is its instant. A hash of bcrypt is related to its text only up to the 72 bytes bcrypt reads, of ASCII texts
  (\<open>bcrypt_text\<close>). What is logged is a value of \<open>Redaction.logged\<close>: JSON with class instances, dates and errors, which have
  properties of their own and hidden ones. Redis entries expire by the server's clock; clock and reachability change between two calls only.

  \<^bold>\<open>Not modelled.\<close> The barrels, which only re-export; logging where it is not the subject; the parts that only call a
  library: opening and closing of connections, listeners for their events, the accessors of the current span, the default
  metrics. Requests that reach no declared route (the Swagger pages, CORS preflights,
  unmatched paths) and bodies the parser refuses. The handlers of the user controller are the source's placeholders and modelled as such. As committed, the modules do
  not start (theory \<open>Wiring\<close>); the theorems on requests are about the guards, pipes, handlers, interceptors and filters as they are registered, once started.
\<close>

section \<open>Across components\<close>

text \<open>
  What a refused client sees. A request without a user that reaches a route asking for roles or
  permissions (a public route among them) is refused; through the exception filter it is answered with
  HTTP status 403, while the problem in the body says status 401. For a user who lacks a right both say 403.
\<close>
theorem refused_request_answer:
  assumes "RolesGuard_canActivate handler cls user = Inl e \<or> PermissionsGuard_canActivate handler cls user = Inl e"
  shows "\<exists>rs. AllExceptions_catch env r (Thrown e) = Inr rs \<and> rs_status rs = 403 \<and>
    map_of (rs_body rs) ''status'' = Some (JNum (if user = None then 401 else 403)) \<and>
    map_of (rs_body rs) ''instance'' = Some (JStr (fr_url r))"
  using assms
  by (auto simp: RolesGuard_canActivate_def PermissionsGuard_canActivate_def forbidden_def Let_def http_passes
      AllExceptions_http_def problem_json_def put_all_def map_of_obj_put split: option.splits if_splits)

theorem refused_request_answer_witness:
  "\<exists>rs. AllExceptions_catch production_env sample_filter_request
      (Thrown (projl (RolesGuard_canActivate (sample_route\<lparr>md_roles := Some [''ADMIN'']\<rparr>) sample_route None))) = Inr rs \<and>
    rs_status rs = 403 \<and> map_of (rs_body rs) ''status'' = Some (JNum 401)"
  using refused_request_answer [of "sample_route\<lparr>md_roles := Some [''ADMIN'']\<rparr>" sample_route None
      "projl (RolesGuard_canActivate (sample_route\<lparr>md_roles := Some [''ADMIN'']\<rparr>) sample_route None)"
      production_env sample_filter_request]
  by (auto simp: RolesGuard_canActivate_def sample_route_def override_def)

end
